(* ===== verification/Net.thy ===== *)
theory Net
  imports Prelude
begin

text \<open>
  The part of \<^verbatim>\<open>std::net\<close> the sources use: addresses, their classification predicates, the
  parser of \<open>IpAddr\<close>, \<open>Ipv4Addr\<close> and \<open>Ipv6Addr\<close> (decimal octets without leading zeros, one
  \<^verbatim>\<open>::\<close>, an embedded IPv4 tail) and their \<open>Display\<close> forms.
\<close>

type_synonym ipv4 = "32 word"
type_synonym ipv6 = "128 word"

datatype ip = V4 ipv4 | V6 ipv6

fun is_ipv4 :: "ip \<Rightarrow> bool" where
  "is_ipv4 (V4 _) = True"
| "is_ipv4 (V6 _) = False"

section \<open>Octets and segments\<close>

definition octets :: "ipv4 \<Rightarrow> u8 list" where
  "octets a = map (\<lambda>k. ucast (drop_bit k a)) [24, 16, 8, 0]"

definition segments :: "ipv6 \<Rightarrow> u16 list" where
  "segments a = map (\<lambda>k. ucast (drop_bit k a)) [112, 96, 80, 64, 48, 32, 16, 0]"

definition of_octets :: "u8 list \<Rightarrow> ipv4" where
  "of_octets os = foldl (\<lambda>acc b. push_bit 8 acc OR ucast b) 0 os"

definition of_segments :: "u16 list \<Rightarrow> ipv6" where
  "of_segments ss = foldl (\<lambda>acc s. push_bit 16 acc OR ucast s) 0 ss"

text \<open>\<open>u16::to_be_bytes\<close> and \<open>u16::from_be_bytes\<close>, the length header of a framed message.\<close>

definition be16 :: "u16 \<Rightarrow> u8 list" where
  "be16 n = [ucast (drop_bit 8 n), ucast n]"

definition of_be16 :: "u8 \<Rightarrow> u8 \<Rightarrow> u16" where
  "of_be16 hi lo = push_bit 8 (ucast hi) OR ucast lo"

section \<open>Classification\<close>

definition v4_private :: "ipv4 \<Rightarrow> bool" where
  "v4_private a = (let a0 = octets a ! 0; a1 = octets a ! 1 in
     a0 = 10 \<or> (a0 = 172 \<and> 16 \<le> a1 \<and> a1 \<le> 31) \<or> (a0 = 192 \<and> a1 = 168))"

definition v4_loopback :: "ipv4 \<Rightarrow> bool" where
  "v4_loopback a = (octets a ! 0 = 127)"

definition v4_link_local :: "ipv4 \<Rightarrow> bool" where
  "v4_link_local a = (octets a ! 0 = 169 \<and> octets a ! 1 = 254)"

definition v4_unspecified :: "ipv4 \<Rightarrow> bool" where
  "v4_unspecified a = (a = 0)"

definition v4_broadcast :: "ipv4 \<Rightarrow> bool" where
  "v4_broadcast a = (octets a = [255, 255, 255, 255])"

definition v4_documentation :: "ipv4 \<Rightarrow> bool" where
  "v4_documentation a = (take 3 (octets a) \<in> {[192, 0, 2], [198, 51, 100], [203, 0, 113]})"

definition v4_multicast :: "ipv4 \<Rightarrow> bool" where
  "v4_multicast a = (224 \<le> octets a ! 0 \<and> octets a ! 0 \<le> 239)"

definition v6_loopback :: "ipv6 \<Rightarrow> bool" where
  "v6_loopback a = (a = 1)"

definition v6_unspecified :: "ipv6 \<Rightarrow> bool" where
  "v6_unspecified a = (a = 0)"

definition v6_multicast :: "ipv6 \<Rightarrow> bool" where
  "v6_multicast a = (segments a ! 0 AND 0xff00 = 0xff00)"

definition to_ipv4_mapped :: "ipv6 \<Rightarrow> ipv4 option" where
  "to_ipv4_mapped a = (if take 6 (segments a) = [0, 0, 0, 0, 0, 0xffff]
     then Some (ucast a) else None)"

section \<open>Parsing\<close>

definition read_number :: "nat \<Rightarrow> nat \<Rightarrow> bool \<Rightarrow> nat \<Rightarrow> string \<Rightarrow> (nat \<times> string) option" where
  "read_number radix max_digits allow_zero_prefix bound s =
     (let ds = takeWhile (\<lambda>c. digit_val radix c \<noteq> None) s in
      if ds = [] \<or> max_digits < length ds then None
      else if \<not> allow_zero_prefix \<and> hd ds = CHR ''0'' \<and> 1 < length ds then None
      else (case digits_val radix 0 ds of
          None \<Rightarrow> None
        | Some n \<Rightarrow> if n < bound then Some (n, drop (length ds) s) else None))"

definition read_char :: "char \<Rightarrow> string \<Rightarrow> string option" where
  "read_char c s = (case s of [] \<Rightarrow> None | x # xs \<Rightarrow> if x = c then Some xs else None)"

definition read_sep ::
    "bool \<Rightarrow> char \<Rightarrow> (string \<Rightarrow> ('a \<times> string) option) \<Rightarrow> string \<Rightarrow> ('a \<times> string) option" where
  \<comment> \<open>\<open>read_separator\<close>: no separator before the first group\<close>
  "read_sep first c p s = (if first then p s else Option.bind (read_char c s) p)"

fun read_octets :: "nat \<Rightarrow> bool \<Rightarrow> string \<Rightarrow> (u8 list \<times> string) option" where
  "read_octets 0 first s = Some ([], s)"
| "read_octets (Suc n) first s =
     (case read_sep first (CHR ''.'') (read_number 10 3 False 256) s of
        None \<Rightarrow> None
      | Some (b, s') \<Rightarrow>
          map_option (\<lambda>(bs, r). (of_nat b # bs, r)) (read_octets n False s'))"

definition read_ipv4 :: "string \<Rightarrow> (ipv4 \<times> string) option" where
  "read_ipv4 s = map_option (\<lambda>(bs, r). (of_octets bs, r)) (read_octets 4 True s)"

fun read_groups :: "nat \<Rightarrow> bool \<Rightarrow> string \<Rightarrow> u16 list \<times> bool \<times> string" where
  "read_groups 0 first s = ([], False, s)"
| "read_groups (Suc n) first s =
     (case (if 0 < n then read_sep first (CHR '':'') read_ipv4 s else None) of
        Some (a, r) \<Rightarrow> ([ucast (drop_bit 16 a), ucast a], True, r)
      | None \<Rightarrow>
          (case read_sep first (CHR '':'') (read_number 16 4 True 65536) s of
             None \<Rightarrow> ([], False, s)
           | Some (g, s') \<Rightarrow>
               (case read_groups n False s' of (gs, b, r) \<Rightarrow> (of_nat g # gs, b, r))))"

definition read_ipv6 :: "string \<Rightarrow> (ipv6 \<times> string) option" where
  "read_ipv6 s =
     (case read_groups 8 True s of (hd6, v4, r) \<Rightarrow>
        if length hd6 = 8 then Some (of_segments hd6, r)
        else if v4 then None
        else (case Option.bind (read_char (CHR '':'') r) (read_char (CHR '':'')) of
            None \<Rightarrow> None
          | Some r1 \<Rightarrow>
              (case read_groups (8 - (length hd6 + 1)) True r1 of (tl6, _, r2) \<Rightarrow>
                 Some (of_segments (hd6 @ replicate (8 - length hd6 - length tl6) 0 @ tl6), r2))))"

definition parse_all :: "(string \<Rightarrow> ('a \<times> string) option) \<Rightarrow> string \<Rightarrow> 'a option" where
  "parse_all p s = (case p s of Some (x, []) \<Rightarrow> Some x | _ \<Rightarrow> None)"

definition parse_ipv4 :: "string \<Rightarrow> ipv4 option" where
  "parse_ipv4 = parse_all read_ipv4"

definition parse_ipv6 :: "string \<Rightarrow> ipv6 option" where
  "parse_ipv6 = parse_all read_ipv6"

definition parse_ipaddr :: "string \<Rightarrow> ip option" where
  \<comment> \<open>\<open>str::parse::<IpAddr>()\<close>\<close>
  "parse_ipaddr s =
     (case read_ipv4 s of
        Some (a, r) \<Rightarrow> (if r = [] then Some (V4 a) else None)
      | None \<Rightarrow> map_option V6 (parse_ipv6 s))"

section \<open>Display\<close>

fun join :: "string \<Rightarrow> string list \<Rightarrow> string" where
  "join sep [] = []"
| "join sep [x] = x"
| "join sep (x # y # xs) = x @ sep @ join sep (y # xs)"

definition show_ipv4 :: "ipv4 \<Rightarrow> string" where
  "show_ipv4 a = join ''.'' (map show_word (octets a))"

fun zero_span :: "u16 list \<Rightarrow> nat \<Rightarrow> nat \<times> nat \<Rightarrow> nat \<times> nat \<Rightarrow> nat \<times> nat" where
  \<comment> \<open>the first longest run of zero segments, as (start, length)\<close>
  "zero_span [] i cur best = best"
| "zero_span (s # ss) i (st, n) best =
     (if s = 0 then
        (let cur = (if n = 0 then (i, 1) else (st, Suc n)) in
         zero_span ss (Suc i) cur (if snd best < snd cur then cur else best))
      else zero_span ss (Suc i) (0, 0) best)"

definition show_segments :: "u16 list \<Rightarrow> string" where
  "show_segments ss = join '':'' (map (\<lambda>s. show_hex (unat s)) ss)"

definition show_ipv6 :: "ipv6 \<Rightarrow> string" where
  "show_ipv6 a =
     (case to_ipv4_mapped a of
        Some v4 \<Rightarrow> ''::ffff:'' @ show_ipv4 v4
      | None \<Rightarrow>
          (let ss = segments a in
           case zero_span ss 0 (0, 0) (0, 0) of (st, n) \<Rightarrow>
             if 1 < n then show_segments (take st ss) @ ''::'' @ show_segments (drop (st + n) ss)
             else show_segments ss))"

fun show_ip :: "ip \<Rightarrow> string" where
  "show_ip (V4 a) = show_ipv4 a"
| "show_ip (V6 a) = show_ipv6 a"

section \<open>Sanity checks\<close>

lemma octets_length [simp]: "length (octets a) = 4"
  by (simp add: octets_def)

lemma segments_length [simp]: "length (segments a) = 8"
  by (simp add: segments_def)

text \<open>Evaluation of the parser and the printer on closed arguments, for witnesses.\<close>

lemma read_octets_numeral:
  "read_octets (numeral v) first s =
     (case read_sep first (CHR ''.'') (read_number 10 3 False 256) s of
        None \<Rightarrow> None
      | Some (b, s') \<Rightarrow>
          map_option (\<lambda>(bs, r). (of_nat b # bs, r)) (read_octets (pred_numeral v) False s'))"
  by (simp add: numeral_eq_Suc)

lemma read_groups_numeral:
  "read_groups (numeral v) first s =
     (case (if 0 < pred_numeral v then read_sep first (CHR '':'') read_ipv4 s else None) of
        Some (a, r) \<Rightarrow> ([ucast (drop_bit 16 a), ucast a], True, r)
      | None \<Rightarrow>
          (case read_sep first (CHR '':'') (read_number 16 4 True 65536) s of
             None \<Rightarrow> ([], False, s)
           | Some (g, s') \<Rightarrow>
               (case read_groups (pred_numeral v) False s' of (gs, b, r) \<Rightarrow> (of_nat g # gs, b, r))))"
  by (simp add: numeral_eq_Suc)

lemma show_radix_numeral:
  "show_radix (numeral v) radix n =
     (let d = n mod radix; c = char_of (if d < 10 then 48 + d else 87 + d) in
      (if n < radix then [c] else show_radix (pred_numeral v) radix (n div radix) @ [c]))"
  by (simp add: numeral_eq_Suc)

lemma replicate_numeral:
  "replicate (numeral v) x = x # replicate (pred_numeral v) x"
  by (simp add: numeral_eq_Suc)

lemmas ip_parse_eval = parse_ipaddr_def parse_ipv4_def parse_ipv6_def parse_all_def read_ipv4_def
  read_ipv6_def read_number_def read_sep_def read_char_def digit_val_def of_octets_def
  of_segments_def read_octets_numeral read_groups_numeral replicate_numeral

lemmas ip_show_eval = show_ipv4_def show_ipv6_def show_segments_def octets_def segments_def
  to_ipv4_mapped_def show_word_def show_nat_def show_hex_def show_radix_numeral char_of_def bit_0

lemma parse_ipv4_example: "parse_ipaddr ''203.0.113.9'' = Some (V4 0xCB007109)"
  by (simp add: ip_parse_eval)

lemma parse_ipv4_leading_zero: "parse_ipaddr ''10.0.0.01'' = None"
  by (simp add: ip_parse_eval)

lemma parse_ipv6_example: "parse_ipaddr ''2001:db8::9'' = Some (V6 0x20010db8000000000000000000000009)"
  by (simp add: ip_parse_eval)

lemma show_ipv4_example: "show_ip (V4 0xCB007109) = ''203.0.113.9''"
  by (simp add: ip_show_eval)

lemma show_ipv6_example: "show_ip (V6 0x20010db8000000000000000000000009) = ''2001:db8::9''"
  by (simp add: ip_show_eval)

end
