(* ===== verification/Dns.thy ===== *)
theory Dns
  imports Net
begin

text \<open>
  The data of \<^verbatim>\<open>hickory_proto\<close>, \<^verbatim>\<open>serde_yaml\<close> and \<^verbatim>\<open>ipnet\<close> values as the sources see them
  through getters, setters and public constructors, and the record \<open>lib\<close> of the foreign
  operations the sources call. Those operations are parameters: every definition that needs one
  takes a \<open>lib\<close> as its first argument, and a theorem that relies on how one behaves names the
  documented law as a hypothesis.

  A \<open>Name\<close> is opaque (the type variable \<open>'n\<close>). Record types, classes, response codes, opcodes
  and EDNS option codes are their numbers in the DNS registries, so an unknown code needs no
  constructor of its own.
\<close>

section \<open>Codes\<close>

type_synonym record_type = u16
type_synonym dns_class = u16
type_synonym rcode = u16
type_synonym opcode = u8
type_synonym edns_code = u16

abbreviation RtA :: record_type where "RtA \<equiv> 1"
abbreviation RtNS :: record_type where "RtNS \<equiv> 2"
abbreviation RtCNAME :: record_type where "RtCNAME \<equiv> 5"
abbreviation RtSOA :: record_type where "RtSOA \<equiv> 6"
abbreviation RtPTR :: record_type where "RtPTR \<equiv> 12"
abbreviation RtMX :: record_type where "RtMX \<equiv> 15"
abbreviation RtTXT :: record_type where "RtTXT \<equiv> 16"
abbreviation RtAAAA :: record_type where "RtAAAA \<equiv> 28"
abbreviation RtSRV :: record_type where "RtSRV \<equiv> 33"
abbreviation RtOPT :: record_type where "RtOPT \<equiv> 41"
abbreviation RtSVCB :: record_type where "RtSVCB \<equiv> 64"
abbreviation RtHTTPS :: record_type where "RtHTTPS \<equiv> 65"
abbreviation RtANY :: record_type where "RtANY \<equiv> 255"

abbreviation ClassIN :: dns_class where "ClassIN \<equiv> 1"

abbreviation NoError :: rcode where "NoError \<equiv> 0"
abbreviation FormErr :: rcode where "FormErr \<equiv> 1"
abbreviation ServFail :: rcode where "ServFail \<equiv> 2"
abbreviation NXDomain :: rcode where "NXDomain \<equiv> 3"
abbreviation NotImp :: rcode where "NotImp \<equiv> 4"
abbreviation Refused :: rcode where "Refused \<equiv> 5"

abbreviation OpQuery :: opcode where "OpQuery \<equiv> 0"

abbreviation SubnetCode :: edns_code where "SubnetCode \<equiv> 8"

section \<open>Messages\<close>

datatype message_type = MtQuery | MtResponse

datatype 'n rdata = RdA ipv4 | RdAAAA ipv6 | RdCNAME 'n | RdOther record_type "u8 list"

fun rdata_type :: "'n rdata \<Rightarrow> record_type" where
  "rdata_type (RdA _) = RtA"
| "rdata_type (RdAAAA _) = RtAAAA"
| "rdata_type (RdCNAME _) = RtCNAME"
| "rdata_type (RdOther t _) = t"

record 'n query =
  q_name :: 'n
  q_type :: record_type
  q_class :: dns_class

record 'n rr =
  rr_name :: 'n
  rr_class :: dns_class
  rr_ttl :: u32
  rr_data :: "'n rdata"

abbreviation rr_type :: "'n rr \<Rightarrow> record_type" where
  "rr_type r \<equiv> rdata_type (rr_data r)"

record client_subnet =
  cs_addr :: ip
  cs_source :: u8
  cs_scope :: u8

datatype edns_option = OptSubnet client_subnet | OptUnknown edns_code "u8 list"

record edns =
  ed_version :: u8
  ed_do :: bool
  ed_max_payload :: u16
  ed_options :: "(edns_code \<times> edns_option) list"

record 'n message =
  m_id :: u16
  m_type :: message_type
  m_opcode :: opcode
  m_aa :: bool
  m_tc :: bool
  m_rd :: bool
  m_ra :: bool
  m_ad :: bool
  m_cd :: bool
  m_rcode :: rcode
  m_queries :: "'n query list"
  m_answers :: "'n rr list"
  m_name_servers :: "'n rr list"
  m_additionals :: "'n rr list"
  m_edns :: "edns option"

definition message_new :: "'n message" where
  "message_new = \<lparr>m_id = 0, m_type = MtQuery, m_opcode = OpQuery, m_aa = False, m_tc = False,
     m_rd = False, m_ra = False, m_ad = False, m_cd = False, m_rcode = NoError,
     m_queries = [], m_answers = [], m_name_servers = [], m_additionals = [], m_edns = None\<rparr>"

definition edns_new :: edns where
  "edns_new = \<lparr>ed_version = 0, ed_do = False, ed_max_payload = 512, ed_options = []\<rparr>"

section \<open>YAML values and networks\<close>

datatype ynum = YPos u64 | YNeg int | YFloat

datatype yaml =
    YNull
  | YBool bool
  | YNum ynum
  | YStr string
  | YSeq "yaml list"
  | YMap "(yaml \<times> yaml) list"

fun y_as_str :: "yaml \<Rightarrow> string option" where
  "y_as_str (YStr s) = Some s"
| "y_as_str _ = None"

fun y_as_bool :: "yaml \<Rightarrow> bool option" where
  "y_as_bool (YBool b) = Some b"
| "y_as_bool _ = None"

fun y_as_u64 :: "yaml \<Rightarrow> u64 option" where
  "y_as_u64 (YNum (YPos n)) = Some n"
| "y_as_u64 _ = None"

fun y_as_seq :: "yaml \<Rightarrow> yaml list option" where
  "y_as_seq (YSeq vs) = Some vs"
| "y_as_seq _ = None"

fun y_as_map :: "yaml \<Rightarrow> (yaml \<times> yaml) list option" where
  "y_as_map (YMap m) = Some m"
| "y_as_map _ = None"

fun y_get :: "string \<Rightarrow> yaml \<Rightarrow> yaml option" where
  "y_get k (YMap m) = map_of m (YStr k)"
| "y_get k _ = None"

type_synonym ipnet = "ip \<times> u8"

section \<open>Foreign operations\<close>

record 'n lib =
  \<comment> \<open>\<open>hickory_proto::rr::Name\<close>\<close>
  nm_eq :: "'n \<Rightarrow> 'n \<Rightarrow> bool"
  nm_ascii :: "'n \<Rightarrow> string"
  nm_display :: "'n \<Rightarrow> string"
  nm_from_ascii :: "string \<Rightarrow> 'n option"
  nm_from_str :: "string \<Rightarrow> 'n option"
  nm_set_fqdn :: "'n \<Rightarrow> 'n"
  \<comment> \<open>\<open>Message::from_vec\<close>, \<open>to_vec\<close>, \<open>truncate\<close>\<close>
  wire_decode :: "u8 list \<Rightarrow> 'n message option"
  wire_encode :: "'n message \<Rightarrow> u8 list option"
  wire_truncate :: "'n message \<Rightarrow> 'n message"
  \<comment> \<open>\<open>RecordType::from_str\<close>, \<open>Debug\<close> of types and classes, \<open>Display\<close> of response codes\<close>
  rt_from_str :: "string \<Rightarrow> record_type option"
  rt_debug :: "record_type \<Rightarrow> string"
  class_debug :: "dns_class \<Rightarrow> string"
  rcode_display :: "rcode \<Rightarrow> string"
  \<comment> \<open>\<open>ipnet::IpNet\<close>\<close>
  net_new :: "ip \<Rightarrow> u8 \<Rightarrow> ipnet option"
  net_network :: "ipnet \<Rightarrow> ip"
  net_contains :: "ipnet \<Rightarrow> ip \<Rightarrow> bool"
  net_from_str :: "string \<Rightarrow> ipnet option"
  net_from_ip :: "ip \<Rightarrow> ipnet"
  \<comment> \<open>\<open>regex::Regex\<close>, represented by its pattern\<close>
  re_valid :: "string \<Rightarrow> bool"
  re_match :: "string \<Rightarrow> string \<Rightarrow> bool"

definition query_eq :: "'n lib \<Rightarrow> 'n query \<Rightarrow> 'n query \<Rightarrow> bool" where
  \<comment> \<open>derived \<open>PartialEq\<close>: names with their own equality, then type and class\<close>
  "query_eq L a b =
     (nm_eq L (q_name a) (q_name b) \<and> q_type a = q_type b \<and> q_class a = q_class b)"

definition queries_eq :: "'n lib \<Rightarrow> 'n query list \<Rightarrow> 'n query list \<Rightarrow> bool" where
  "queries_eq L = list_all2 (query_eq L)"

section \<open>A concrete instance for witnesses\<close>

text \<open>
  One instance of the foreign operations, used only to show that hypotheses about them can hold:
  a name is its own text, compared without case, and a wire form is not needed.
\<close>

definition mask_ip :: "ip \<Rightarrow> u8 \<Rightarrow> ip" where
  "mask_ip a p = (case a of
     V4 w \<Rightarrow> V4 (w AND NOT (mask (32 - unat p)))
   | V6 w \<Rightarrow> V6 (w AND NOT (mask (128 - unat p))))"

definition demo_lib :: "string lib" where
  "demo_lib = \<lparr>
     nm_eq = (\<lambda>a b. to_ascii_lowercase a = to_ascii_lowercase b),
     nm_ascii = (\<lambda>a. a), nm_display = (\<lambda>a. a),
     nm_from_ascii = Some, nm_from_str = Some,
     nm_set_fqdn = (\<lambda>a. trim_end_matches (CHR ''.'') a @ ''.''),
     wire_decode = (\<lambda>b. if b = [1] then Some message_new else None),
     wire_encode = (\<lambda>m. if m = message_new then Some [1] else None),
     wire_truncate = (\<lambda>m. m\<lparr>m_tc := True, m_answers := []\<rparr>),
     rt_from_str = (\<lambda>s. None), rt_debug = (\<lambda>t. show_word t), class_debug = (\<lambda>c. show_word c),
     rcode_display = (\<lambda>c. show_word c),
     net_new = (\<lambda>a p. if unat p \<le> (if is_ipv4 a then 32 else 128) then Some (a, p) else None),
     net_network = (\<lambda>(a, p). mask_ip a p),
     net_contains = (\<lambda>(n, p) a. is_ipv4 n = is_ipv4 a \<and> mask_ip a p = mask_ip n p),
     net_from_str = (\<lambda>s. case split_once (CHR ''/'') s of None \<Rightarrow> None | Some (a, p) \<Rightarrow>
        Option.bind (parse_ipaddr a) (\<lambda>i. map_option (\<lambda>n. (i, n)) (parse_word p))),
     net_from_ip = (\<lambda>a. (a, if is_ipv4 a then 32 else 128)),
     re_valid = (\<lambda>r. True), re_match = (\<lambda>r s. r = s)\<rparr>"

end
