(* ===== verification/Dnsutil.thy ===== *)
theory Dnsutil
  imports Dns
begin

text \<open>
  \<^verbatim>\<open>src/dnsutil.rs\<close>: classification of what arrives on a listener, validation of upstream
  responses, reply construction, the arithmetic on record TTLs, EDNS payload sizes and the EDNS
  Client Subnet option. (\<open>parse_ecs_spec\<close> is in the theory of the \<open>ecs\<close> plugin, which defines
  the masking it calls.)
\<close>

section \<open>Wire format\<close>

definition dns_decode :: "'n lib \<Rightarrow> u8 list \<Rightarrow> 'n message res" where
  "dns_decode L buf = ok_or (ProtocolErr []) (wire_decode L buf)"

definition dns_encode :: "'n lib \<Rightarrow> 'n message \<Rightarrow> u8 list res" where
  "dns_encode L m = ok_or (ProtocolErr []) (wire_encode L m)"

section \<open>Classification and validation\<close>

datatype incoming = Drop | ReplyNotImp | Process

definition classify_incoming :: "'n message \<Rightarrow> incoming" where
  "classify_incoming m =
     (if m_type m \<noteq> MtQuery then Drop
      else if m_opcode m \<noteq> OpQuery then ReplyNotImp
      else Process)"

definition take_response :: "'n lib \<Rightarrow> 'n message \<Rightarrow> 'n message \<Rightarrow> 'n message res" where
  "take_response L q r =
     (if m_type r \<noteq> MtResponse then Inl (ProtocolErr ''upstream sent a query'')
      else if m_id r \<noteq> m_id q then Inl (ProtocolErr ''id mismatch'')
      else if m_opcode r \<noteq> m_opcode q then Inl (ProtocolErr ''opcode mismatch'')
      else if \<not> queries_eq L (m_queries r) (m_queries q)
      then Inl (ProtocolErr ''question mismatch'')
      else Inr r)"

definition is_usable_response :: "'n message \<Rightarrow> bool" where
  "is_usable_response m \<longleftrightarrow>
     m_type m = MtResponse \<and> \<not> m_tc m
       \<and> m_rcode m \<notin> {ServFail, FormErr, NotImp, Refused}"

lemma take_response_Inr_iff:
  "take_response L q r = Inr r' \<longleftrightarrow>
     r' = r \<and> m_type r = MtResponse \<and> m_id r = m_id q \<and> m_opcode r = m_opcode q
       \<and> queries_eq L (m_queries r) (m_queries q)"
  by (auto simp: take_response_def)

section \<open>Sizes on the wire\<close>

definition udp_payload_max :: "'n message \<Rightarrow> nat" where
  "udp_payload_max q =
     min (case map_option (\<lambda>e. unat (ed_max_payload e)) (m_edns q) of
            None \<Rightarrow> 512
          | Some n \<Rightarrow> if 512 \<le> n then n else 512) 4096"

definition encode_udp :: "'n lib \<Rightarrow> 'n message \<Rightarrow> nat \<Rightarrow> u8 list res" where
  "encode_udp L m max_len =
     res_bind (dns_encode L m) (\<lambda>bytes.
       if length bytes \<le> max_len then Inr bytes else dns_encode L (wire_truncate L m))"

lemma udp_payload_max_bounds: "512 \<le> udp_payload_max q \<and> udp_payload_max q \<le> 4096"
  by (auto simp: udp_payload_max_def split: option.splits)

section \<open>Replies\<close>

definition reply_skeleton :: "'n message \<Rightarrow> rcode \<Rightarrow> 'n message" where
  "reply_skeleton q rc = message_new\<lparr>
     m_id := m_id q, m_type := MtResponse, m_opcode := m_opcode q, m_rd := m_rd q,
     m_ra := True, m_rcode := rc, m_queries := m_queries q, m_edns := m_edns q\<rparr>"

section \<open>TTLs\<close>

definition min_ttl :: "'n message \<Rightarrow> u32" where
  "min_ttl m = (case map rr_ttl (m_answers m @ m_name_servers m) of
     [] \<Rightarrow> 0 | t # ts \<Rightarrow> fold min ts t)"

definition age_rr :: "u32 \<Rightarrow> 'n rr \<Rightarrow> 'n rr" where
  \<comment> \<open>the body of \<open>bump\<close>\<close>
  "age_rr elapsed r =
     (if rr_type r = RtOPT then r else r\<lparr>rr_ttl := saturating_sub (rr_ttl r) elapsed\<rparr>)"

definition subtract_ttl :: "u32 \<Rightarrow> 'n message \<Rightarrow> 'n message" where
  "subtract_ttl elapsed m = m\<lparr>
     m_answers := map (age_rr elapsed) (m_answers m),
     m_name_servers := map (age_rr elapsed) (m_name_servers m),
     m_additionals := map (age_rr elapsed) (m_additionals m)\<rparr>"

definition set_all_ttl :: "u32 \<Rightarrow> 'n message \<Rightarrow> 'n message" where
  "set_all_ttl t m = m\<lparr>
     m_answers := map (\<lambda>r. r\<lparr>rr_ttl := t\<rparr>) (m_answers m),
     m_name_servers := map (\<lambda>r. r\<lparr>rr_ttl := t\<rparr>) (m_name_servers m)\<rparr>"

lemma fold_min_le:
  "fold min ts t \<le> (t :: 'a :: linorder)" "u \<in> set ts \<Longrightarrow> fold min ts t \<le> u"
  by (induction ts arbitrary: t) (fastforce intro: order_trans)+

lemma min_ttl_le:
  "r \<in> set (m_answers m) \<union> set (m_name_servers m) \<Longrightarrow> min_ttl m \<le> rr_ttl r"
proof -
  assume "r \<in> set (m_answers m) \<union> set (m_name_servers m)"
  then have t: "rr_ttl r \<in> set (map rr_ttl (m_answers m @ m_name_servers m))"
    by auto
  show ?thesis
  proof (cases "map rr_ttl (m_answers m @ m_name_servers m)")
    case Nil
    with t show ?thesis by simp
  next
    case (Cons u us)
    from t have "rr_ttl r \<in> set (u # us)" by (simp only: Cons)
    then have "fold min us u \<le> rr_ttl r" by (auto intro: fold_min_le)
    moreover have "min_ttl m = fold min us u" by (simp only: min_ttl_def Cons list.case)
    ultimately show ?thesis by simp
  qed
qed

lemma min_ttl_pos_nonempty:
  "min_ttl m \<noteq> 0 \<Longrightarrow> m_answers m @ m_name_servers m \<noteq> []"
  by (auto simp: min_ttl_def)

lemma age_rr_unat:
  "rr_type r \<noteq> RtOPT \<Longrightarrow> unat (rr_ttl (age_rr e r)) = unat (rr_ttl r) - unat e"
  by (simp add: age_rr_def unat_saturating_sub)

lemma age_rr_type [simp]: "rdata_type (rr_data (age_rr e r)) = rr_type r"
  by (simp add: age_rr_def)

section \<open>Records\<close>

definition record_a :: "'n \<Rightarrow> u32 \<Rightarrow> ipv4 \<Rightarrow> 'n rr" where
  "record_a n ttl a = \<lparr>rr_name = n, rr_class = ClassIN, rr_ttl = ttl, rr_data = RdA a\<rparr>"

definition record_aaaa :: "'n \<Rightarrow> u32 \<Rightarrow> ipv6 \<Rightarrow> 'n rr" where
  "record_aaaa n ttl a = \<lparr>rr_name = n, rr_class = ClassIN, rr_ttl = ttl, rr_data = RdAAAA a\<rparr>"

definition record_cname :: "'n \<Rightarrow> u32 \<Rightarrow> 'n \<Rightarrow> 'n rr" where
  "record_cname n ttl target =
     \<lparr>rr_name = n, rr_class = ClassIN, rr_ttl = ttl, rr_data = RdCNAME target\<rparr>"

section \<open>Names of types and codes\<close>

definition qtype_from_str :: "'n lib \<Rightarrow> string \<Rightarrow> record_type option" where
  "qtype_from_str L s =
     (let u = to_ascii_uppercase s in
      if u = ''A'' then Some RtA
      else if u = ''AAAA'' then Some RtAAAA
      else if u = ''CNAME'' then Some RtCNAME
      else if u = ''MX'' then Some RtMX
      else if u = ''NS'' then Some RtNS
      else if u = ''PTR'' then Some RtPTR
      else if u = ''SOA'' then Some RtSOA
      else if u = ''SRV'' then Some RtSRV
      else if u = ''TXT'' then Some RtTXT
      else if u = ''HTTPS'' then Some RtHTTPS
      else if u = ''SVCB'' then Some RtSVCB
      else if u = ''ANY'' \<or> u = ''*'' then Some RtANY
      else rt_from_str L u)"

definition rcode_from_str :: "string \<Rightarrow> rcode" where
  "rcode_from_str s =
     (let u = to_ascii_uppercase s in
      if u = ''NOERROR'' \<or> u = ''0'' then NoError
      else if u = ''FORMERR'' \<or> u = ''1'' then FormErr
      else if u = ''SERVFAIL'' \<or> u = ''2'' then ServFail
      else if u = ''NXDOMAIN'' \<or> u = ''3'' then NXDomain
      else if u = ''NOTIMP'' \<or> u = ''4'' then NotImp
      else if u = ''REFUSED'' \<or> u = ''5'' then Refused
      else (case parse_word u of Some v \<Rightarrow> v | None \<Rightarrow> Refused))"

definition name_ascii :: "'n lib \<Rightarrow> 'n \<Rightarrow> string" where
  "name_ascii L n = nm_ascii L n"

section \<open>EDNS Client Subnet\<close>

definition opt_get :: "edns_code \<Rightarrow> edns \<Rightarrow> edns_option option" where
  "opt_get c e = map_of (ed_options e) c"

definition opt_remove :: "edns_code \<Rightarrow> edns \<Rightarrow> edns" where
  "opt_remove c e = e\<lparr>ed_options := filter (\<lambda>(k, _). k \<noteq> c) (ed_options e)\<rparr>"

definition opt_insert :: "edns_code \<Rightarrow> edns_option \<Rightarrow> edns \<Rightarrow> edns" where
  "opt_insert c v e = e\<lparr>ed_options := ed_options e @ [(c, v)]\<rparr>"

definition ecs_of :: "'n message \<Rightarrow> client_subnet option" where
  "ecs_of m =
     (case m_edns m of None \<Rightarrow> None
      | Some e \<Rightarrow> (case opt_get SubnetCode e of
          Some (OptSubnet cs) \<Rightarrow> Some cs | _ \<Rightarrow> None))"

definition set_ecs :: "client_subnet \<Rightarrow> 'n message \<Rightarrow> 'n message" where
  "set_ecs cs m =
     (let e = (case m_edns m of Some e \<Rightarrow> e | None \<Rightarrow> edns_new\<lparr>ed_max_payload := 1232\<rparr>)
      in m\<lparr>m_edns := Some (opt_insert SubnetCode (OptSubnet cs) (opt_remove SubnetCode e))\<rparr>)"

definition remove_ecs :: "'n message \<Rightarrow> 'n message" where
  "remove_ecs m = m\<lparr>m_edns := map_option (opt_remove SubnetCode) (m_edns m)\<rparr>"

definition ecs_label :: "client_subnet option \<Rightarrow> string" where
  "ecs_label x = (case x of
     Some cs \<Rightarrow> show_ip (cs_addr cs) @ ''/'' @ show_word (cs_source cs) | None \<Rightarrow> ''-'')"

definition ecs_cache_key :: "'n message \<Rightarrow> string" where
  "ecs_cache_key m = (case ecs_of m of
     Some cs \<Rightarrow> ''ecs='' @ show_ip (cs_addr cs) @ ''/'' @ show_word (cs_source cs)
   | None \<Rightarrow> ''ecs=-'')"

lemma map_of_filter_key: "map_of (filter (\<lambda>(k, _). k \<noteq> c) xs) c = None"
  by (induction xs) auto

lemma ecs_of_remove_ecs [simp]: "ecs_of (remove_ecs m) = None"
  by (simp add: ecs_of_def remove_ecs_def opt_get_def opt_remove_def map_of_filter_key
      split: option.splits)

lemma ecs_of_set_ecs [simp]: "ecs_of (set_ecs cs m) = Some cs"
  by (simp add: ecs_of_def set_ecs_def Let_def opt_get_def opt_insert_def opt_remove_def
      map_add_def map_of_append map_of_filter_key)

lemma message_edns_only [simp]:
  "m_id (set_ecs cs m) = m_id m" "m_id (remove_ecs m) = m_id m"
  "m_queries (set_ecs cs m) = m_queries m" "m_queries (remove_ecs m) = m_queries m"
  "m_type (set_ecs cs m) = m_type m" "m_type (remove_ecs m) = m_type m"
  "m_opcode (set_ecs cs m) = m_opcode m" "m_opcode (remove_ecs m) = m_opcode m"
  "m_rcode (remove_ecs m) = m_rcode m" "m_answers (remove_ecs m) = m_answers m"
  "m_rd (remove_ecs m) = m_rd m" "m_cd (remove_ecs m) = m_cd m"
  by (simp_all add: set_ecs_def remove_ecs_def Let_def)

end
