(* ===== verification/Query_Context.thy ===== *)
theory Query_Context
  imports Dnsutil
begin

text \<open>
  \<^verbatim>\<open>src/context.rs\<close>: the context one request carries through the pipeline, every operation on
  it, and what they guarantee: the reply is bound to the client's question, and the names the
  pipeline rewrote form an alias chain from the client's name that the reply contains.

  An \<open>Instant\<close> is a number of nanoseconds. The atomic counter behind \<open>next_id\<close> and the clock
  are arguments, and a new context takes the identifier it was given.
\<close>

type_synonym instant = nat

abbreviation nanos :: "nat \<Rightarrow> nat" where
  "nanos secs \<equiv> secs * 1000000000"

section \<open>State\<close>

datatype client_proto = PUdp | PTcp | PTls | PHttps

fun proto_as_str :: "client_proto \<Rightarrow> string" where
  "proto_as_str PUdp = ''udp''"
| "proto_as_str PTcp = ''tcp''"
| "proto_as_str PTls = ''tls''"
| "proto_as_str PHttps = ''https''"

record trace_event =
  t_plugin :: string
  t_event :: string
  t_detail :: string
  t_elapsed_us :: u64

record 'n entry_state =
  es_query :: "'n message"
  es_marks :: "u32 set"
  es_strip :: bool

record 'n ctx =
  c_id :: u64
  c_start :: instant
  c_client :: "ip option"
  c_proto :: client_proto
  c_query :: "'n message"
  c_original :: "'n message"
  c_response :: "'n message option"
  c_marks :: "u32 set"
  c_rewrites :: "('n \<times> 'n) list"
  c_entry_state :: "'n entry_state option"
  c_trace :: "trace_event list"
  c_trace_enabled :: bool
  c_skip_cache :: bool
  c_strip :: bool
  c_from_cache :: bool
  c_pipeline_entry :: "string option"

definition next_id :: "u64 \<Rightarrow> u64 \<times> u64" where
  \<comment> \<open>\<open>fetch_add(1)\<close>: the value handed out and the counter afterwards\<close>
  "next_id n = (n, n + 1)"

definition ctx_new :: "u64 \<Rightarrow> instant \<Rightarrow> 'n message \<Rightarrow> ip option \<Rightarrow> client_proto \<Rightarrow> 'n ctx" where
  "ctx_new i now q client proto = \<lparr>
     c_id = i, c_start = now, c_client = client, c_proto = proto, c_query = q, c_original = q,
     c_response = None, c_marks = {}, c_rewrites = [], c_entry_state = None, c_trace = [],
     c_trace_enabled = False, c_skip_cache = False, c_strip = False, c_from_cache = False,
     c_pipeline_entry = None\<rparr>"

section \<open>Responses and the pipeline entry\<close>

definition set_response :: "'n message \<Rightarrow> 'n ctx \<Rightarrow> 'n ctx" where
  "set_response m c = c\<lparr>
     c_response := Some (m\<lparr>m_id := m_id (c_query c), m_type := MtResponse\<rparr>),
     c_from_cache := False\<rparr>"

definition drop_response :: "'n ctx \<Rightarrow> 'n ctx" where
  "drop_response c = c\<lparr>c_response := None, c_from_cache := False\<rparr>"

definition begin_pipeline :: "string \<Rightarrow> 'n ctx \<Rightarrow> 'n ctx" where
  "begin_pipeline entry c =
     (if c_entry_state c = None
      then c\<lparr>c_entry_state := Some \<lparr>es_query = c_query c, es_marks = c_marks c,
               es_strip = c_strip c\<rparr>,
             c_pipeline_entry := Some entry\<rparr>
      else c)"

definition make_response :: "rcode \<Rightarrow> 'n ctx \<Rightarrow> 'n message" where
  "make_response rc c = reply_skeleton (c_query c) rc"

definition reject :: "rcode \<Rightarrow> 'n ctx \<Rightarrow> 'n ctx" where
  "reject rc c = set_response (make_response rc c) c"

definition has_resp :: "'n ctx \<Rightarrow> bool" where
  "has_resp c \<longleftrightarrow> c_response c \<noteq> None"

section \<open>Rewriting the question\<close>

definition rewrite_name :: "'n lib \<Rightarrow> 'n \<Rightarrow> 'n ctx \<Rightarrow> 'n ctx" where
  "rewrite_name L name c =
     (let name' = nm_set_fqdn L name in
      case m_queries (c_query c) of
        [] \<Rightarrow> c
      | q # qs \<Rightarrow>
          (if \<not> nm_eq L (q_name q) name'
           then c\<lparr>c_rewrites := c_rewrites c @ [(q_name q, name')],
                  c_query := (c_query c)\<lparr>m_queries := q\<lparr>q_name := name'\<rparr> # qs\<rparr>\<rparr>
           else c))"

definition rewrite_count :: "'n ctx \<Rightarrow> nat" where
  "rewrite_count c = length (c_rewrites c)"

section \<open>Binding a reply to a question\<close>

definition rebind_edns :: "edns option \<Rightarrow> edns option \<Rightarrow> edns option" where
  "rebind_edns re qe =
     (case (re, qe) of
        (_, None) \<Rightarrow> None
      | (Some r, Some q) \<Rightarrow> Some (r\<lparr>ed_max_payload := ed_max_payload q, ed_do := ed_do q\<rparr>)
      | (None, Some _) \<Rightarrow> None)"

definition rebind_response :: "'n message \<Rightarrow> 'n message \<Rightarrow> 'n message" where
  "rebind_response r q = r\<lparr>
     m_id := m_id q, m_type := MtResponse, m_opcode := m_opcode q, m_rd := m_rd q,
     m_cd := m_cd q, m_queries := m_queries q, m_edns := rebind_edns (m_edns r) (m_edns q)\<rparr>"

definition alias_present :: "'n lib \<Rightarrow> 'n rr list \<Rightarrow> 'n \<times> 'n \<Rightarrow> bool" where
  "alias_present L rs p =
     list_ex (\<lambda>r. nm_eq L (rr_name r) (fst p) \<and>
       (case rr_data r of RdCNAME t \<Rightarrow> nm_eq L t (snd p) | _ \<Rightarrow> False)) rs"

definition alias_record :: "'n message \<Rightarrow> u32 \<Rightarrow> 'n \<times> 'n \<Rightarrow> 'n rr" where
  "alias_record q ttl p =
     (let r = record_cname (fst p) ttl (snd p) in
      case m_queries q of [] \<Rightarrow> r | x # _ \<Rightarrow> r\<lparr>rr_class := q_class x\<rparr>)"

definition response_for_query :: "'n lib \<Rightarrow> 'n message \<Rightarrow> nat \<Rightarrow> 'n ctx \<Rightarrow> 'n message option" where
  "response_for_query L q rewrite_start c =
     (case c_response c of
        None \<Rightarrow> None
      | Some r0 \<Rightarrow>
          (let r = rebind_response r0 q;
               aliases = drop (min rewrite_start (length (c_rewrites c))) (c_rewrites c) in
           if aliases \<noteq> [] \<and> m_rcode r \<in> {NoError, NXDomain}
           then Some (r\<lparr>
             m_answers := map (alias_record q (min_ttl r))
                 (filter (\<lambda>p. \<not> alias_present L (m_answers r) p) aliases) @ m_answers r,
             m_ad := False\<rparr>)
           else Some r))"

definition finalize_response :: "'n lib \<Rightarrow> 'n ctx \<Rightarrow> 'n ctx" where
  "finalize_response L c = c\<lparr>c_response := response_for_query L (c_original c) 0 c\<rparr>"

section \<open>Reading the question\<close>

definition ctx_qname :: "'n ctx \<Rightarrow> 'n option" where
  "ctx_qname c = (case m_queries (c_query c) of [] \<Rightarrow> None | q # _ \<Rightarrow> Some (q_name q))"

definition qname_str :: "'n lib \<Rightarrow> 'n ctx \<Rightarrow> string" where
  "qname_str L c = (case ctx_qname c of None \<Rightarrow> ''.'' | Some n \<Rightarrow> nm_ascii L n)"

definition ctx_qtype :: "'n ctx \<Rightarrow> record_type" where
  "ctx_qtype c = (case m_queries (c_query c) of [] \<Rightarrow> RtA | q # _ \<Rightarrow> q_type q)"

section \<open>Marks and trace\<close>

definition add_mark :: "u32 \<Rightarrow> 'n ctx \<Rightarrow> 'n ctx" where
  "add_mark m c = c\<lparr>c_marks := insert m (c_marks c)\<rparr>"

definition has_mark :: "u32 \<Rightarrow> 'n ctx \<Rightarrow> bool" where
  "has_mark m c \<longleftrightarrow> m \<in> c_marks c"

definition push_trace :: "instant \<Rightarrow> string \<Rightarrow> string \<Rightarrow> string \<Rightarrow> 'n ctx \<Rightarrow> 'n ctx" where
  "push_trace now plugin event detail c =
     (if \<not> c_trace_enabled c then c
      else c\<lparr>c_trace := c_trace c @ [\<lparr>t_plugin = plugin, t_event = event, t_detail = detail,
               t_elapsed_us = of_nat ((now - c_start c) div 1000)\<rparr>]\<rparr>)"

section \<open>Copies of a context\<close>

definition clone_for_lazy :: "u64 \<Rightarrow> instant \<Rightarrow> 'n ctx \<Rightarrow> 'n ctx" where
  "clone_for_lazy i now c =
     (let n = ctx_new i now (c_original c) (c_client c) (c_proto c);
          n' = (case c_entry_state c of
                  None \<Rightarrow> n
                | Some s \<Rightarrow> n\<lparr>c_query := es_query s, c_marks := es_marks s, c_strip := es_strip s\<rparr>)
      in n'\<lparr>c_entry_state := c_entry_state c, c_pipeline_entry := c_pipeline_entry c,
            c_skip_cache := True\<rparr>)"

definition fork :: "u64 \<Rightarrow> instant \<Rightarrow> 'n ctx \<Rightarrow> 'n ctx" where
  "fork i now c = c\<lparr>c_id := i, c_start := now, c_response := None, c_trace := [],
     c_from_cache := False\<rparr>"

definition absorb :: "'n ctx \<Rightarrow> 'n ctx \<Rightarrow> 'n ctx" where
  "absorb c other = c\<lparr>
     c_query := c_query other, c_response := c_response other, c_marks := c_marks other,
     c_rewrites := c_rewrites other, c_strip := c_strip other,
     c_skip_cache := c_skip_cache other, c_from_cache := c_from_cache other,
     c_trace := (if c_trace_enabled c then c_trace c @ c_trace other else c_trace c)\<rparr>"

section \<open>Reading and editing the response\<close>

fun rdata_ip :: "'n rdata \<Rightarrow> ip option" where
  "rdata_ip (RdA a) = Some (V4 a)"
| "rdata_ip (RdAAAA a) = Some (V6 a)"
| "rdata_ip _ = None"

definition answer_ips :: "'n ctx \<Rightarrow> ip list" where
  "answer_ips c = (case c_response c of None \<Rightarrow> []
     | Some r \<Rightarrow> List.map_filter (\<lambda>x. rdata_ip (rr_data x)) (m_answers r))"

definition has_wanted_ans :: "'n ctx \<Rightarrow> bool" where
  "has_wanted_ans c = (case c_response c of None \<Rightarrow> False
     | Some r \<Rightarrow> m_rcode r = NoError \<and> list_ex (\<lambda>x. rr_type x = ctx_qtype c) (m_answers r))"

definition clamp_rr :: "u32 \<Rightarrow> u32 \<Rightarrow> 'n rr \<Rightarrow> 'n rr res" where
  "clamp_rr lo hi r = (case rust_clamp lo hi (rr_ttl r) of
     None \<Rightarrow> Inl (Panicked ''clamp'') | Some t \<Rightarrow> Inr (r\<lparr>rr_ttl := t\<rparr>))"

definition apply_ttl_clamp :: "u32 \<Rightarrow> u32 \<Rightarrow> 'n ctx \<Rightarrow> 'n ctx res" where
  "apply_ttl_clamp lo hi c =
     (case c_response c of None \<Rightarrow> Inr c
      | Some r \<Rightarrow>
          res_bind (res_map (clamp_rr lo hi) (m_answers r)) (\<lambda>an.
          res_bind (res_map (clamp_rr lo hi) (m_name_servers r)) (\<lambda>ns.
          Inr (c\<lparr>c_response := Some (r\<lparr>m_answers := an, m_name_servers := ns\<rparr>)\<rparr>))))"

definition filter_answers :: "(record_type \<Rightarrow> bool) \<Rightarrow> 'n ctx \<Rightarrow> 'n ctx" where
  "filter_answers keep c = (case c_response c of None \<Rightarrow> c
     | Some r \<Rightarrow> c\<lparr>c_response :=
         Some (r\<lparr>m_answers := filter (\<lambda>x. keep (rr_type x)) (m_answers r)\<rparr>)\<rparr>)"

definition prefer_ipv4 :: "'n ctx \<Rightarrow> 'n ctx" where
  "prefer_ipv4 = filter_answers (\<lambda>t. t \<noteq> RtAAAA)"

definition prefer_ipv6 :: "'n ctx \<Rightarrow> 'n ctx" where
  "prefer_ipv6 = filter_answers (\<lambda>t. t \<noteq> RtA)"

section \<open>Messages built for others\<close>

definition build_hosts_response :: "'n message \<Rightarrow> 'n rr list \<Rightarrow> 'n message" where
  "build_hosts_response q rs = (reply_skeleton q NoError)\<lparr>m_aa := True, m_answers := rs\<rparr>"

definition build_query :: "'n lib \<Rightarrow> u16 \<Rightarrow> string \<Rightarrow> record_type \<Rightarrow> 'n message res" where
  \<comment> \<open>the first argument after the library is the random transaction identifier\<close>
  "build_query L i name qt =
     res_bind (ok_or (OtherErr []) (nm_from_ascii L name)) (\<lambda>n.
       Inr (message_new\<lparr>m_id := i, m_type := MtQuery, m_opcode := OpQuery, m_rd := True,
         m_queries := [\<lparr>q_name = n, q_type = qt, q_class = ClassIN\<rparr>]\<rparr>))"

section \<open>What every pipeline step keeps\<close>

text \<open>
  \<open>alias_path a rs b\<close>: the rewrites lead from \<open>a\<close> to \<open>b\<close> without a gap.
  \<open>ctx_ok\<close> is the invariant of a context inside a pipeline: the current question is the client's
  one up to its name, the rewrites lead from the client's name to the current one, a response
  carries the identifier of the query, and a query
  that differs from the client's in having a subnet is marked for removal.
  \<open>evolves c c'\<close> is what any operation of the pipeline may do to a context.
\<close>

fun alias_path :: "'n \<Rightarrow> ('n \<times> 'n) list \<Rightarrow> 'n \<Rightarrow> bool" where
  "alias_path a [] b \<longleftrightarrow> a = b"
| "alias_path a ((f, t) # rs) b \<longleftrightarrow> f = a \<and> alias_path t rs b"

definition questions_ok :: "'n query list \<Rightarrow> 'n query list \<Rightarrow> ('n \<times> 'n) list \<Rightarrow> bool" where
  "questions_ok os qs rs \<longleftrightarrow>
     (case (os, qs) of
        ([], []) \<Rightarrow> rs = []
      | (q # t, q' # t') \<Rightarrow>
          t' = t \<and> q_type q' = q_type q \<and> q_class q' = q_class q
            \<and> alias_path (q_name q) rs (q_name q')
      | _ \<Rightarrow> False)"

definition same_header :: "'n message \<Rightarrow> 'n message \<Rightarrow> bool" where
  "same_header a b \<longleftrightarrow>
     a\<lparr>m_queries := [], m_edns := None\<rparr> = b\<lparr>m_queries := [], m_edns := None\<rparr>"

definition response_ok :: "'n message \<Rightarrow> 'n message option \<Rightarrow> bool" where
  "response_ok q x \<longleftrightarrow>
     (case x of None \<Rightarrow> True | Some r \<Rightarrow> m_id r = m_id q \<and> m_type r = MtResponse)"

definition subnet_ok :: "bool \<Rightarrow> 'n message \<Rightarrow> 'n message \<Rightarrow> bool" where
  \<comment> \<open>a subnet is on the query exactly when the client sent one, or the reply is marked\<close>
  "subnet_ok strip q orig \<longleftrightarrow> strip \<or> (ecs_of q = None \<longleftrightarrow> ecs_of orig = None)"

definition ctx_ok :: "'n ctx \<Rightarrow> bool" where
  "ctx_ok c \<longleftrightarrow>
     questions_ok (m_queries (c_original c)) (m_queries (c_query c)) (c_rewrites c)
       \<and> same_header (c_query c) (c_original c)
       \<and> response_ok (c_query c) (c_response c)
       \<and> subnet_ok (c_strip c) (c_query c) (c_original c)"

definition same_request :: "'n ctx \<Rightarrow> 'n ctx \<Rightarrow> bool" where
  "same_request c c' \<longleftrightarrow>
     c_id c' = c_id c \<and> c_start c' = c_start c \<and> c_client c' = c_client c
       \<and> c_proto c' = c_proto c \<and> c_original c' = c_original c
       \<and> c_entry_state c' = c_entry_state c \<and> c_trace_enabled c' = c_trace_enabled c
       \<and> c_pipeline_entry c' = c_pipeline_entry c \<and> c_skip_cache c' = c_skip_cache c"

definition subnet_marked :: "'n ctx \<Rightarrow> 'n ctx \<Rightarrow> bool" where
  \<comment> \<open>the mark for removal is never cleared, and set by whatever puts a subnet on the query or takes
      it off\<close>
  "subnet_marked c c' \<longleftrightarrow> (c_strip c \<longrightarrow> c_strip c')
     \<and> (c_strip c' \<or> (ecs_of (c_query c') = None \<longleftrightarrow> ecs_of (c_query c) = None))"

definition evolves :: "'n ctx \<Rightarrow> 'n ctx \<Rightarrow> bool" where
  "evolves c c' \<longleftrightarrow> same_request c c' \<and> subnet_marked c c' \<and> (ctx_ok c \<longrightarrow> ctx_ok c')"

lemma alias_path_snoc:
  "alias_path a rs b \<Longrightarrow> alias_path a (rs @ [(b, c)]) c"
  by (induction a rs b rule: alias_path.induct) auto

lemma same_header_fields:
  "same_header a b \<Longrightarrow> m_id a = m_id b \<and> m_type a = m_type b \<and> m_opcode a = m_opcode b
     \<and> m_rd a = m_rd b \<and> m_cd a = m_cd b \<and> m_ad a = m_ad b \<and> m_answers a = m_answers b
     \<and> m_name_servers a = m_name_servers b \<and> m_additionals a = m_additionals b"
  by (cases a, cases b) (simp add: same_header_def)

lemma evolves_refl [simp, intro]: "evolves c c"
  by (simp add: evolves_def same_request_def subnet_marked_def)

lemma evolves_trans [trans]: "evolves a b \<Longrightarrow> evolves b c \<Longrightarrow> evolves a c"
  by (auto simp: evolves_def same_request_def subnet_marked_def)

lemma evolves_original: "evolves c c' \<Longrightarrow> c_original c' = c_original c"
  by (simp add: evolves_def same_request_def)

lemma evolves_marked: "evolves c c' \<Longrightarrow> subnet_marked c c'"
  by (simp add: evolves_def)

lemmas evolves_defs = evolves_def same_request_def ctx_ok_def subnet_marked_def

lemma response_ok_simps [simp]:
  "response_ok q None"
  "response_ok q (Some r) \<longleftrightarrow> m_id r = m_id q \<and> m_type r = MtResponse"
  by (simp_all add: response_ok_def)

lemma same_header_ecs [simp]:
  "same_header (remove_ecs q) q0 \<longleftrightarrow> same_header q q0"
  "same_header (set_ecs cs q) q0 \<longleftrightarrow> same_header q q0"
  by (simp_all add: same_header_def remove_ecs_def set_ecs_def Let_def)

lemma response_ok_ecs [simp]:
  "response_ok (remove_ecs q) x \<longleftrightarrow> response_ok q x"
  "response_ok (set_ecs cs q) x \<longleftrightarrow> response_ok q x"
  "response_ok (q\<lparr>m_queries := qs\<rparr>) x \<longleftrightarrow> response_ok q x"
  by (cases x; simp)+

lemma ecs_of_queries [simp]: "ecs_of (q\<lparr>m_queries := qs\<rparr>) = ecs_of q"
  by (simp add: ecs_of_def)

named_theorems evolves_intros \<open>each context operation is a legal pipeline step\<close>

lemma evolves_set_response [evolves_intros]: "evolves c (set_response m c)"
  by (simp add: evolves_defs set_response_def)

lemma evolves_drop_response [evolves_intros]: "evolves c (drop_response c)"
  by (simp add: evolves_defs drop_response_def)

lemma evolves_reject [evolves_intros]: "evolves c (reject rc c)"
  by (simp add: reject_def evolves_set_response)

lemma evolves_add_mark [evolves_intros]: "evolves c (add_mark m c)"
  by (simp add: evolves_defs add_mark_def)

lemma evolves_push_trace [evolves_intros]: "evolves c (push_trace now p e d c)"
  by (simp add: evolves_defs push_trace_def)

lemma evolves_from_cache [evolves_intros]: "evolves c (c\<lparr>c_from_cache := b\<rparr>)"
  by (simp add: evolves_defs)

lemma evolves_filter_answers [evolves_intros]: "evolves c (filter_answers keep c)"
  by (simp add: evolves_defs filter_answers_def split: option.splits)

lemma evolves_prefer_ipv4 [evolves_intros]: "evolves c (prefer_ipv4 c)"
  by (simp add: prefer_ipv4_def evolves_filter_answers)

lemma evolves_prefer_ipv6 [evolves_intros]: "evolves c (prefer_ipv6 c)"
  by (simp add: prefer_ipv6_def evolves_filter_answers)

lemma evolves_ttl_clamp [evolves_intros]: "apply_ttl_clamp lo hi c = Inr c' \<Longrightarrow> evolves c c'"
  by (auto simp: evolves_defs apply_ttl_clamp_def split: option.splits)

lemma evolves_no_ecs [evolves_intros]:
  "evolves c (c\<lparr>c_query := remove_ecs (c_query c), c_strip := True\<rparr>)"
  by (simp add: evolves_defs subnet_ok_def)

lemma evolves_attach_ecs [evolves_intros]:
  "evolves c (c\<lparr>c_strip := True, c_query := set_ecs cs (c_query c)\<rparr>)"
  by (simp add: evolves_defs subnet_ok_def)

lemma evolves_replace_ecs [evolves_intros]:
  "ecs_of (c_query c) \<noteq> None \<Longrightarrow> evolves c (c\<lparr>c_query := set_ecs cs (c_query c)\<rparr>)"
  by (auto simp: evolves_defs subnet_ok_def)

lemma questions_ok_rewrite:
  "questions_ok os (q # qs) rs \<Longrightarrow>
     questions_ok os (q\<lparr>q_name := n\<rparr> # qs) (rs @ [(q_name q, n)])"
  by (cases os) (auto simp: questions_ok_def alias_path_snoc)

lemma evolves_rewrite_name [evolves_intros]: "evolves c (rewrite_name L name c)"
proof (cases "m_queries (c_query c)")
  case Nil
  then show ?thesis by (simp add: rewrite_name_def Let_def)
next
  case (Cons q qs)
  then show ?thesis
    by (auto simp: evolves_defs rewrite_name_def Let_def subnet_ok_def same_header_def
        questions_ok_rewrite)
qed

lemma ctx_ok_fork: "ctx_ok c \<Longrightarrow> ctx_ok (fork i now c)"
  by (simp add: fork_def ctx_ok_def)

lemma evolves_absorb:
  assumes "evolves (fork i now c) f"
  shows "evolves c (absorb c f)"
proof -
  have o: "c_original f = c_original c" "c_skip_cache f = c_skip_cache c"
    using assms by (simp_all add: evolves_def same_request_def fork_def)
  have s: "subnet_marked c (absorb c f)"
    using assms by (simp add: evolves_def fork_def absorb_def subnet_marked_def)
  have "ctx_ok (absorb c f)" if "ctx_ok c"
  proof -
    have "ctx_ok f" using assms ctx_ok_fork [OF that] by (simp add: evolves_def)
    then show ?thesis by (simp add: absorb_def ctx_ok_def o)
  qed
  with o s show ?thesis by (simp add: evolves_def same_request_def absorb_def)
qed

end
