(* ===== verification/Files.thy ===== *)
theory Files
  imports Dns
begin

text \<open>
  How plugins read their \<open>files:\<close> entries: \<open>config::resolve_path\<close> and the line loop the set
  and hosts loaders share. The file system is a parameter: a path either has a text or cannot be
  read.
\<close>

type_synonym files = "string \<Rightarrow> string option"

definition path_is_absolute :: "string \<Rightarrow> bool" where
  "path_is_absolute p = (case p of [] \<Rightarrow> False | c # _ \<Rightarrow> c = CHR ''/'')"

definition path_join :: "string \<Rightarrow> string \<Rightarrow> string" where
  \<comment> \<open>\<open>Path::join\<close> with a relative second part, on Unix\<close>
  "path_join base p = (if base \<noteq> [] \<and> last base = CHR ''/'' then base @ p else base @ ''/'' @ p)"

definition resolve_path :: "string \<Rightarrow> string \<Rightarrow> string" where
  "resolve_path base p =
     (if path_is_absolute p then p else if base = [] then p else path_join base p)"

definition read_to_string :: "files \<Rightarrow> string \<Rightarrow> string res" where
  "read_to_string fs p = ok_or (ConfigErr p) (fs p)"

definition y_strings :: "string \<Rightarrow> yaml \<Rightarrow> string list" where
  \<comment> \<open>the strings of a sequence-valued key, other entries skipped\<close>
  "y_strings k args = (case Option.bind (y_get k args) y_as_seq of
     None \<Rightarrow> [] | Some vs \<Rightarrow> List.map_filter y_as_str vs)"

definition rule_lines :: "string \<Rightarrow> string list" where
  \<comment> \<open>the lines of a rule file that are neither blank nor comments, trimmed\<close>
  "rule_lines text = filter (\<lambda>l. l \<noteq> [] \<and> hd l \<noteq> CHR ''#'') (map trim (str_lines text))"

end
