(* ===== verification/Matcher.thy ===== *)
theory Matcher
  imports Query_Context Files
begin

text \<open>
  \<^verbatim>\<open>src/matcher.rs\<close>: the domain set (a trie of reversed labels, exact names, keywords and
  regular expressions), the IP set and the matcher expressions of a sequence step. The trie is
  proved to be a set of label sequences, and a domain set built from rules to match exactly the
  names some rule covers.
\<close>

section \<open>The trie of reversed labels\<close>

datatype suffix_node = SNode (sn_children: "(string \<times> suffix_node) list") (sn_terminal: bool)

definition sn_empty :: suffix_node where
  "sn_empty = SNode [] False"

primrec insert_labels :: "string list \<Rightarrow> suffix_node \<Rightarrow> suffix_node" where
  \<comment> \<open>the loop of \<open>insert_suffix\<close>\<close>
  "insert_labels [] n = SNode (sn_children n) True"
| "insert_labels (l # ls) n =
     SNode (AList.update l
              (insert_labels ls (case map_of (sn_children n) l of Some c \<Rightarrow> c | None \<Rightarrow> sn_empty))
              (sn_children n))
           (sn_terminal n)"

primrec walk_labels :: "string list \<Rightarrow> suffix_node \<Rightarrow> bool" where
  \<comment> \<open>the loop of \<open>suffix_match\<close>\<close>
  "walk_labels [] n = sn_terminal n"
| "walk_labels (l # ls) n =
     (case map_of (sn_children n) l of
        None \<Rightarrow> False
      | Some c \<Rightarrow> if sn_terminal c then True else walk_labels ls c)"

fun count_terminals :: "suffix_node \<Rightarrow> nat" where
  "count_terminals (SNode cs t) =
     (if t then 1 else 0) + sum_list (map (\<lambda>p. count_terminals (snd p)) cs)"

definition rev_labels :: "string \<Rightarrow> string list" where
  "rev_labels d = filter (\<lambda>s. s \<noteq> []) (rev (split_char (CHR ''.'') d))"

primrec has_path :: "string list \<Rightarrow> suffix_node \<Rightarrow> bool" where
  "has_path [] n = sn_terminal n"
| "has_path (l # ls) n =
     (case map_of (sn_children n) l of None \<Rightarrow> False | Some c \<Rightarrow> has_path ls c)"

definition trie_keys :: "suffix_node \<Rightarrow> string list set" where
  "trie_keys n = {ls. has_path ls n}"

definition label_cover :: "'k list \<Rightarrow> 'k list \<Rightarrow> bool" where
  \<comment> \<open>a rule covers its own name and everything below it; the empty rule only the root\<close>
  "label_cover k ls \<longleftrightarrow> (if k = [] then ls = [] else prefix k ls)"

text \<open>The contract a domain set relies on: a set of keys with a covering test.\<close>

locale label_trie =
  fixes none :: 't
    and ins :: "'k list \<Rightarrow> 't \<Rightarrow> 't"
    and covered :: "'k list \<Rightarrow> 't \<Rightarrow> bool"
    and keys :: "'t \<Rightarrow> 'k list set"
  assumes keys_none: "keys none = {}"
    and keys_ins: "keys (ins k t) = insert k (keys t)"
    and covered_iff: "covered ls t \<longleftrightarrow> (\<exists>k \<in> keys t. label_cover k ls)"
begin

lemma covered_none: "\<not> covered ls none"
  by (simp add: covered_iff keys_none)

lemma covered_ins: "covered ls (ins k t) \<longleftrightarrow> label_cover k ls \<or> covered ls t"
  by (simp add: covered_iff keys_ins)

lemma covered_mono: "covered ls t \<Longrightarrow> covered ls (ins k t)"
  by (simp add: covered_ins)

end

lemma has_path_insert: "has_path ys (insert_labels xs n) \<longleftrightarrow> ys = xs \<or> has_path ys n"
proof (induction xs arbitrary: ys n)
  case Nil
  show ?case by (cases ys) auto
next
  case (Cons x xs)
  show ?case
  proof (cases ys)
    case Nil
    then show ?thesis by simp
  next
    case ys: (Cons y ys')
    have empty: "\<not> has_path zs sn_empty" for zs
      by (cases zs) (auto simp: sn_empty_def)
    show ?thesis
      by (cases "map_of (sn_children n) x")
         (auto simp: ys update_conv' Cons.IH empty)
  qed
qed

lemma walk_labels_iff:
  "walk_labels ls n \<longleftrightarrow> (ls = [] \<and> has_path [] n) \<or> (\<exists>p. p \<noteq> [] \<and> prefix p ls \<and> has_path p n)"
proof (induction ls arbitrary: n)
  case Nil
  show ?case by simp
next
  case (Cons l ls)
  have split: "(\<exists>p. p \<noteq> [] \<and> prefix p (l # ls) \<and> P p) \<longleftrightarrow> (\<exists>p. prefix p ls \<and> P (l # p))" for P
    by (metis list.distinct(1) list.exhaust prefix_Cons Cons_prefix_Cons)
  show ?case
  proof (cases "map_of (sn_children n) l")
    case None
    then show ?thesis by (auto simp: split)
  next
    case (Some c)
    have "(\<exists>p. prefix p ls \<and> has_path p c) \<longleftrightarrow>
            sn_terminal c \<or> (\<exists>p. p \<noteq> [] \<and> prefix p ls \<and> has_path p c)"
      by (metis Nil_prefix has_path.simps(1))
    with Some show ?thesis by (auto simp: split Cons.IH)
  qed
qed

interpretation suffix_trie: label_trie sn_empty insert_labels walk_labels trie_keys
proof unfold_locales
  have "\<not> has_path ls sn_empty" for ls
    by (cases ls) (auto simp: sn_empty_def)
  then show "trie_keys sn_empty = {}" by (simp add: trie_keys_def)
next
  show "trie_keys (insert_labels k t) = insert k (trie_keys t)" for k t
    by (auto simp: trie_keys_def has_path_insert)
next
  show "walk_labels ls t \<longleftrightarrow> (\<exists>k \<in> trie_keys t. label_cover k ls)" for ls t
    by (auto simp: trie_keys_def walk_labels_iff label_cover_def)
qed

section \<open>Domain sets\<close>

record domain_set =
  ds_suffix :: suffix_node
  ds_full :: "string set"
  ds_keywords :: "string list"
  ds_regexes :: "string list"

definition ds_new :: domain_set where
  "ds_new = \<lparr>ds_suffix = sn_empty, ds_full = {}, ds_keywords = [], ds_regexes = []\<rparr>"

definition normalize_domain :: "string \<Rightarrow> string" where
  "normalize_domain s =
     to_ascii_lowercase (trim_start_matches (CHR ''.'') (trim_end_matches (CHR ''.'') (trim s)))"

definition insert_suffix :: "string \<Rightarrow> domain_set \<Rightarrow> domain_set" where
  "insert_suffix d ds = ds\<lparr>ds_suffix := insert_labels (rev_labels d) (ds_suffix ds)\<rparr>"

definition suffix_match :: "domain_set \<Rightarrow> string \<Rightarrow> bool" where
  "suffix_match ds d = walk_labels (rev_labels d) (ds_suffix ds)"

definition skips_rule :: "string \<Rightarrow> bool" where
  "skips_rule raw \<longleftrightarrow> raw = [] \<or> hd raw = CHR ''#''"

definition add_rule :: "'n lib \<Rightarrow> domain_set \<Rightarrow> string \<Rightarrow> domain_set res" where
  "add_rule L ds raw0 =
     (let raw = trim raw0 in
      if skips_rule raw then Inr ds
      else (case strip_prefix ''full:'' raw of
        Some rest \<Rightarrow> Inr (ds\<lparr>ds_full := insert (normalize_domain rest) (ds_full ds)\<rparr>)
      | None \<Rightarrow> (case strip_prefix ''keyword:'' raw of
        Some rest \<Rightarrow> Inr (ds\<lparr>ds_keywords := ds_keywords ds @ [to_ascii_lowercase rest]\<rparr>)
      | None \<Rightarrow> (case strip_prefix ''regexp:'' raw of
        Some rest \<Rightarrow>
          (if re_valid L rest then Inr (ds\<lparr>ds_regexes := ds_regexes ds @ [rest]\<rparr>)
           else Inl (ConfigErr (''bad regexp `'' @ rest)))
      | None \<Rightarrow> (case strip_prefix ''domain:'' raw of
        Some rest \<Rightarrow> Inr (insert_suffix (normalize_domain rest) ds)
      | None \<Rightarrow> Inr (insert_suffix (normalize_domain raw) ds))))))"

definition domain_contains :: "'n lib \<Rightarrow> domain_set \<Rightarrow> string \<Rightarrow> bool" where
  "domain_contains L ds domain =
     (let d = normalize_domain domain in
      if d \<in> ds_full ds then True
      else if suffix_match ds d then True
      else if list_ex (\<lambda>kw. sublist kw d) (ds_keywords ds) then True
      else list_ex (\<lambda>re. re_match L re d) (ds_regexes ds))"

definition domain_set_len :: "domain_set \<Rightarrow> nat" where
  "domain_set_len ds =
     card (ds_full ds) + length (ds_keywords ds) + length (ds_regexes ds)
       + count_terminals (ds_suffix ds)"

definition domain_load_file :: "'n lib \<Rightarrow> files \<Rightarrow> domain_set \<Rightarrow> string \<Rightarrow> domain_set res" where
  "domain_load_file L fs ds path =
     res_bind (read_to_string fs path) (\<lambda>text. res_fold (add_rule L) ds (rule_lines text))"

definition domain_from_args :: "'n lib \<Rightarrow> files \<Rightarrow> yaml \<Rightarrow> string \<Rightarrow> domain_set res" where
  "domain_from_args L fs args base =
     res_bind (res_fold (add_rule L) ds_new (y_strings ''exps'' args)) (\<lambda>ds.
       res_fold (\<lambda>ds p. domain_load_file L fs ds (resolve_path base p)) ds (y_strings ''files'' args))"

section \<open>IP sets\<close>

type_synonym ip_set = "ipnet list"

definition ip_add :: "'n lib \<Rightarrow> ip_set \<Rightarrow> string \<Rightarrow> ip_set res" where
  "ip_add L nets raw0 =
     (let raw = trim raw0 in
      res_bind
        (if CHR ''/'' \<in> set raw then ok_or (ConfigErr (''bad cidr `'' @ raw)) (net_from_str L raw)
         else ok_or (ConfigErr (''bad ip `'' @ raw))
                (map_option (net_from_ip L) (parse_ipaddr raw)))
        (\<lambda>n. Inr (nets @ [n])))"

definition ip_contains :: "'n lib \<Rightarrow> ip_set \<Rightarrow> ip \<Rightarrow> bool" where
  "ip_contains L nets a = list_ex (\<lambda>n. net_contains L n a) nets"

definition ip_load_file :: "'n lib \<Rightarrow> files \<Rightarrow> ip_set \<Rightarrow> string \<Rightarrow> ip_set res" where
  "ip_load_file L fs nets path =
     res_bind (read_to_string fs path) (\<lambda>text. res_fold (ip_add L) nets (rule_lines text))"

definition ip_from_args :: "'n lib \<Rightarrow> files \<Rightarrow> yaml \<Rightarrow> string \<Rightarrow> ip_set res" where
  "ip_from_args L fs args base =
     res_bind (res_fold (ip_add L) [] (y_strings ''exps'' args)) (\<lambda>nets.
       res_fold (\<lambda>nets p. ip_load_file L fs nets (resolve_path base p)) nets
         (y_strings ''files'' args))"

section \<open>Matchers\<close>

datatype matcher =
    MQname domain_set
  | MQtype "record_type list"
  | MClientIp ip_set
  | MRespIp ip_set
  | MHasResp
  | MHasWantedAns
  | MRcode u16
  | MMark u32
  | MHasEcs
  | MNeg matcher

primrec matches :: "'n lib \<Rightarrow> 'n ctx \<Rightarrow> matcher \<Rightarrow> bool" where
  "matches L c (MQname ds) = domain_contains L ds (qname_str L c)"
| "matches L c (MQtype ts) = (ctx_qtype c \<in> set ts)"
| "matches L c (MClientIp nets) =
     (case c_client c of None \<Rightarrow> False | Some a \<Rightarrow> ip_contains L nets a)"
| "matches L c (MRespIp nets) = list_ex (\<lambda>a. ip_contains L nets a) (answer_ips c)"
| "matches L c MHasResp = has_resp c"
| "matches L c MHasWantedAns = has_wanted_ans c"
| "matches L c (MRcode code) =
     (case c_response c of None \<Rightarrow> False | Some r \<Rightarrow> m_rcode r = code)"
| "matches L c (MMark m) = has_mark m c"
| "matches L c MHasEcs = (ecs_of (c_query c) \<noteq> None)"
| "matches L c (MNeg m) = (\<not> matches L c m)"

section \<open>A domain set matches what some rule covers\<close>

definition dom_labels :: "string \<Rightarrow> string list" where
  "dom_labels d = filter (\<lambda>s. s \<noteq> []) (split_char (CHR ''.'') d)"

lemma label_cover_suffix:
  "label_cover (rev_labels k) (rev_labels d) \<longleftrightarrow>
     (if dom_labels k = [] then dom_labels d = [] else suffix (dom_labels k) (dom_labels d))"
proof -
  have rev_labels: "rev_labels x = rev (dom_labels x)" for x
    by (simp add: rev_labels_def dom_labels_def rev_filter)
  show ?thesis by (simp add: rev_labels label_cover_def suffix_to_prefix)
qed

definition rule_covers :: "'n lib \<Rightarrow> string \<Rightarrow> string \<Rightarrow> bool" where
  \<comment> \<open>the meaning of one rule line for a normalised name\<close>
  "rule_covers L raw0 d =
     (let raw = trim raw0;
          under = (\<lambda>rule. let ls = dom_labels (normalize_domain rule) in
            if ls = [] then dom_labels d = [] else suffix ls (dom_labels d)) in
      if skips_rule raw then False
      else (case strip_prefix ''full:'' raw of
        Some rest \<Rightarrow> d = normalize_domain rest
      | None \<Rightarrow> (case strip_prefix ''keyword:'' raw of
        Some rest \<Rightarrow> sublist (to_ascii_lowercase rest) d
      | None \<Rightarrow> (case strip_prefix ''regexp:'' raw of
        Some rest \<Rightarrow> re_match L rest d
      | None \<Rightarrow> (case strip_prefix ''domain:'' raw of
        Some rest \<Rightarrow> under rest
      | None \<Rightarrow> under raw)))))"

lemma domain_contains_iff:
  "domain_contains L ds domain \<longleftrightarrow>
     (let d = normalize_domain domain in
      d \<in> ds_full ds \<or> suffix_match ds d \<or> (\<exists>kw \<in> set (ds_keywords ds). sublist kw d)
        \<or> (\<exists>re \<in> set (ds_regexes ds). re_match L re d))"
  by (auto simp: domain_contains_def Let_def list_ex_iff)

lemma suffix_match_insert:
  "suffix_match (insert_suffix k ds) d \<longleftrightarrow>
     label_cover (rev_labels k) (rev_labels d) \<or> suffix_match ds d"
  by (simp add: suffix_match_def insert_suffix_def suffix_trie.covered_ins)

lemma insert_suffix_frame [simp]:
  "ds_full (insert_suffix k ds) = ds_full ds"
  "ds_keywords (insert_suffix k ds) = ds_keywords ds"
  "ds_regexes (insert_suffix k ds) = ds_regexes ds"
  by (simp_all add: insert_suffix_def)

lemma suffix_match_frame [simp]:
  "suffix_match (ds\<lparr>ds_full := x\<rparr>) d = suffix_match ds d"
  "suffix_match (ds\<lparr>ds_keywords := y\<rparr>) d = suffix_match ds d"
  "suffix_match (ds\<lparr>ds_regexes := z\<rparr>) d = suffix_match ds d"
  by (simp_all add: suffix_match_def)

lemma add_rule_contains:
  assumes "add_rule L ds raw = Inr ds'"
  shows "domain_contains L ds' x \<longleftrightarrow>
           rule_covers L raw (normalize_domain x) \<or> domain_contains L ds x"
  using assms
  by (auto simp: add_rule_def rule_covers_def domain_contains_iff Let_def suffix_match_insert label_cover_suffix
      split: if_splits option.splits)

lemma ds_new_contains: "\<not> domain_contains L ds_new x"
  by (simp add: domain_contains_iff ds_new_def suffix_match_def suffix_trie.covered_none Let_def)

lemma res_fold_add_rule_contains:
  "res_fold (add_rule L) ds rules = Inr ds' \<Longrightarrow>
     domain_contains L ds' x \<longleftrightarrow>
       (\<exists>raw \<in> set rules. rule_covers L raw (normalize_domain x)) \<or> domain_contains L ds x"
proof (induction rules arbitrary: ds)
  case Nil
  then show ?case by simp
next
  case (Cons raw rules)
  then obtain ds1 where "add_rule L ds raw = Inr ds1" "res_fold (add_rule L) ds1 rules = Inr ds'"
    by auto
  with Cons.IH [of ds1] show ?case by (auto simp: add_rule_contains)
qed

end
