(* ===== verification/Actions.thy ===== *)
theory Actions
  imports Query_Context
begin

text \<open>
  \<^verbatim>\<open>src/plugin/actions.rs\<close> and the \<open>Action\<close> of \<^verbatim>\<open>src/plugin/mod.rs\<close>: the built-in steps of a
  sequence with their parser, the \<open>black_hole\<close> plugin and the \<open>redirect\<close> plugin. A parsed built-in
  never makes \<open>Ord::clamp\<close> panic.
\<close>

datatype action = Continue | Accept | Return | Goto string

section \<open>Built-in steps\<close>

datatype builtin =
    BAccept
  | BReturn
  | BReject rcode
  | BDropResp
  | BTtl u32 u32
  | BPreferV4
  | BPreferV6
  | BMark u32
  | BGoto string
  | BNoEcs

definition parse_ttl_range :: "string \<Rightarrow> (u32 \<times> u32) res" where
  "parse_ttl_range spec =
     (case split_once (CHR ''-'') spec of
        Some (a, b) \<Rightarrow>
          res_bind (ok_or (ConfigErr ''bad ttl minimum'') (parse_word (trim a))) (\<lambda>lo.
          res_bind (ok_or (ConfigErr ''bad ttl maximum'') (parse_word (trim b))) (\<lambda>hi.
          if hi < lo then Inl (ConfigErr ''ttl minimum must not exceed maximum'')
          else Inr (lo, hi)))
      | None \<Rightarrow>
          res_bind (ok_or (ConfigErr ''bad ttl'') (parse_word spec)) (\<lambda>v. Inr (v, v)))"

definition nth_or :: "string list \<Rightarrow> string \<Rightarrow> string" where
  \<comment> \<open>\<open>parts.next().unwrap_or(d)\<close>\<close>
  "nth_or ps d = (case ps of [] \<Rightarrow> d | p # _ \<Rightarrow> p)"

definition next_part :: "error \<Rightarrow> string list \<Rightarrow> string res" where
  \<comment> \<open>\<open>parts.next().ok_or_else(..)?\<close>\<close>
  "next_part e ps = (case ps of [] \<Rightarrow> Inl e | p # _ \<Rightarrow> Inr p)"

definition builtin_parse :: "string \<Rightarrow> builtin res" where
  "builtin_parse s =
     (let parts = split_whitespace (trim s);
          head = nth_or parts [];
          rest = drop 1 parts
      in if head = ''accept'' then Inr BAccept
         else if head = ''return'' then Inr BReturn
         else if head = ''drop_resp'' \<or> head = ''drop'' then Inr BDropResp
         else if head = ''prefer_ipv4'' then Inr BPreferV4
         else if head = ''prefer_ipv6'' then Inr BPreferV6
         else if head = ''reject'' then Inr (BReject (rcode_from_str (nth_or rest ''REFUSED'')))
         else if head = ''ttl''
         then res_bind (next_part (ConfigErr ''ttl needs a value or range'') rest) (\<lambda>spec.
              res_bind (parse_ttl_range spec) (\<lambda>(lo, hi). Inr (BTtl lo hi)))
         else if head = ''mark''
         then res_bind (ok_or (ConfigErr ''bad mark'') (parse_word (nth_or rest ''0''))) (\<lambda>n.
              Inr (BMark n))
         else if head = ''goto'' \<or> head = ''jump''
         then res_bind (next_part (ConfigErr ''goto needs a tag'') rest) (\<lambda>tag.
              Inr (BGoto (trim_start_matches (CHR ''$'') tag)))
         else if head = ''no_ecs'' \<or> head = ''_no_ecs'' then Inr BNoEcs
         else Inl (ConfigErr (''unknown builtin exec `'' @ head
                @ ''` (did you forget `$` for a plugin tag?)'')))"

primrec builtin_label :: "'n lib \<Rightarrow> builtin \<Rightarrow> string" where
  "builtin_label L BAccept = ''accept''"
| "builtin_label L BReturn = ''return''"
| "builtin_label L (BReject rc) = ''reject '' @ rcode_display L rc"
| "builtin_label L BDropResp = ''drop_resp''"
| "builtin_label L (BTtl lo hi) = ''ttl '' @ show_word lo @ ''-'' @ show_word hi"
| "builtin_label L BPreferV4 = ''prefer_ipv4''"
| "builtin_label L BPreferV6 = ''prefer_ipv6''"
| "builtin_label L (BMark m) = ''mark '' @ show_word m"
| "builtin_label L (BGoto t) = ''goto '' @ t"
| "builtin_label L BNoEcs = ''no_ecs''"

primrec builtin_apply :: "builtin \<Rightarrow> 'n ctx \<Rightarrow> action res \<times> 'n ctx" where
  \<comment> \<open>a failing step leaves the context it was given\<close>
  "builtin_apply BAccept c = (Inr Accept, c)"
| "builtin_apply BReturn c = (Inr Return, c)"
| "builtin_apply (BReject rc) c = (Inr Accept, reject rc c)"
| "builtin_apply BDropResp c = (Inr Continue, drop_response c)"
| "builtin_apply (BTtl lo hi) c =
     (if hi < lo then (Inl (ConfigErr ''ttl minimum must not exceed maximum''), c)
      else (case apply_ttl_clamp lo hi c of
              Inl e \<Rightarrow> (Inl e, c) | Inr c' \<Rightarrow> (Inr Continue, c')))"
| "builtin_apply BPreferV4 c = (Inr Continue, prefer_ipv4 c)"
| "builtin_apply BPreferV6 c = (Inr Continue, prefer_ipv6 c)"
| "builtin_apply (BMark m) c = (Inr Continue, add_mark m c)"
| "builtin_apply (BGoto t) c = (Inr (Goto t), c)"
| "builtin_apply BNoEcs c =
     (Inr Continue, c\<lparr>c_query := remove_ecs (c_query c), c_strip := True\<rparr>)"

lemma evolves_builtin_apply [evolves_intros]:
  "builtin_apply b c = (a, c') \<Longrightarrow> evolves c c'"
  by (cases b) (auto intro: evolves_intros split: if_splits sum.splits)

lemma res_map_clamp_total:
  "lo \<le> hi \<Longrightarrow> res_map (clamp_rr lo hi) rs = Inr (map (\<lambda>r. r\<lparr>rr_ttl := the (rust_clamp lo hi (rr_ttl r))\<rparr>) rs)"
  by (induction rs) (auto simp: clamp_rr_def rust_clamp_def)

lemma apply_ttl_clamp_total: "lo \<le> hi \<Longrightarrow> \<exists>c'. apply_ttl_clamp lo hi c = Inr c'"
  by (auto simp: apply_ttl_clamp_def res_map_clamp_total split: option.splits)

lemma builtin_apply_no_panic:
  "builtin_apply b c \<noteq> (Inl (Panicked m), c')"
proof (cases b)
  case (BTtl lo hi)
  show ?thesis
  proof (cases "hi < lo")
    case True
    with BTtl show ?thesis by simp
  next
    case False
    then obtain c1 where "apply_ttl_clamp lo hi c = Inr c1"
      using apply_ttl_clamp_total [of lo hi c] by (auto simp: not_less)
    with False BTtl show ?thesis by simp
  qed
qed auto

section \<open>The \<open>black_hole\<close> plugin\<close>

definition blackhole_from_args :: "yaml \<Rightarrow> rcode" where
  "blackhole_from_args args =
     (case Option.bind (y_get ''rcode'' args) y_as_str of
        None \<Rightarrow> NXDomain | Some s \<Rightarrow> rcode_from_str s)"

definition blackhole_exec :: "rcode \<Rightarrow> 'n ctx \<Rightarrow> 'n ctx" where
  "blackhole_exec rc c = reject rc c"

section \<open>The \<open>redirect\<close> plugin\<close>

type_synonym 'n redirect = "(string \<times> 'n) list"

definition redirect_add :: "'n lib \<Rightarrow> 'n redirect \<Rightarrow> string \<times> string \<Rightarrow> 'n redirect res" where
  "redirect_add L rules p =
     res_bind (ok_or (ConfigErr (''bad redirect source `'' @ fst p)) (nm_from_ascii L (fst p))) (\<lambda>f.
     res_bind (ok_or (ConfigErr (''bad redirect target `'' @ snd p)) (nm_from_ascii L (snd p))) (\<lambda>t.
     Inr (rules @ [(to_ascii_lowercase (trim_end_matches (CHR ''.'') (nm_ascii L f)), t)])))"

definition redirect_map_rule :: "'n lib \<Rightarrow> 'n redirect \<Rightarrow> yaml \<times> yaml \<Rightarrow> 'n redirect res" where
  "redirect_map_rule L rules kv =
     res_bind (ok_or (ConfigErr ''redirect source must be a string'') (y_as_str (fst kv))) (\<lambda>f.
     res_bind (ok_or (ConfigErr ''redirect target must be a string'') (y_as_str (snd kv))) (\<lambda>t.
     redirect_add L rules (f, t)))"

definition redirect_seq_rule :: "'n lib \<Rightarrow> 'n redirect \<Rightarrow> yaml \<Rightarrow> 'n redirect res" where
  "redirect_seq_rule L rules v =
     res_bind (ok_or (ConfigErr ''redirect rule must be a string'') (y_as_str v)) (\<lambda>s.
       (case split_whitespace s of
          [f, t] \<Rightarrow> redirect_add L rules (f, t)
        | _ \<Rightarrow> Inl (ConfigErr ''redirect rule needs source and target'')))"

definition redirect_from_args :: "'n lib \<Rightarrow> yaml \<Rightarrow> 'n redirect res" where
  "redirect_from_args L args =
     (case y_get ''rules'' args of
        None \<Rightarrow> Inr []
      | Some (YMap m) \<Rightarrow> res_fold (redirect_map_rule L) [] m
      | Some (YSeq vs) \<Rightarrow> res_fold (redirect_seq_rule L) [] vs
      | Some _ \<Rightarrow> Inl (ConfigErr ''redirect rules must be a map or list''))"

definition redirect_matches :: "string \<Rightarrow> string \<Rightarrow> bool" where
  "redirect_matches qn from0 =
     (let f = trim_end_matches (CHR ''.'') from0 in qn = f \<or> suffix (''.'' @ f) qn)"

definition redirect_exec :: "'n lib \<Rightarrow> instant \<Rightarrow> 'n redirect \<Rightarrow> 'n ctx \<Rightarrow> 'n ctx" where
  "redirect_exec L now rules c =
     (let qn = to_ascii_lowercase (trim_end_matches (CHR ''.'') (qname_str L c)) in
      case find (\<lambda>(f, _). redirect_matches qn f) rules of
        None \<Rightarrow> c
      | Some (_, t) \<Rightarrow>
          push_trace now ''redirect'' ''rewrite'' (qn @ '' -> '' @ nm_display L t) (rewrite_name L t c))"

lemma evolves_blackhole [evolves_intros]: "evolves c (blackhole_exec rc c)"
  by (simp add: blackhole_exec_def evolves_reject)

lemma evolves_redirect_exec [evolves_intros]: "evolves c (redirect_exec L now rules c)"
  by (auto simp: redirect_exec_def Let_def split: option.splits
      intro: evolves_trans [OF evolves_rewrite_name evolves_push_trace])

end
