(* ===== verification/Shard.thy ===== *)
theory Shard
  imports Query_Context
begin

text \<open>
  One shard of the cache, \<^verbatim>\<open>struct Shard\<close> of \<^verbatim>\<open>src/plugin/cache.rs\<close>: a hash map with a
  queue of its keys. It refines a list in recency order bounded by the capacity, and provides the
  interface \<open>entry_store\<close> the sharded cache is built on.
\<close>

section \<open>One shard\<close>

record entry =
  e_wire :: "u8 list"
  e_stored :: instant
  e_ttl_deadline :: instant
  e_expire :: instant

record shard =
  s_map :: "(string \<times> entry) list"
  s_lru :: "string list"
  s_cap :: nat

definition shard_new :: "nat \<Rightarrow> shard" where
  "shard_new cap = \<lparr>s_map = [], s_lru = [], s_cap = max cap 1\<rparr>"

definition shard_touch :: "string \<Rightarrow> shard \<Rightarrow> shard" where
  \<comment> \<open>what \<open>get\<close> does to the recency queue of a present key\<close>
  "shard_touch k s =
     (if map_of (s_map s) k \<noteq> None \<and> k \<in> set (s_lru s)
      then s\<lparr>s_lru := remove1 k (s_lru s) @ [k]\<rparr> else s)"

definition shard_get :: "string \<Rightarrow> shard \<Rightarrow> entry option \<times> shard" where
  "shard_get k s =
     (if map_of (s_map s) k \<noteq> None then (map_of (s_map s) k, shard_touch k s) else (None, s))"

fun evict :: "nat \<Rightarrow> (string \<times> entry) list \<Rightarrow> string list \<Rightarrow> (string \<times> entry) list \<times> string list" where
  \<comment> \<open>the loop of \<open>insert\<close>\<close>
  "evict cap m [] = (m, [])"
| "evict cap m (old # lru) =
     (if cap \<le> length m then evict cap (AList.delete old m) lru else (m, old # lru))"

definition shard_insert :: "string \<Rightarrow> entry \<Rightarrow> shard \<Rightarrow> shard" where
  "shard_insert k e s =
     (if map_of (s_map s) k \<noteq> None
      then s\<lparr>s_map := AList.update k e (s_map s), s_lru := remove1 k (s_lru s) @ [k]\<rparr>
      else (case evict (s_cap s) (s_map s) (s_lru s) of
              (m, lru) \<Rightarrow> s\<lparr>s_map := AList.update k e m, s_lru := lru @ [k]\<rparr>))"

definition shard_flush :: "shard \<Rightarrow> shard" where
  "shard_flush s = s\<lparr>s_map := [], s_lru := []\<rparr>"

definition shard_len :: "shard \<Rightarrow> nat" where
  "shard_len s = length (s_map s)"

subsection \<open>The invariant and the recency list\<close>

definition shard_ok :: "shard \<Rightarrow> bool" where
  "shard_ok s \<longleftrightarrow>
     alist_ok (s_map s) \<and> distinct (s_lru s) \<and> set (s_lru s) = fst ` set (s_map s)
       \<and> length (s_map s) \<le> s_cap s \<and> 1 \<le> s_cap s"

definition shard_view :: "shard \<Rightarrow> (string \<times> entry) list" where
  \<comment> \<open>least recently used first\<close>
  "shard_view s = map (\<lambda>k. (k, the (map_of (s_map s) k))) (s_lru s)"

definition lru_without :: "string \<Rightarrow> (string \<times> entry) list \<Rightarrow> (string \<times> entry) list" where
  "lru_without k v = filter (\<lambda>p. fst p \<noteq> k) v"

definition lru_put :: "nat \<Rightarrow> string \<Rightarrow> entry \<Rightarrow> (string \<times> entry) list \<Rightarrow> (string \<times> entry) list" where
  \<comment> \<open>specification: to the young end, the oldest fall out beyond the capacity\<close>
  "lru_put cap k e v = (let v' = lru_without k v @ [(k, e)] in drop (length v' - cap) v')"

definition lru_use :: "string \<Rightarrow> (string \<times> entry) list \<Rightarrow> (string \<times> entry) list" where
  "lru_use k v = (case map_of v k of None \<Rightarrow> v | Some e \<Rightarrow> lru_without k v @ [(k, e)])"

lemma shard_ok_length: "shard_ok s \<Longrightarrow> length (s_lru s) = length (s_map s)"
  by (metis alist_ok_def distinct_card length_map list.set_map shard_ok_def)

lemma map_of_in_keys: "map_of m k \<noteq> None \<longleftrightarrow> k \<in> fst ` set m"
  by (simp add: map_of_eq_None_iff)

lemma evict_spec:
  assumes "alist_ok m" "distinct lru" "set lru = fst ` set m" "1 \<le> cap"
    and "evict cap m lru = (m', lru')"
  shows "lru' = drop (Suc (length lru) - cap) lru \<and> alist_ok m' \<and> set lru' = fst ` set m'
    \<and> length m' < cap \<and> (\<forall>k \<in> set lru'. map_of m' k = map_of m k)"
  using assms
proof (induction lru arbitrary: m)
  case Nil
  then show ?case by simp
next
  case (Cons old lru)
  have len: "length m = Suc (length lru)"
    using Cons.prems by (metis alist_ok_def distinct_card length_Cons length_map list.set_map)
  show ?case
  proof (cases "cap \<le> length m")
    case True
    have keys: "set lru = fst ` set (AList.delete old m)"
    proof -
      have "fst ` set (AList.delete old m) = set (map fst (AList.delete old m))"
        by simp
      also have "\<dots> = set (map fst m) - {old}"
        by (simp only: delete_keys set_removeAll)
      also have "\<dots> = set lru" using Cons.prems(2,3) by auto
      finally show ?thesis by simp
    qed
    have ev: "evict cap (AList.delete old m) lru = (m', lru')"
      using Cons.prems(5) True by simp
    have "lru' = drop (Suc (length lru) - cap) lru \<and> alist_ok m' \<and> set lru' = fst ` set m'
        \<and> length m' < cap \<and> (\<forall>k \<in> set lru'. map_of m' k = map_of (AList.delete old m) k)"
      by (rule Cons.IH [OF _ _ keys _ ev]) (use Cons.prems in auto)
    moreover have "drop (Suc (length (old # lru)) - cap) (old # lru)
        = drop (Suc (length lru) - cap) lru"
      using True len Cons.prems(4) by (simp add: Suc_diff_le)
    moreover have "old \<notin> set lru'" if "set lru' \<subseteq> set lru"
      using that Cons.prems(2) by auto
    ultimately show ?thesis
      by (auto simp: delete_conv' dest: in_set_dropD)
  next
    case False
    then have "m' = m" "lru' = old # lru" using Cons.prems(5) by auto
    with False Cons.prems len show ?thesis by simp
  qed
qed

lemma shard_ok_new [simp]: "shard_ok (shard_new cap)"
  by (simp add: shard_ok_def shard_new_def)

lemma shard_ok_flush [simp]: "shard_ok s \<Longrightarrow> shard_ok (shard_flush s)"
  by (simp add: shard_ok_def shard_flush_def)

lemma shard_ok_touch [simp]: "shard_ok s \<Longrightarrow> shard_ok (shard_touch k s)"
  by (auto simp: shard_ok_def shard_touch_def)

lemma fst_set_update: "fst ` set (AList.update k e m) = insert k (fst ` set m)"
  by (simp flip: dom_map_of_conv_image_fst add: update_conv')

lemma shard_ok_insert [simp]:
  assumes "shard_ok s"
  shows "shard_ok (shard_insert k e s)"
proof (cases "map_of (s_map s) k = None")
  case True
  obtain m lru where ev: "evict (s_cap s) (s_map s) (s_lru s) = (m, lru)"
    by (cases "evict (s_cap s) (s_map s) (s_lru s)")
  from evict_spec [OF _ _ _ _ ev] assms
  have sp: "lru = drop (Suc (length (s_lru s)) - s_cap s) (s_lru s)" "alist_ok m"
      "set lru = fst ` set m" "length m < s_cap s"
    by (auto simp: shard_ok_def)
  have "k \<notin> set (s_lru s)"
    using True assms by (simp add: map_of_eq_None_iff shard_ok_def)
  then have "k \<notin> set lru" using sp(1) by (auto dest: in_set_dropD)
  moreover have "distinct lru" using sp(1) assms by (simp add: shard_ok_def)
  ultimately show ?thesis
    using True ev sp assms
    by (simp add: shard_insert_def shard_ok_def fst_set_update length_update)
next
  case False
  then have "k \<in> fst ` set (s_map s)" by (simp add: map_of_eq_None_iff)
  with False assms show ?thesis
    by (auto simp: shard_insert_def shard_ok_def fst_set_update length_update)
qed

subsection \<open>Refinement of the recency list\<close>

lemma map_remove1_view:
  "distinct ks \<Longrightarrow> map (\<lambda>x. (x, f x)) (remove1 k ks) = lru_without k (map (\<lambda>x. (x, f x)) ks)"
  by (simp add: lru_without_def distinct_remove1_removeAll removeAll_filter_not_eq filter_map
      comp_def eq_commute)

lemma shard_view_touch:
  assumes "shard_ok s"
  shows "shard_view (shard_touch k s) = lru_use k (shard_view s)"
proof -
  have mo: "map_of (shard_view s) k = (if k \<in> set (s_lru s) then map_of (s_map s) k else None)"
    using assms
    by (auto simp: shard_view_def map_of_map_restrict restrict_map_def shard_ok_def
        map_of_eq_None_iff image_iff dest: map_of_SomeD)
  show ?thesis
  proof (cases "map_of (s_map s) k")
    case None
    then have "k \<notin> set (s_lru s)" using assms by (simp add: shard_ok_def map_of_eq_None_iff)
    with None mo show ?thesis by (simp add: shard_touch_def lru_use_def)
  next
    case (Some e)
    then have "k \<in> set (s_lru s)"
      using assms by (metis map_of_in_keys option.distinct(1) shard_ok_def)
    with Some mo assms show ?thesis
      by (simp add: shard_touch_def lru_use_def shard_view_def map_remove1_view shard_ok_def)
  qed
qed

lemma shard_view_insert:
  assumes ok: "shard_ok s"
  shows "shard_view (shard_insert k e s) = lru_put (s_cap s) k e (shard_view s)"
proof (cases "map_of (s_map s) k = None")
  case True
  obtain m lru where ev: "evict (s_cap s) (s_map s) (s_lru s) = (m, lru)"
    by (cases "evict (s_cap s) (s_map s) (s_lru s)")
  from evict_spec [OF _ _ _ _ ev] ok
  have sp: "lru = drop (Suc (length (s_lru s)) - s_cap s) (s_lru s)"
      "\<And>x. x \<in> set lru \<Longrightarrow> map_of m x = map_of (s_map s) x"
    by (auto simp: shard_ok_def)
  have k: "k \<notin> set (s_lru s)" using True ok by (simp add: map_of_eq_None_iff shard_ok_def)
  then have kl: "k \<notin> set lru" using sp(1) by (auto dest: in_set_dropD)
  have "shard_view (shard_insert k e s)
      = map (\<lambda>x. (x, the (map_of (s_map s) x))) lru @ [(k, e)]"
    using True ev kl sp(2) by (auto simp: shard_insert_def shard_view_def update_conv')
  moreover have "lru_without k (shard_view s) = shard_view s"
    using k by (auto simp: lru_without_def shard_view_def filter_id_conv)
  moreover have "Suc (length (s_lru s)) - s_cap s \<le> length (s_lru s)"
    using ok by (auto simp: shard_ok_def)
  ultimately show ?thesis
    by (simp add: lru_put_def shard_view_def sp(1) drop_map)
next
  case False
  then have k: "k \<in> set (s_lru s)" using ok map_of_in_keys [of "s_map s" k] by (simp add: shard_ok_def)
  have d: "distinct (s_lru s)" using ok by (simp add: shard_ok_def)
  have "shard_view (shard_insert k e s) = lru_without k (shard_view s) @ [(k, e)]"
  proof -
    have "map (\<lambda>x. (x, the (map_of (AList.update k e (s_map s)) x))) (remove1 k (s_lru s))
        = map (\<lambda>x. (x, the (map_of (s_map s) x))) (remove1 k (s_lru s))"
      using d by (auto simp: update_conv')
    with False d show ?thesis
      by (simp add: shard_insert_def shard_view_def map_remove1_view update_conv')
  qed
  moreover have "length (lru_without k (shard_view s)) < s_cap s"
  proof -
    have "length (lru_without k (shard_view s)) = length (remove1 k (s_lru s))"
      using d by (simp add: shard_view_def flip: map_remove1_view)
    also have "\<dots> < length (s_lru s)" using k length_pos_if_in_set [OF k] by (simp add: length_remove1)
    also have "\<dots> \<le> s_cap s" using ok by (simp add: shard_ok_length) (simp add: shard_ok_def)
    finally show ?thesis .
  qed
  ultimately show ?thesis by (simp add: lru_put_def)
qed

lemma shard_view_flush: "shard_view (shard_flush s) = []"
  by (simp add: shard_view_def shard_flush_def)

section \<open>What a store of entries promises\<close>

text \<open>
  The interface the cache needs of a shard, and that the plugin needs of the cache: an entry that
  can be read was the last one written under its key since the last flush. Eviction may lose
  entries, and never invents one.
\<close>

datatype ('k, 'v) store_op = Put 'k 'v | Touch 'k | Clear

fun last_put :: "'k \<Rightarrow> ('k, 'v) store_op list \<Rightarrow> 'v option \<Rightarrow> 'v option" where
  \<comment> \<open>specification: the last write of a key that no flush follows\<close>
  "last_put k [] v = v"
| "last_put k (Put k' e # ops) v = last_put k ops (if k' = k then Some e else v)"
| "last_put k (Touch k' # ops) v = last_put k ops v"
| "last_put k (Clear # ops) v = last_put k ops None"

fun run_op :: "('k \<Rightarrow> 'v \<Rightarrow> 's \<Rightarrow> 's) \<Rightarrow> ('k \<Rightarrow> 's \<Rightarrow> 's) \<Rightarrow> ('s \<Rightarrow> 's) \<Rightarrow> ('k, 'v) store_op \<Rightarrow> 's \<Rightarrow> 's" where
  "run_op put touch clear (Put k e) s = put k e s"
| "run_op put touch clear (Touch k) s = touch k s"
| "run_op put touch clear Clear s = clear s"

locale entry_store =
  fixes inv :: "'s \<Rightarrow> bool"
    and peek :: "'k \<Rightarrow> 's \<Rightarrow> 'v option"
    and put :: "'k \<Rightarrow> 'v \<Rightarrow> 's \<Rightarrow> 's"
    and touch :: "'k \<Rightarrow> 's \<Rightarrow> 's"
    and clear :: "'s \<Rightarrow> 's"
  assumes inv_put: "inv s \<Longrightarrow> inv (put k v s)"
    and inv_touch: "inv s \<Longrightarrow> inv (touch k s)"
    and inv_clear: "inv s \<Longrightarrow> inv (clear s)"
    and peek_put_same: "inv s \<Longrightarrow> peek k (put k v s) = Some v"
    and peek_put_other:
      "inv s \<Longrightarrow> k' \<noteq> k \<Longrightarrow> peek k' (put k v s) = Some v' \<Longrightarrow> peek k' s = Some v'"
    and peek_touch: "inv s \<Longrightarrow> peek k' (touch k s) = peek k' s"
    and peek_clear: "inv s \<Longrightarrow> peek k (clear s) = None"
begin

lemma peek_put_cases:
  "inv s \<Longrightarrow> peek k' (put k v s) = Some v' \<Longrightarrow> k' = k \<and> v' = v \<or> k' \<noteq> k \<and> peek k' s = Some v'"
  using peek_put_same peek_put_other by (metis option.inject)

lemma entries_put:
  "inv s \<Longrightarrow> (\<And>k v. peek k s = Some v \<Longrightarrow> P k v) \<Longrightarrow> P k v
     \<Longrightarrow> peek k' (put k v s) = Some v' \<Longrightarrow> P k' v'"
  by (auto dest: peek_put_cases)

lemma inv_run: "inv s \<Longrightarrow> inv (fold (run_op put touch clear) ops s)"
proof (induction ops arbitrary: s)
  case Nil
  then show ?case by simp
next
  case (Cons x ops)
  then show ?case by (cases x) (auto simp: inv_put inv_touch inv_clear)
qed

lemma run_last_put:
  "inv s \<Longrightarrow> (\<And>v. peek k s = Some v \<Longrightarrow> w = Some v)
     \<Longrightarrow> peek k (fold (run_op put touch clear) ops s) = Some v \<Longrightarrow> last_put k ops w = Some v"
proof (induction ops arbitrary: s w)
  case Nil
  then show ?case by simp
next
  case (Cons x ops)
  show ?case
  proof (cases x)
    case (Put k' e)
    have "(if k' = k then Some e else w) = Some u" if "peek k (put k' e s) = Some u" for u
      using peek_put_cases [OF Cons.prems(1) that] Cons.prems(2) by auto
    from Cons.IH [OF inv_put [OF Cons.prems(1)] this] Cons.prems(3) Put
    show ?thesis by simp
  next
    case (Touch k')
    from Cons.IH [OF inv_touch [OF Cons.prems(1)], of k' w] Cons.prems Touch
    show ?thesis by (simp add: peek_touch)
  next
    case Clear
    from Cons.IH [OF inv_clear [OF Cons.prems(1)], of None] Cons.prems Clear
    show ?thesis by (simp add: peek_clear)
  qed
qed

end

definition shard_peek :: "string \<Rightarrow> shard \<Rightarrow> entry option" where
  "shard_peek k s = map_of (s_map s) k"

lemma map_of_view: "shard_ok s \<Longrightarrow> map_of (shard_view s) k = shard_peek k s"
  using map_of_in_keys [of "s_map s" k]
  by (auto simp: shard_view_def map_of_map_restrict restrict_map_def shard_ok_def shard_peek_def)

lemma map_of_drop_Some:
  "distinct (map fst xs) \<Longrightarrow> map_of (drop n xs) k = Some v \<Longrightarrow> map_of xs k = Some v"
  by (metis in_set_dropD map_of_SomeD map_of_is_SomeI)

lemma map_of_lru_without: "map_of (lru_without k v) k' = (if k' = k then None else map_of v k')"
  by (induction v) (auto simp: lru_without_def)

lemma distinct_keys_view: "shard_ok s \<Longrightarrow> distinct (map fst (shard_view s))"
  by (simp add: shard_ok_def shard_view_def comp_def)

lemma shard_get_eq: "shard_get k s = (shard_peek k s, shard_touch k s)"
  by (simp add: shard_get_def shard_peek_def shard_touch_def)

lemma shard_peek_touch [simp]: "shard_peek k' (shard_touch k s) = shard_peek k' s"
  by (simp add: shard_peek_def shard_touch_def)

lemma shard_peek_flush [simp]: "shard_peek k (shard_flush s) = None"
  by (simp add: shard_peek_def shard_flush_def)

interpretation shard_store: entry_store shard_ok shard_peek shard_insert shard_touch shard_flush
proof
  fix s k v k' v'
  assume ok: "shard_ok s"
  let ?v = "lru_without k (shard_view s) @ [(k, v)]"
  have d: "distinct (map fst ?v)"
    using distinct_keys_view [OF ok] by (auto simp: lru_without_def distinct_map_filter)
  have peek: "shard_peek x (shard_insert k v s) = map_of (drop (length ?v - s_cap s) ?v) x" for x
    by (simp add: ok shard_view_insert lru_put_def Let_def flip: map_of_view)
  show "shard_peek k (shard_insert k v s) = Some v"
    by (simp add: shard_peek_def shard_insert_def update_conv' split: prod.splits)
  show "shard_peek k' s = Some v'"
    if "k' \<noteq> k" "shard_peek k' (shard_insert k v s) = Some v'"
  proof -
    have "map_of ?v k' = Some v'"
      using that(2) by (simp only: peek) (rule map_of_drop_Some [OF d])
    with that(1) ok show ?thesis
      by (simp add: map_of_append map_add_def map_of_lru_without map_of_view split: option.splits)
  qed
qed simp_all

end
