(* ===== verification/Metrics.thy ===== *)
theory Metrics
  imports Prelude
begin

text \<open>
  \<^verbatim>\<open>src/metrics.rs\<close>: the counters of a runtime. Each is an atomic \<open>u64\<close> that \<open>fetch_add\<close>
  increments with wrap-around; a snapshot reads them, and the Prometheus text shows a snapshot.
\<close>

record metrics =
  mx_queries :: u64
  mx_responses :: u64
  mx_cache_hits :: u64
  mx_cache_misses :: u64
  mx_cache_lazy_hits :: u64
  mx_upstream_ok :: u64
  mx_upstream_err :: u64
  mx_dropped :: u64
  mx_latency_us_sum :: u64
  mx_started :: nat

definition metrics_new :: "nat \<Rightarrow> metrics" where
  "metrics_new now = \<lparr>mx_queries = 0, mx_responses = 0, mx_cache_hits = 0, mx_cache_misses = 0,
     mx_cache_lazy_hits = 0, mx_upstream_ok = 0, mx_upstream_err = 0, mx_dropped = 0,
     mx_latency_us_sum = 0, mx_started = now\<rparr>"

definition observe_query :: "u64 \<Rightarrow> metrics \<Rightarrow> metrics" where
  "observe_query latency_us x = x\<lparr>mx_queries := mx_queries x + 1,
     mx_latency_us_sum := mx_latency_us_sum x + latency_us\<rparr>"

definition count_hit :: "metrics \<Rightarrow> metrics" where
  "count_hit x = x\<lparr>mx_cache_hits := mx_cache_hits x + 1\<rparr>"

definition count_miss :: "metrics \<Rightarrow> metrics" where
  "count_miss x = x\<lparr>mx_cache_misses := mx_cache_misses x + 1\<rparr>"

definition count_lazy_hit :: "metrics \<Rightarrow> metrics" where
  "count_lazy_hit x = x\<lparr>mx_cache_lazy_hits := mx_cache_lazy_hits x + 1\<rparr>"

definition count_upstream :: "bool \<Rightarrow> metrics \<Rightarrow> metrics" where
  "count_upstream ok x = (if ok then x\<lparr>mx_upstream_ok := mx_upstream_ok x + 1\<rparr>
     else x\<lparr>mx_upstream_err := mx_upstream_err x + 1\<rparr>)"

definition count_outcome :: "bool \<Rightarrow> metrics \<Rightarrow> metrics" where
  \<comment> \<open>\<open>responses\<close> or \<open>dropped\<close>, at the end of a request\<close>
  "count_outcome answered x = (if answered then x\<lparr>mx_responses := mx_responses x + 1\<rparr>
     else x\<lparr>mx_dropped := mx_dropped x + 1\<rparr>)"

record snapshot =
  sn_queries :: u64
  sn_responses :: u64
  sn_cache_hits :: u64
  sn_cache_misses :: u64
  sn_cache_lazy_hits :: u64
  sn_upstream_ok :: u64
  sn_upstream_err :: u64
  sn_dropped :: u64
  sn_avg_latency_us :: u64
  sn_uptime_secs :: u64

definition metrics_snapshot :: "nat \<Rightarrow> metrics \<Rightarrow> snapshot" where
  "metrics_snapshot now x = \<lparr>
     sn_queries = mx_queries x, sn_responses = mx_responses x, sn_cache_hits = mx_cache_hits x,
     sn_cache_misses = mx_cache_misses x, sn_cache_lazy_hits = mx_cache_lazy_hits x,
     sn_upstream_ok = mx_upstream_ok x, sn_upstream_err = mx_upstream_err x,
     sn_dropped = mx_dropped x,
     sn_avg_latency_us = (if mx_queries x = 0 then 0 else mx_latency_us_sum x div mx_queries x),
     sn_uptime_secs = of_nat ((now - mx_started x) div 1000000000)\<rparr>"

definition prom_lines :: "snapshot \<Rightarrow> (string \<times> string \<times> u64) list" where
  \<comment> \<open>name, type and value of each sample, in the order of the text\<close>
  "prom_lines s =
     [(''ferrumdns_queries_total'', ''counter'', sn_queries s),
      (''ferrumdns_responses_total'', ''counter'', sn_responses s),
      (''ferrumdns_cache_hits_total'', ''counter'', sn_cache_hits s),
      (''ferrumdns_cache_misses_total'', ''counter'', sn_cache_misses s),
      (''ferrumdns_upstream_ok_total'', ''counter'', sn_upstream_ok s),
      (''ferrumdns_upstream_err_total'', ''counter'', sn_upstream_err s),
      (''ferrumdns_avg_latency_microseconds'', ''gauge'', sn_avg_latency_us s),
      (''ferrumdns_uptime_seconds'', ''gauge'', sn_uptime_secs s)]"

definition prom_line :: "string \<times> string \<times> u64 \<Rightarrow> string" where
  "prom_line = (\<lambda>(name, ty, v). ''# TYPE '' @ name @ '' '' @ ty @ [CHR 0x0A]
     @ name @ '' '' @ show_word v @ [CHR 0x0A])"

definition prometheus :: "nat \<Rightarrow> metrics \<Rightarrow> string" where
  "prometheus now x = ''# HELP ferrumdns_queries_total Total DNS queries'' @ [CHR 0x0A]
     @ concat (map prom_line (prom_lines (metrics_snapshot now x)))"

end
