(* ===== verification/Cache.thy ===== *)
theory Cache
  imports Shard Metrics
begin

text \<open>
  \<^verbatim>\<open>src/plugin/cache.rs\<close> above one shard: the sharded cache with its keys, deadlines and lazy
  refresh, and the plugin step. A cache entry carries the wire form of a message that was worth
  storing, and a key determines the question, the subnet and the DNSSEC mode it answers.

  A lock is held for one operation, so an operation is atomic and a cache shared by many requests
  goes through some sequence of the operations below. The clock is an argument: an instant in
  nanoseconds for an operation that reads it once, the sequence of successive readings for one
  that reads it more often. The \<open>Weak<Runtime>\<close> a cache is bound to is resolved when the
  refresh job runs, by the runtime that owns the cache.
\<close>

section \<open>The sharded cache\<close>

record cache =
  ca_tag :: string
  ca_shards :: "shard list"
  ca_lazy_ttl :: nat
  ca_lazy_reply :: u32
  ca_everything :: bool
  ca_refresh :: "string option"
  ca_inflight :: "string set"

record 'n cache_lookup_key =
  cl_key :: string
  cl_query :: "'n message"
  cl_rewrite_start :: nat

definition cache_from_args :: "string \<Rightarrow> yaml \<Rightarrow> cache" where
  "cache_from_args tag args =
     (let size = (case Option.bind (y_get ''size'' args) y_as_u64 of
            Some n \<Rightarrow> unat n | None \<Rightarrow> 8192);
          per = max (size div 16) 32;
          lazy_arg = (case y_get ''lazy_cache_ttl'' args of
            Some v \<Rightarrow> Some v | None \<Rightarrow> y_get ''lazy_ttl'' args);
          lazy = (case Option.bind lazy_arg y_as_u64 of Some n \<Rightarrow> unat n | None \<Rightarrow> 0);
          lazy_reply = ucast (case Option.bind (y_get ''lazy_cache_reply_ttl'' args) y_as_u64 of
            Some n \<Rightarrow> n | None \<Rightarrow> 5) :: u32
      in \<lparr>ca_tag = tag, ca_shards = replicate 16 (shard_new per), ca_lazy_ttl = nanos lazy,
          ca_lazy_reply = max lazy_reply 1,
          ca_everything = (case Option.bind (y_get ''cache_everything'' args) y_as_bool of
            Some b \<Rightarrow> b | None \<Rightarrow> False),
          ca_refresh = None, ca_inflight = {}\<rparr>)"

definition shard_index :: "string \<Rightarrow> nat \<Rightarrow> nat" where
  "shard_index key n =
     unat (fold (\<lambda>b h. (h * 16777619) XOR of_nat (of_char b)) key (0 :: u64)) mod n"

definition shard_of :: "string \<Rightarrow> cache \<Rightarrow> shard" where
  "shard_of k ca = ca_shards ca ! shard_index k (length (ca_shards ca))"

definition with_shard :: "string \<Rightarrow> (shard \<Rightarrow> shard) \<Rightarrow> cache \<Rightarrow> cache" where
  "with_shard k f ca =
     ca\<lparr>ca_shards := (ca_shards ca)[shard_index k (length (ca_shards ca)) := f (shard_of k ca)]\<rparr>"

subsection \<open>Keys\<close>

definition cacheable_edns :: "'n message \<Rightarrow> bool" where
  "cacheable_edns m = (case m_edns m of None \<Rightarrow> True
     | Some e \<Rightarrow> list_all (\<lambda>(code, _). code = SubnetCode) (ed_options e))"

definition hex_byte :: "u8 \<Rightarrow> string" where
  \<comment> \<open>\<open>{:02x}\<close>\<close>
  "hex_byte b = (let h = show_hex (unat b) in if length h < 2 then ''0'' @ h else h)"

definition wire_key :: "u8 list \<Rightarrow> string" where
  "wire_key wire = ''wire:['' @
     (case map hex_byte wire of [] \<Rightarrow> [] | h # hs \<Rightarrow> h @ concat (map (\<lambda>x. '', '' @ x) hs)) @ '']''"

definition simple_query :: "'n message \<Rightarrow> bool" where
  "simple_query q \<longleftrightarrow>
     length (m_queries q) = 1 \<and> m_answers q = [] \<and> m_name_servers q = [] \<and> m_additionals q = []"

definition edns_key :: "edns option \<Rightarrow> string" where
  "edns_key x = (case x of None \<Rightarrow> ''None''
     | Some e \<Rightarrow> ''Some(('' @ show_word (ed_version e) @ '', '' @ show_bool (ed_do e) @ ''))'')"

definition question_key :: "'n lib \<Rightarrow> 'n message \<Rightarrow> 'n query \<Rightarrow> string" where
  "question_key L q q0 =
     to_ascii_lowercase (trim_end_matches (CHR ''.'') (name_ascii L (q_name q0))) @ ''|'' @
     rt_debug L (q_type q0) @ ''|'' @ class_debug L (q_class q0) @ ''|'' @
     ecs_cache_key q @ ''|'' @ (''rd='' @ show_bool (m_rd q)) @ ''|'' @
     (''cd='' @ show_bool (m_cd q)) @ ''|'' @ (''ad='' @ show_bool (m_ad q)) @ ''|'' @
     (''edns='' @ edns_key (m_edns q))"

definition key_of :: "'n lib \<Rightarrow> bool \<Rightarrow> 'n ctx \<Rightarrow> string option" where
  "key_of L everything c =
     (let q = c_query c in
      if \<not> cacheable_edns q then None
      else if \<not> simple_query q \<and> \<not> everything then None
      else if \<not> simple_query q
      then (case dns_encode L (q\<lparr>m_id := 0\<rparr>) of
              Inl e \<Rightarrow> None | Inr wire \<Rightarrow> Some (wire_key wire))
      else (case m_queries q of [] \<Rightarrow> None | q0 # _ \<Rightarrow> Some (question_key L q q0)))"

definition cache_snapshot :: "'n lib \<Rightarrow> 'n ctx \<Rightarrow> cache \<Rightarrow> 'n cache_lookup_key option" where
  "cache_snapshot L c ca = map_option
     (\<lambda>k. \<lparr>cl_key = k, cl_query = c_query c, cl_rewrite_start = rewrite_count c\<rparr>)
     (key_of L (ca_everything ca) c)"

subsection \<open>Reading and writing\<close>

definition instant_add :: "instant \<Rightarrow> nat \<Rightarrow> instant option" where
  \<comment> \<open>\<open>Instant + Duration\<close>: the seconds of an \<open>Instant\<close> are an \<open>i64\<close>, an overflow panics\<close>
  "instant_add t d = (if (t + d) div 1000000000 < 2 ^ 63 then Some (t + d) else None)"

definition cache_lookup ::
    "instant \<Rightarrow> string \<Rightarrow> cache \<Rightarrow> (u8 list \<times> bool \<times> instant) option \<times> cache" where
  "cache_lookup now k ca =
     (case shard_get k (shard_of k ca) of
        (x, s) \<Rightarrow>
          ((case x of
              None \<Rightarrow> None
            | Some e \<Rightarrow>
                (if e_expire e \<le> now then None
                 else Some (e_wire e, e_ttl_deadline e \<le> now \<and> 0 < ca_lazy_ttl ca, e_stored e))),
           with_shard k (\<lambda>_. s) ca))"

definition cache_store :: "'n lib \<Rightarrow> instant \<Rightarrow> string \<Rightarrow> 'n message \<Rightarrow> cache \<Rightarrow> cache option" where
  \<comment> \<open>\<open>None\<close> is the panic of an instant that overflows\<close>
  "cache_store L now k resp ca =
     (if m_rcode resp \<noteq> NoError \<or> m_tc resp \<or> \<not> cacheable_edns resp then Some ca
      else (case dns_encode L resp of
          Inl e \<Rightarrow> Some ca
        | Inr wire \<Rightarrow>
            (if min_ttl resp = 0 then Some ca
             else (case instant_add now (nanos (unat (min_ttl resp))) of
                 None \<Rightarrow> None
               | Some deadline \<Rightarrow>
                   (case (if 0 < ca_lazy_ttl ca
                          then map_option (max deadline) (instant_add now (ca_lazy_ttl ca))
                          else Some deadline) of
                      None \<Rightarrow> None
                    | Some ex \<Rightarrow>
                        Some (with_shard k (shard_insert k \<lparr>e_wire = wire, e_stored = now,
                          e_ttl_deadline = deadline, e_expire = ex\<rparr>) ca))))))"

definition cache_flush :: "cache \<Rightarrow> cache" where
  "cache_flush ca = ca\<lparr>ca_shards := map shard_flush (ca_shards ca)\<rparr>"

definition cache_len :: "cache \<Rightarrow> nat" where
  "cache_len ca = sum_list (map shard_len (ca_shards ca))"

definition cache_store_lookup ::
    "'n lib \<Rightarrow> instant \<Rightarrow> 'n ctx \<Rightarrow> 'n cache_lookup_key \<Rightarrow> cache \<Rightarrow> cache option" where
  "cache_store_lookup L now c l ca =
     (if c_from_cache c \<or> (case c_response c of None \<Rightarrow> False | Some r \<Rightarrow> \<not> cacheable_edns r)
      then Some ca
      else (case response_for_query L (cl_query l) (cl_rewrite_start l) c of
          None \<Rightarrow> Some ca
        | Some r \<Rightarrow> cache_store L now (cl_key l) r ca))"

definition cache_maybe_store :: "'n lib \<Rightarrow> instant \<Rightarrow> 'n ctx \<Rightarrow> cache \<Rightarrow> cache option" where
  "cache_maybe_store L now c ca = (case cache_snapshot L c ca of
     None \<Rightarrow> Some ca | Some l \<Rightarrow> cache_store_lookup L now c l ca)"

subsection \<open>Lazy refresh and the plugin step\<close>

record 'n refresh_job =
  rj_key :: string
  rj_entry :: string
  rj_ctx :: "'n ctx"

definition bind_refresh :: "string \<Rightarrow> cache \<Rightarrow> cache" where
  \<comment> \<open>\<open>OnceLock::set\<close>: the first binding stays\<close>
  "bind_refresh entry ca =
     (case ca_refresh ca of None \<Rightarrow> ca\<lparr>ca_refresh := Some entry\<rparr> | Some _ \<Rightarrow> ca)"

definition kick_refresh ::
    "u64 \<Rightarrow> instant \<Rightarrow> 'n ctx \<Rightarrow> string \<Rightarrow> cache \<Rightarrow> 'n refresh_job option \<times> cache" where
  "kick_refresh i now c key ca =
     (if c_skip_cache c then (None, ca)
      else (case ca_refresh ca of
          None \<Rightarrow> (None, ca)
        | Some entry \<Rightarrow>
            (if key \<in> ca_inflight ca then (None, ca)
             else (Some \<lparr>rj_key = key,
                     rj_entry = (case c_pipeline_entry c of Some e \<Rightarrow> e | None \<Rightarrow> entry),
                     rj_ctx = clone_for_lazy i now c\<rparr>,
                   ca\<lparr>ca_inflight := insert key (ca_inflight ca)\<rparr>))))"

definition refresh_done :: "string \<Rightarrow> cache \<Rightarrow> cache" where
  \<comment> \<open>\<open>Drop for RefreshGuard\<close>, however the background task ends\<close>
  "refresh_done key ca = ca\<lparr>ca_inflight := ca_inflight ca - {key}\<rparr>"

definition cache_exec ::
    "'n lib \<Rightarrow> (nat \<Rightarrow> instant) \<Rightarrow> u64 \<Rightarrow> 'n ctx \<Rightarrow> cache \<Rightarrow> metrics
      \<Rightarrow> 'n ctx \<times> cache \<times> metrics \<times> 'n refresh_job option" where
  \<comment> \<open>one step; that the lookup and the start of a refresh take their locks one after the other shows in
      the step relation \<open>cache_step\<close>\<close>
  "cache_exec L clk i c ca mx =
     (case key_of L (ca_everything ca) c of
        None \<Rightarrow> (c, ca, mx, None)
      | Some key \<Rightarrow>
          (if c_skip_cache c
           then (push_trace (clk 0) (ca_tag ca) ''miss'' ''refresh'' c, ca, count_miss mx, None)
           else (case cache_lookup (clk 0) key ca of
               (hit, ca1) \<Rightarrow>
                 (case Option.bind hit (\<lambda>(wire, lazy, stored).
                         (case dns_decode L wire of Inl e \<Rightarrow> None | Inr m \<Rightarrow> Some (m, lazy, stored))) of
                    None \<Rightarrow>
                      (push_trace (clk 1) (ca_tag ca) ''miss'' key c, ca1, count_miss mx, None)
                  | Some (m, lazy, stored) \<Rightarrow>
                      (if lazy
                       then (let c1 = push_trace (clk 2) (ca_tag ca) ''lazy_hit'' key c;
                                 (job, ca2) = kick_refresh i (clk 3) c1 key ca1;
                                 r = rebind_response (set_all_ttl (ca_lazy_reply ca) m) (c_query c1)
                             in ((set_response r c1)\<lparr>c_from_cache := True\<rparr>, ca2,
                                 count_hit (count_lazy_hit mx), job))
                       else (let elapsed = of_nat ((clk 1 - stored) div 1000000000);
                                 c1 = push_trace (clk 2) (ca_tag ca) ''hit'' key c;
                                 r = rebind_response (subtract_ttl elapsed m) (c_query c1)
                             in ((set_response r c1)\<lparr>c_from_cache := True\<rparr>, ca1,
                                 count_hit mx, None)))))))"

section \<open>The cache is a store\<close>

definition cache_inv :: "cache \<Rightarrow> bool" where
  "cache_inv ca \<longleftrightarrow> ca_shards ca \<noteq> [] \<and> list_all shard_ok (ca_shards ca)"

definition cache_peek :: "string \<Rightarrow> cache \<Rightarrow> entry option" where
  "cache_peek k ca = shard_peek k (shard_of k ca)"

definition cache_put :: "string \<Rightarrow> entry \<Rightarrow> cache \<Rightarrow> cache" where
  "cache_put k e = with_shard k (shard_insert k e)"

definition cache_touch :: "string \<Rightarrow> cache \<Rightarrow> cache" where
  "cache_touch k = with_shard k (shard_touch k)"

lemma shard_index_less: "0 < n \<Longrightarrow> shard_index k n < n"
  by (simp add: shard_index_def)

lemma shard_of_ok: "cache_inv ca \<Longrightarrow> shard_ok (shard_of k ca)"
  by (simp add: cache_inv_def shard_of_def list_all_length shard_index_less)

lemma with_shard_simps [simp]:
  "ca_tag (with_shard k f ca) = ca_tag ca"
  "ca_lazy_ttl (with_shard k f ca) = ca_lazy_ttl ca"
  "ca_lazy_reply (with_shard k f ca) = ca_lazy_reply ca"
  "ca_everything (with_shard k f ca) = ca_everything ca"
  "ca_refresh (with_shard k f ca) = ca_refresh ca"
  "ca_inflight (with_shard k f ca) = ca_inflight ca"
  "length (ca_shards (with_shard k f ca)) = length (ca_shards ca)"
  by (simp_all add: with_shard_def)

lemma shard_of_with_shard:
  "ca_shards ca \<noteq> [] \<Longrightarrow> shard_of k' (with_shard k f ca) =
     (if shard_index k' (length (ca_shards ca)) = shard_index k (length (ca_shards ca))
      then f (shard_of k ca) else shard_of k' ca)"
  by (simp add: shard_of_def with_shard_def nth_list_update shard_index_less)

lemma cache_inv_with_shard:
  "cache_inv ca \<Longrightarrow> shard_ok (f (shard_of k ca)) \<Longrightarrow> cache_inv (with_shard k f ca)"
  by (auto simp: cache_inv_def with_shard_def list_all_iff dest: set_update_subset_insert [THEN subsetD])

lemma shard_of_same_index:
  "shard_index k' (length (ca_shards ca)) = shard_index k (length (ca_shards ca))
     \<Longrightarrow> shard_of k' ca = shard_of k ca"
  by (simp add: shard_of_def)

lemma cache_inv_nonempty: "cache_inv ca \<Longrightarrow> ca_shards ca \<noteq> []"
  by (simp add: cache_inv_def)

interpretation cache_entries: entry_store cache_inv cache_peek cache_put cache_touch cache_flush
proof
  fix ca k k' v v'
  assume inv: "cache_inv ca"
  note sh = shard_of_with_shard [OF cache_inv_nonempty [OF inv]] and ok = shard_of_ok [OF inv]
  show "cache_inv (cache_put k v ca)" "cache_inv (cache_touch k ca)"
    using inv ok by (simp_all add: cache_put_def cache_touch_def cache_inv_with_shard)
  show "cache_inv (cache_flush ca)"
    using inv by (auto simp: cache_inv_def cache_flush_def list_all_iff)
  show "cache_peek k (cache_put k v ca) = Some v"
    using ok by (simp add: cache_peek_def cache_put_def sh shard_store.peek_put_same)
  show "cache_peek k' ca = Some v'" if "k' \<noteq> k" "cache_peek k' (cache_put k v ca) = Some v'"
    using that shard_store.peek_put_other [OF ok that(1)]
    by (auto simp: cache_peek_def cache_put_def sh split: if_splits
        dest: shard_of_same_index)
  show "cache_peek k' (cache_touch k ca) = cache_peek k' ca"
    by (auto simp: cache_peek_def cache_touch_def sh dest: shard_of_same_index)
  show "cache_peek k (cache_flush ca) = None"
    using cache_inv_nonempty [OF inv]
    by (simp add: cache_peek_def cache_flush_def shard_of_def shard_index_less)
qed

lemma cache_lookup_eq:
  "cache_lookup now k ca =
     ((case cache_peek k ca of
         None \<Rightarrow> None
       | Some e \<Rightarrow> (if e_expire e \<le> now then None
           else Some (e_wire e, e_ttl_deadline e \<le> now \<and> 0 < ca_lazy_ttl ca, e_stored e))),
      cache_touch k ca)"
  by (simp add: cache_lookup_def shard_get_eq cache_peek_def cache_touch_def with_shard_def)

section \<open>What an entry stands for\<close>

text \<open>
  \<open>storable\<close> is what the plugin means to keep. \<open>entry_ok\<close> ties an entry to the message it
  was made of, and \<open>cache_ok\<close> says that of every entry that can be read.
\<close>

definition storable :: "'n message \<Rightarrow> bool" where
  "storable m \<longleftrightarrow> m_rcode m = NoError \<and> \<not> m_tc m \<and> cacheable_edns m \<and> min_ttl m \<noteq> 0"

definition entry_for :: "'n lib \<Rightarrow> nat \<Rightarrow> 'n message \<Rightarrow> entry \<Rightarrow> bool" where
  "entry_for L lazy m e \<longleftrightarrow>
     storable m \<and> wire_encode L m = Some (e_wire e)
       \<and> e_ttl_deadline e = e_stored e + nanos (unat (min_ttl m))
       \<and> e_expire e = (if 0 < lazy then max (e_ttl_deadline e) (e_stored e + lazy)
                       else e_ttl_deadline e)"

definition cache_ok :: "'n lib \<Rightarrow> cache \<Rightarrow> bool" where
  "cache_ok L ca \<longleftrightarrow>
     cache_inv ca \<and> (\<forall>k e. cache_peek k ca = Some e \<longrightarrow> (\<exists>m. entry_for L (ca_lazy_ttl ca) m e))"

named_theorems cache_steps \<open>every operation of the cache keeps its invariant\<close>

lemma cache_inv_new [simp]: "cache_inv (cache_from_args tag args)"
  by (simp add: cache_inv_def cache_from_args_def Let_def list_all_iff)

lemma cache_peek_new [simp]: "cache_peek k (cache_from_args tag args) = None"
  by (simp add: cache_peek_def shard_of_def cache_from_args_def Let_def shard_index_less
      shard_peek_def shard_new_def)

lemma cache_ok_new [cache_steps]: "cache_ok L (cache_from_args tag args)"
  by (simp add: cache_ok_def)

lemma cache_touch_simps [simp]:
  "ca_lazy_ttl (cache_touch k ca) = ca_lazy_ttl ca"
  "ca_lazy_reply (cache_touch k ca) = ca_lazy_reply ca"
  "ca_tag (cache_touch k ca) = ca_tag ca"
  "ca_everything (cache_touch k ca) = ca_everything ca"
  "ca_refresh (cache_touch k ca) = ca_refresh ca"
  "ca_inflight (cache_touch k ca) = ca_inflight ca"
  by (simp_all add: cache_touch_def)

lemma cache_put_simps [simp]:
  "ca_lazy_ttl (cache_put k e ca) = ca_lazy_ttl ca"
  "ca_inflight (cache_put k e ca) = ca_inflight ca"
  by (simp_all add: cache_put_def)

lemma cache_ok_touch [cache_steps]: "cache_ok L ca \<Longrightarrow> cache_ok L (cache_touch k ca)"
  by (simp add: cache_ok_def cache_entries.inv_touch cache_entries.peek_touch)

lemma cache_ok_flush [cache_steps]: "cache_ok L ca \<Longrightarrow> cache_ok L (cache_flush ca)"
  by (simp add: cache_ok_def cache_entries.inv_clear cache_entries.peek_clear)

lemma cache_ok_put:
  "cache_ok L ca \<Longrightarrow> entry_for L (ca_lazy_ttl ca) m e \<Longrightarrow> cache_ok L (cache_put k e ca)"
  by (auto simp: cache_ok_def cache_entries.inv_put dest: cache_entries.peek_put_cases)

lemma cache_frame [simp]:
  "cache_peek k (ca\<lparr>ca_inflight := f\<rparr>) = cache_peek k ca"
  "cache_peek k (ca\<lparr>ca_refresh := r\<rparr>) = cache_peek k ca"
  "cache_inv (ca\<lparr>ca_inflight := f\<rparr>) = cache_inv ca"
  "cache_inv (ca\<lparr>ca_refresh := r\<rparr>) = cache_inv ca"
  by (simp_all add: cache_peek_def shard_of_def cache_inv_def)

lemma instant_add_Some: "instant_add t d = Some x \<Longrightarrow> x = t + d"
  by (simp add: instant_add_def split: if_splits)

lemma cache_store_cases:
  assumes "cache_store L now k resp ca = Some ca'"
  shows "ca' = ca \<or> (\<exists>w x. let e = \<lparr>e_wire = w, e_stored = now,
       e_ttl_deadline = now + nanos (unat (min_ttl resp)), e_expire = x\<rparr> in
     entry_for L (ca_lazy_ttl ca) resp e \<and> ca' = cache_put k e ca)"
  using assms
  by (auto simp: cache_store_def dns_encode_def cache_put_def entry_for_def storable_def Let_def
      dest!: instant_add_Some split: if_splits sum.splits option.splits)

lemma cache_ok_store [cache_steps]:
  "cache_ok L ca \<Longrightarrow> cache_store L now k resp ca = Some ca' \<Longrightarrow> cache_ok L ca'"
  by (auto simp: Let_def dest!: cache_store_cases intro: cache_ok_put)

lemma cache_ok_store_lookup [cache_steps]:
  "cache_ok L ca \<Longrightarrow> cache_store_lookup L now c l ca = Some ca' \<Longrightarrow> cache_ok L ca'"
  by (auto simp: cache_store_lookup_def intro: cache_ok_store split: if_splits option.splits)

lemma cache_ok_maybe_store [cache_steps]:
  "cache_ok L ca \<Longrightarrow> cache_maybe_store L now c ca = Some ca' \<Longrightarrow> cache_ok L ca'"
  by (auto simp: cache_maybe_store_def intro: cache_ok_store_lookup split: option.splits)

lemma cache_ok_lookup [cache_steps]:
  "cache_ok L ca \<Longrightarrow> cache_ok L (snd (cache_lookup now k ca))"
  by (simp add: cache_lookup_eq cache_ok_touch)

lemma cache_ok_bind [cache_steps]: "cache_ok L ca \<Longrightarrow> cache_ok L (bind_refresh en ca)"
  by (simp add: bind_refresh_def cache_ok_def split: option.splits)

lemma cache_ok_done [cache_steps]: "cache_ok L ca \<Longrightarrow> cache_ok L (refresh_done k ca)"
  by (simp add: refresh_done_def cache_ok_def)

lemma cache_ok_kick:
  "cache_ok L ca \<Longrightarrow> cache_ok L (snd (kick_refresh i now c key ca))"
  by (simp add: kick_refresh_def cache_ok_def split: option.splits)

text \<open>The cases of a plugin step.\<close>

definition cache_decoded :: "'n lib \<Rightarrow> instant \<Rightarrow> string \<Rightarrow> cache \<Rightarrow> ('n message \<times> entry) option" where
  \<comment> \<open>specification: the live entry under a key, when its wire form can be read\<close>
  "cache_decoded L now k ca = (case cache_peek k ca of
     None \<Rightarrow> None
   | Some e \<Rightarrow> (if e_expire e \<le> now then None
       else map_option (\<lambda>m. (m, e)) (wire_decode L (e_wire e))))"

definition is_lazy :: "instant \<Rightarrow> cache \<Rightarrow> entry \<Rightarrow> bool" where
  "is_lazy now ca e \<longleftrightarrow> e_ttl_deadline e \<le> now \<and> 0 < ca_lazy_ttl ca"

lemma cache_exec_eq:
  "cache_exec L clk i c ca mx =
     (case key_of L (ca_everything ca) c of
        None \<Rightarrow> (c, ca, mx, None)
      | Some k \<Rightarrow>
          (if c_skip_cache c
           then (push_trace (clk 0) (ca_tag ca) ''miss'' ''refresh'' c, ca, count_miss mx, None)
           else (case cache_decoded L (clk 0) k ca of
               None \<Rightarrow> (push_trace (clk 1) (ca_tag ca) ''miss'' k c, cache_touch k ca,
                          count_miss mx, None)
             | Some (m, e) \<Rightarrow>
                 (if is_lazy (clk 0) ca e
                  then (let c1 = push_trace (clk 2) (ca_tag ca) ''lazy_hit'' k c;
                            jc = kick_refresh i (clk 3) c1 k (cache_touch k ca)
                        in ((set_response (rebind_response (set_all_ttl (ca_lazy_reply ca) m)
                              (c_query c1)) c1)\<lparr>c_from_cache := True\<rparr>, snd jc,
                            count_hit (count_lazy_hit mx), fst jc))
                  else (let c1 = push_trace (clk 2) (ca_tag ca) ''hit'' k c
                        in ((set_response (rebind_response
                              (subtract_ttl (of_nat ((clk 1 - e_stored e) div 1000000000)) m)
                              (c_query c1)) c1)\<lparr>c_from_cache := True\<rparr>,
                            cache_touch k ca, count_hit mx, None))))))"
proof (cases "key_of L (ca_everything ca) c")
  case None
  then show ?thesis by (simp add: cache_exec_def)
next
  case (Some k)
  show ?thesis
  proof (cases "cache_peek k ca")
    case None
    with Some show ?thesis by (simp add: cache_exec_def cache_lookup_eq cache_decoded_def)
  next
    case (Some e)
    with \<open>key_of L (ca_everything ca) c = Some k\<close> show ?thesis
      by (cases "c_skip_cache c"; cases "e_expire e \<le> clk 0"; cases "wire_decode L (e_wire e)";
          cases "e_ttl_deadline e \<le> clk 0"; cases "0 < ca_lazy_ttl ca")
        (simp_all add: cache_exec_def cache_lookup_eq cache_decoded_def is_lazy_def dns_decode_def
          Let_def case_prod_beta)
  qed
qed

lemma cache_decoded_Some:
  "cache_decoded L now k ca = Some (m, e) \<longleftrightarrow>
     cache_peek k ca = Some e \<and> now < e_expire e \<and> wire_decode L (e_wire e) = Some m"
  by (auto simp: cache_decoded_def split: option.splits)

lemma cache_exec_cases:
  assumes "cache_exec L clk i c ca mx = (c', ca', mx', job)"
  obtains
    (uncacheable) "key_of L (ca_everything ca) c = None" "c' = c" "ca' = ca" "job = None"
  | (skipped) k where "key_of L (ca_everything ca) c = Some k" "c_skip_cache c"
      "c' = push_trace (clk 0) (ca_tag ca) ''miss'' ''refresh'' c" "ca' = ca" "job = None"
  | (miss) k where "key_of L (ca_everything ca) c = Some k" "\<not> c_skip_cache c"
      "cache_decoded L (clk 0) k ca = None"
      "c' = push_trace (clk 1) (ca_tag ca) ''miss'' k c" "ca' = cache_touch k ca" "job = None"
  | (lazy) k m e c1 where "key_of L (ca_everything ca) c = Some k" "\<not> c_skip_cache c"
      "cache_decoded L (clk 0) k ca = Some (m, e)" "is_lazy (clk 0) ca e"
      "c1 = push_trace (clk 2) (ca_tag ca) ''lazy_hit'' k c"
      "job = fst (kick_refresh i (clk 3) c1 k (cache_touch k ca))"
      "ca' = snd (kick_refresh i (clk 3) c1 k (cache_touch k ca))"
      "c' = (set_response (rebind_response (set_all_ttl (ca_lazy_reply ca) m) (c_query c1)) c1)
              \<lparr>c_from_cache := True\<rparr>"
  | (fresh) k m e c1 where "key_of L (ca_everything ca) c = Some k" "\<not> c_skip_cache c"
      "cache_decoded L (clk 0) k ca = Some (m, e)" "\<not> is_lazy (clk 0) ca e"
      "c1 = push_trace (clk 2) (ca_tag ca) ''hit'' k c" "ca' = cache_touch k ca" "job = None"
      "c' = (set_response (rebind_response
               (subtract_ttl (of_nat ((clk 1 - e_stored e) div 1000000000)) m) (c_query c1)) c1)
              \<lparr>c_from_cache := True\<rparr>"
proof (cases "key_of L (ca_everything ca) c")
  case None
  show thesis
    by (rule uncacheable [OF None]) (use assms None in \<open>auto simp: cache_exec_eq\<close>)
next
  case k: (Some k)
  show thesis
  proof (cases "c_skip_cache c")
    case True
    show thesis
      by (rule skipped [OF k True]) (use assms k True in \<open>auto simp: cache_exec_eq\<close>)
  next
    case False
    show thesis
    proof (cases "cache_decoded L (clk 0) k ca")
      case None
      show thesis
        by (rule miss [OF k False None]) (use assms k False None in \<open>auto simp: cache_exec_eq\<close>)
    next
      case (Some p)
      obtain m e where p: "p = (m, e)" by (cases p)
      show thesis
      proof (cases "is_lazy (clk 0) ca e")
        case True
        show thesis
          by (rule lazy [OF k False Some [unfolded p] True refl])
            (use assms k False Some p True in \<open>auto simp: cache_exec_eq Let_def\<close>)
      next
        case nl: False
        show thesis
          by (rule fresh [OF k False Some [unfolded p] nl refl])
            (use assms k False Some p nl in \<open>auto simp: cache_exec_eq Let_def\<close>)
      qed
    qed
  qed
qed

lemma cache_ok_exec [cache_steps]:
  assumes ok: "cache_ok L ca" and ex: "cache_exec L clk i c ca mx = (c', ca', mx', job)"
  shows "cache_ok L ca'"
  using ex by (rule cache_exec_cases) (simp_all add: ok cache_ok_touch cache_ok_kick)

lemma evolves_rebind:
  "evolves c c1 \<Longrightarrow> evolves c ((set_response r c1)\<lparr>c_from_cache := True\<rparr>)"
  by (rule evolves_trans [OF evolves_trans [OF _ evolves_set_response] evolves_from_cache])

lemma evolves_cache_exec [evolves_intros]:
  assumes "cache_exec L clk i c ca mx = (c', ca', mx', job)"
  shows "evolves c c'"
  using assms by (rule cache_exec_cases) (simp_all add: evolves_rebind evolves_push_trace)

end
