(* ===== verification/Ecs.thy ===== *)
theory Ecs
  imports Query_Context
begin

text \<open>
  \<^verbatim>\<open>src/plugin/ecs.rs\<close>: the \<open>ecs\<close> and \<open>no_ecs\<close> plugins, the masking of addresses and the filter
  for public addresses, with \<open>parse_ecs_spec\<close> of \<^verbatim>\<open>src/dnsutil.rs\<close>. Every subnet these
  plugins attach is marked for removal from the reply unless the client sent one of its own, and an
  automatic subnet is never made of a private address.
\<close>

section \<open>Addresses\<close>

definition masked :: "'n lib \<Rightarrow> ip \<Rightarrow> u8 \<Rightarrow> ip \<times> u8" where
  "masked L a prefix0 =
     (let prefix = min prefix0 (if is_ipv4 a then 32 else 128) in
      case net_new L a prefix of Some n \<Rightarrow> (net_network L n, prefix) | None \<Rightarrow> (a, prefix))"

definition is_public_v4 :: "ipv4 \<Rightarrow> bool" where
  "is_public_v4 v =
     (if v4_private v \<or> v4_loopback v \<or> v4_link_local v \<or> v4_unspecified v \<or> v4_broadcast v
         \<or> v4_documentation v \<or> v4_multicast v
      then False
      else let o0 = octets v ! 0; o1 = octets v ! 1 in
        if o0 = 100 \<and> o1 AND 0xc0 = 64 then False
        else if o0 = 0 \<or> 224 \<le> o0 then False
        else True)"

fun is_public_ip :: "ip \<Rightarrow> bool" where
  "is_public_ip (V4 v) = is_public_v4 v"
| "is_public_ip (V6 v) =
     (case to_ipv4_mapped v of
        Some v4 \<Rightarrow> is_public_v4 v4
      | None \<Rightarrow> \<not> v6_loopback v \<and> \<not> v6_unspecified v \<and> \<not> v6_multicast v
          \<and> (segments v ! 0) AND 0xfe00 \<noteq> 0xfc00 \<and> (segments v ! 0) AND 0xffc0 \<noteq> 0xfe80)"

definition parse_ecs_spec :: "'n lib \<Rightarrow> string \<Rightarrow> client_subnet res" where
  "parse_ecs_spec L s0 =
     (let s = trim s0 in
      res_bind
        (case split_once (CHR ''/'') s of
           Some (a, p) \<Rightarrow>
             res_bind (ok_or (ConfigErr ''bad ecs addr: '') (parse_ipaddr a)) (\<lambda>i.
             res_bind (ok_or (ConfigErr ''bad ecs prefix'') (parse_word p)) (\<lambda>pre. Inr (i, pre)))
         | None \<Rightarrow>
             res_bind (ok_or (ConfigErr ''bad ecs addr: '') (parse_ipaddr s)) (\<lambda>i.
             Inr (i, if is_ipv4 i then 24 else 48)))
        (\<lambda>(addr, prefix).
           let (net, prefix') = masked L addr prefix
           in Inr \<lparr>cs_addr = net, cs_source = prefix', cs_scope = 0\<rparr>))"

section \<open>The plugins\<close>

record ecs =
  ec_tag :: string
  ec_auto :: bool
  ec_ipv4 :: "ipv4 option"
  ec_ipv6 :: "ipv6 option"
  ec_force :: bool
  ec_mask4 :: u8
  ec_mask6 :: u8

definition parse_mask :: "yaml \<Rightarrow> string \<Rightarrow> u8 \<Rightarrow> u8 \<Rightarrow> u8 res" where
  "parse_mask args key dflt maximum =
     (case y_get key args of
        None \<Rightarrow> Inr dflt
      | Some value \<Rightarrow>
          (case y_as_u64 value of
             Some n \<Rightarrow>
               (if n \<le> ucast maximum then Inr (ucast n)
                else Inl (ConfigErr (''ecs '' @ key @ '' must be an integer in 0..='' @ show_word maximum)))
           | None \<Rightarrow>
               Inl (ConfigErr (''ecs '' @ key @ '' must be an integer in 0..='' @ show_word maximum))))"

definition opt_parse :: "error \<Rightarrow> (string \<Rightarrow> 'a option) \<Rightarrow> string option \<Rightarrow> 'a option res" where
  \<comment> \<open>\<open>map(parse).transpose()?\<close>\<close>
  "opt_parse e f x = (case x of None \<Rightarrow> Inr None
     | Some s \<Rightarrow> res_bind (ok_or e (f s)) (\<lambda>y. Inr (Some y)))"

definition y_bool_or :: "bool \<Rightarrow> string \<Rightarrow> yaml \<Rightarrow> bool" where
  "y_bool_or d key args =
     (case Option.bind (y_get key args) y_as_bool of None \<Rightarrow> d | Some b \<Rightarrow> b)"

definition ecs_from_args :: "string \<Rightarrow> yaml \<Rightarrow> ecs res" where
  "ecs_from_args tag args =
     (let auto = y_bool_or False ''auto'' args in
      res_bind (opt_parse (ConfigErr ''ecs ipv4: '') parse_ipv4
        (Option.bind (y_get ''ipv4'' args) y_as_str)) (\<lambda>v4.
      res_bind (opt_parse (ConfigErr ''ecs ipv6: '') parse_ipv6
        (Option.bind (y_get ''ipv6'' args) y_as_str)) (\<lambda>v6.
      if \<not> auto \<and> v4 = None \<and> v6 = None
      then Inl (ConfigErr ''ecs plugin needs `ipv4`/`ipv6` or `auto: true`'')
      else
        res_bind (parse_mask args ''mask4'' 24 32) (\<lambda>m4.
        res_bind (parse_mask args ''mask6'' 48 128) (\<lambda>m6.
        Inr \<lparr>ec_tag = tag, ec_auto = auto, ec_ipv4 = v4, ec_ipv6 = v6,
             ec_force = y_bool_or False ''force_overwrite'' args,
             ec_mask4 = m4, ec_mask6 = m6\<rparr>)))))"

definition ecs_pick :: "ecs \<Rightarrow> 'n ctx \<Rightarrow> (ip \<times> u8) option" where
  "ecs_pick p c =
     (if ec_auto p
      then (case c_client c of
              None \<Rightarrow> None
            | Some a \<Rightarrow>
                (if \<not> is_public_ip a then None
                 else Some (a, if is_ipv4 a then ec_mask4 p else ec_mask6 p)))
      else
        (let four = map_option (\<lambda>a. (V4 a, ec_mask4 p)) (ec_ipv4 p);
             six = map_option (\<lambda>a. (V6 a, ec_mask6 p)) (ec_ipv6 p)
         in if ctx_qtype c \<noteq> RtAAAA
            then (case four of Some x \<Rightarrow> Some x | None \<Rightarrow> six)
            else (case six of Some x \<Rightarrow> Some x | None \<Rightarrow> four)))"

definition ecs_exec :: "'n lib \<Rightarrow> instant \<Rightarrow> ecs \<Rightarrow> 'n ctx \<Rightarrow> 'n ctx" where
  "ecs_exec L now p c =
     (let existing = ecs_of (c_query c) in
      if existing \<noteq> None \<and> \<not> ec_force p
      then push_trace now (ec_tag p) ''keep'' (ecs_label existing) c
      else (case ecs_pick p c of
          None \<Rightarrow> push_trace now (ec_tag p) ''skip'' ''no public address'' c
        | Some (a, m) \<Rightarrow>
            (let (net, mask) = masked L a m;
                 c1 = (if existing = None then c\<lparr>c_strip := True\<rparr> else c);
                 c2 = c1\<lparr>c_query := set_ecs \<lparr>cs_addr = net, cs_source = mask, cs_scope = 0\<rparr>
                          (c_query c1)\<rparr>
             in push_trace now (ec_tag p) ''attach'' (show_ip net @ ''/'' @ show_word mask) c2)))"

definition no_ecs_exec :: "instant \<Rightarrow> string \<Rightarrow> 'n ctx \<Rightarrow> 'n ctx" where
  "no_ecs_exec now tag c =
     push_trace now tag ''strip'' ''query'' (c\<lparr>c_query := remove_ecs (c_query c), c_strip := True\<rparr>)"

section \<open>Both are legal pipeline steps\<close>

lemma evolves_ecs_exec [evolves_intros]: "evolves c (ecs_exec L now p c)"
proof (cases "ecs_pick p c")
  case None
  then show ?thesis by (simp add: ecs_exec_def Let_def evolves_push_trace)
next
  case (Some am)
  obtain a m net mask where am: "am = (a, m)" and nm: "masked L a m = (net, mask)"
    by (metis prod.exhaust)
  let ?cs = "\<lparr>cs_addr = net, cs_source = mask, cs_scope = 0\<rparr>"
  have "evolves c (c\<lparr>c_strip := True, c_query := set_ecs ?cs (c_query c)\<rparr>)"
    by (rule evolves_attach_ecs)
  moreover have "evolves c (c\<lparr>c_query := set_ecs ?cs (c_query c)\<rparr>)" if "ecs_of (c_query c) \<noteq> None"
    using that by (rule evolves_replace_ecs)
  ultimately show ?thesis
    using Some am nm
    by (auto simp: ecs_exec_def Let_def evolves_push_trace intro: evolves_trans [OF _ evolves_push_trace])
qed

lemma evolves_no_ecs_exec [evolves_intros]: "evolves c (no_ecs_exec now tag c)"
  unfolding no_ecs_exec_def by (rule evolves_trans [OF evolves_no_ecs evolves_push_trace])

lemma ecs_exec_frame:
  "c_rewrites (ecs_exec L now p c) = c_rewrites c"
  "c_original (ecs_exec L now p c) = c_original c"
  by (simp_all add: ecs_exec_def Let_def push_trace_def case_prod_beta split: option.split)

section \<open>Automatic subnets\<close>

lemma ecs_of_push_trace [simp]: "c_query (push_trace now p e d c) = c_query c"
  by (simp add: push_trace_def)

lemma c_strip_push_trace [simp]: "c_strip (push_trace now p e d c) = c_strip c"
  by (simp add: push_trace_def)

lemma ecs_auto_private:
  assumes "ec_auto p" "\<And>a. c_client c = Some a \<Longrightarrow> \<not> is_public_ip a"
  shows "ecs_of (c_query (ecs_exec L now p c)) = ecs_of (c_query c)"
proof -
  have "ecs_pick p c = None"
    using assms by (auto simp: ecs_pick_def split: option.splits)
  then show ?thesis by (simp add: ecs_exec_def Let_def)
qed

end
