(* ===== verification/Hosts.thy ===== *)
theory Hosts
  imports Query_Context Files
begin

text \<open>
  \<^verbatim>\<open>src/plugin/hosts.rs\<close>: the table of local names, its line parser and the plugin step. A name
  of the table is always answered locally: with its addresses of the wanted family, or with an
  empty answer, and a name outside it is left to the rest of the pipeline.
\<close>

type_synonym host_table = "(string \<times> ip list) list"

record hosts =
  ho_tag :: string
  ho_table :: host_table
  ho_ttl :: u32

definition host_key :: "string \<Rightarrow> string" where
  "host_key name = to_ascii_lowercase (trim_end_matches (CHR ''.'') name)"

definition host_push :: "ip \<Rightarrow> string \<Rightarrow> host_table \<Rightarrow> host_table" where
  \<comment> \<open>\<open>entry(key).or_default().push(..)\<close>\<close>
  "host_push a key t = AList.update key ((case map_of t key of None \<Rightarrow> [] | Some l \<Rightarrow> l) @ [a]) t"

definition host_add_name :: "'n lib \<Rightarrow> ip \<Rightarrow> host_table \<Rightarrow> string \<Rightarrow> host_table res" where
  "host_add_name L a t n =
     res_bind (ok_or (ConfigErr (''bad hostname in hosts `'' @ n)) (nm_from_ascii L n)) (\<lambda>_.
     Inr (host_push a (host_key n) t))"

definition hosts_fields :: "string \<Rightarrow> (ip \<times> string list) option" where
  \<comment> \<open>both \<open>ip name..\<close> and \<open>name ip\<close>\<close>
  "hosts_fields line =
     (let parts = split_whitespace line;
          first = (case parts of [] \<Rightarrow> [] | p # _ \<Rightarrow> p);
          rest = drop 1 parts
      in case parse_ipaddr first of
           Some a \<Rightarrow> Some (a, rest)
         | None \<Rightarrow>
             (case rest of
                [r] \<Rightarrow> map_option (\<lambda>a. (a, [first])) (parse_ipaddr r)
              | _ \<Rightarrow> None))"

definition parse_hosts_line :: "'n lib \<Rightarrow> host_table \<Rightarrow> string \<Rightarrow> host_table res" where
  "parse_hosts_line L t line0 =
     (let line = trim (hd (split_char (CHR ''#'') line0)) in
      if line = [] \<or> hd line = CHR ''#'' then Inr t
      else (case hosts_fields line of
          None \<Rightarrow> Inl (ConfigErr (''bad hosts line: '' @ line))
        | Some (a, names) \<Rightarrow>
            (if names = [] then Inl (ConfigErr (''hosts line needs a hostname: '' @ line))
             else res_fold (host_add_name L a) t names)))"

definition hosts_load_file :: "'n lib \<Rightarrow> files \<Rightarrow> host_table \<Rightarrow> string \<Rightarrow> host_table res" where
  "hosts_load_file L fs t path =
     res_bind (read_to_string fs path) (\<lambda>text. res_fold (parse_hosts_line L) t (str_lines text))"

definition hosts_map_line :: "yaml \<times> yaml \<Rightarrow> string option" where
  "hosts_map_line kv = (case (y_as_str (fst kv), y_as_str (snd kv)) of
     (Some name, Some a) \<Rightarrow> Some (a @ '' '' @ name) | _ \<Rightarrow> None)"

definition hosts_from_args :: "'n lib \<Rightarrow> files \<Rightarrow> string \<Rightarrow> yaml \<Rightarrow> string \<Rightarrow> hosts res" where
  "hosts_from_args L fs tag args base =
     (let ttl = ucast (case Option.bind (y_get ''ttl'' args) y_as_u64 of
            Some n \<Rightarrow> n | None \<Rightarrow> 60) :: u32;
          pairs = (case Option.bind (y_get ''hosts'' args) y_as_map of None \<Rightarrow> [] | Some m \<Rightarrow> m)
      in res_bind (res_fold (parse_hosts_line L) [] (y_strings ''entries'' args)) (\<lambda>t1.
         res_bind (res_fold (\<lambda>t p. hosts_load_file L fs t (resolve_path base p)) t1
                     (y_strings ''files'' args)) (\<lambda>t2.
         res_bind (res_fold (parse_hosts_line L) t2 (List.map_filter hosts_map_line pairs)) (\<lambda>t3.
         Inr \<lparr>ho_tag = tag, ho_table = t3, ho_ttl = ttl\<rparr>))))"

definition host_record :: "u32 \<Rightarrow> 'n \<Rightarrow> record_type \<Rightarrow> ip \<Rightarrow> 'n rr option" where
  "host_record ttl n qt a =
     (case a of
        V4 x \<Rightarrow> if qt = RtA \<or> qt = RtANY then Some (record_a n ttl x) else None
      | V6 x \<Rightarrow> if qt = RtAAAA \<or> qt = RtANY then Some (record_aaaa n ttl x) else None)"

definition hosts_lookup :: "'n lib \<Rightarrow> hosts \<Rightarrow> string \<Rightarrow> record_type \<Rightarrow> 'n rr list" where
  "hosts_lookup L h name qt =
     (let key = host_key name in
      case map_of (ho_table h) key of
        None \<Rightarrow> []
      | Some recs \<Rightarrow>
          (case nm_from_str L (key @ ''.'') of
             None \<Rightarrow> []
           | Some n \<Rightarrow> List.map_filter (host_record (ho_ttl h) n qt) recs))"

definition hosts_known :: "hosts \<Rightarrow> string \<Rightarrow> bool" where
  "hosts_known h name \<longleftrightarrow> map_of (ho_table h) (host_key name) \<noteq> None"

definition hosts_exec :: "'n lib \<Rightarrow> instant \<Rightarrow> hosts \<Rightarrow> 'n ctx \<Rightarrow> 'n ctx" where
  "hosts_exec L now h c =
     (let name = qname_str L c;
          recs = hosts_lookup L h name (ctx_qtype c)
      in if recs \<noteq> []
         then (let c1 = push_trace now (ho_tag h) ''hit'' name c
               in set_response (build_hosts_response (c_query c1) recs) c1)
         else if hosts_known h name
         then (let c1 = push_trace now (ho_tag h) ''nodata'' name c
               in set_response (build_hosts_response (c_query c1) []) c1)
         else c)"

lemma evolves_hosts_exec [evolves_intros]: "evolves c (hosts_exec L now h c)"
  by (auto simp: hosts_exec_def Let_def
      intro: evolves_trans [OF evolves_push_trace evolves_set_response])

section \<open>The table is what the lines say\<close>

definition host_ips :: "host_table \<Rightarrow> string \<Rightarrow> ip list" where
  "host_ips t key = (case map_of t key of None \<Rightarrow> [] | Some l \<Rightarrow> l)"

lemma host_ips_push:
  "host_ips (host_push a k t) k' = host_ips t k' @ (if k' = k then [a] else [])"
  by (auto simp: host_ips_def host_push_def update_conv' split: option.splits)

lemma host_names_fold:
  "res_fold (host_add_name L a) t ns = Inr t' \<Longrightarrow>
     host_ips t' k = host_ips t k @ replicate (length (filter (\<lambda>n. host_key n = k) ns)) a"
proof (induction ns arbitrary: t)
  case Nil
  then show ?case by simp
next
  case (Cons n ns)
  then obtain t1 where t1: "host_add_name L a t n = Inr t1" and
    "res_fold (host_add_name L a) t1 ns = Inr t'"
    by auto
  moreover have "t1 = host_push a (host_key n) t"
    using t1 by (auto simp: host_add_name_def)
  ultimately have "res_fold (host_add_name L a) (host_push a (host_key n) t) ns = Inr t'"
    by simp
  from Cons.IH [OF this] show ?case by (auto simp: host_ips_push)
qed

definition line_ips :: "string \<Rightarrow> string \<Rightarrow> ip list" where
  \<comment> \<open>specification: what one line contributes to a name\<close>
  "line_ips key line0 =
     (let line = trim (hd (split_char (CHR ''#'') line0)) in
      if line = [] \<or> hd line = CHR ''#'' then []
      else (case hosts_fields line of
          None \<Rightarrow> []
        | Some (a, names) \<Rightarrow> replicate (length (filter (\<lambda>n. host_key n = key) names)) a))"

lemma host_ips_line:
  "parse_hosts_line L t line = Inr t' \<Longrightarrow> host_ips t' k = host_ips t k @ line_ips k line"
  by (auto simp: parse_hosts_line_def line_ips_def Let_def host_names_fold
      split: if_splits option.splits prod.splits)

lemma host_ips_lines:
  "res_fold (parse_hosts_line L) t ls = Inr t' \<Longrightarrow>
     host_ips t' k = host_ips t k @ concat (map (line_ips k) ls)"
  by (induction ls arbitrary: t) (auto simp: host_ips_line)

lemma host_ips_files:
  "res_fold (\<lambda>t p. hosts_load_file L fs t (resolve_path base p)) t ps = Inr t' \<Longrightarrow>
     host_ips t' k = host_ips t k
       @ concat (map (\<lambda>p. concat (map (line_ips k) (str_lines (the (fs (resolve_path base p)))))) ps)"
proof (induction ps arbitrary: t)
  case Nil
  then show ?case by simp
next
  case (Cons p ps)
  then obtain t1 tx where
    "fs (resolve_path base p) = Some tx" "res_fold (parse_hosts_line L) t (str_lines tx) = Inr t1"
    "res_fold (\<lambda>t p. hosts_load_file L fs t (resolve_path base p)) t1 ps = Inr t'"
    by (auto simp: hosts_load_file_def read_to_string_def)
  with Cons.IH show ?case by (simp add: host_ips_lines)
qed

end
