(* ===== verification/Endpoint.thy ===== *)
theory Endpoint
  imports Query_Context
begin

text \<open>
  The text of an upstream in \<^verbatim>\<open>src/upstream.rs\<close>: the specification read from YAML, the
  scheme, host and port of an address, the normalised \<open>host:port\<close>, the socket address of a pinned or
  bootstrap server, and the kind of upstream an address selects.
\<close>

section \<open>Socket addresses\<close>

record socket_addr =
  \<comment> \<open>\<open>std::net::SocketAddr\<close>; the scope is that of an IPv6 address and 0 otherwise\<close>
  sa_ip :: ip
  sa_port :: u16
  sa_scope :: u32

definition socket_addr_new :: "ip \<Rightarrow> u16 \<Rightarrow> socket_addr" where
  "socket_addr_new a p = \<lparr>sa_ip = a, sa_port = p, sa_scope = 0\<rparr>"

definition read_port :: "string \<Rightarrow> (u16 \<times> string) option" where
  "read_port s = Option.bind (read_char (CHR '':'') s) (\<lambda>r.
     map_option (\<lambda>(n, r'). (of_nat n, r')) (read_number 10 (length r) True 65536 r))"

definition read_scope :: "string \<Rightarrow> u32 \<times> string" where
  \<comment> \<open>\<open>read_scope_id().unwrap_or(0)\<close>\<close>
  "read_scope s =
     (case Option.bind (read_char (CHR ''%'') s) (\<lambda>r. read_number 10 (length r) True (2 ^ 32) r) of
        Some (n, r) \<Rightarrow> (of_nat n, r) | None \<Rightarrow> (0, s))"

definition read_socket_v4 :: "string \<Rightarrow> (socket_addr \<times> string) option" where
  "read_socket_v4 s = Option.bind (read_ipv4 s) (\<lambda>(a, r).
     map_option (\<lambda>(p, r'). (socket_addr_new (V4 a) p, r')) (read_port r))"

definition read_socket_v6 :: "string \<Rightarrow> (socket_addr \<times> string) option" where
  "read_socket_v6 s = Option.bind (read_char (CHR ''['') s) (\<lambda>r0.
     Option.bind (read_ipv6 r0) (\<lambda>(a, r1).
     case read_scope r1 of (sc, r2) \<Rightarrow>
     Option.bind (read_char (CHR '']'') r2) (\<lambda>r3.
     map_option (\<lambda>(p, r4). (\<lparr>sa_ip = V6 a, sa_port = p, sa_scope = sc\<rparr>, r4)) (read_port r3))))"

definition parse_socket_addr :: "string \<Rightarrow> socket_addr option" where
  \<comment> \<open>\<open>str::parse::<SocketAddr>()\<close>\<close>
  "parse_socket_addr = parse_all (\<lambda>s. case read_socket_v4 s of
     Some x \<Rightarrow> Some x | None \<Rightarrow> read_socket_v6 s)"

section \<open>Specification\<close>

record upstream_spec =
  us_addr :: string
  us_dial_addr :: "string option"
  us_bootstrap :: "string option"
  us_idle_timeout :: nat
  us_insecure :: bool
  us_tag :: "string option"

definition spec_from_value :: "yaml \<Rightarrow> upstream_spec res" where
  \<comment> \<open>\<open>UpstreamSpec::from_value\<close>; the idle timeout is in nanoseconds\<close>
  "spec_from_value v =
     (case y_as_str v of
        Some s \<Rightarrow> Inr \<lparr>us_addr = s, us_dial_addr = None, us_bootstrap = None,
          us_idle_timeout = nanos 10, us_insecure = False, us_tag = None\<rparr>
      | None \<Rightarrow>
          res_bind (ok_or (ConfigErr ''upstream missing addr'')
            (Option.bind (y_get ''addr'' v) y_as_str)) (\<lambda>addr.
          Inr \<lparr>us_addr = addr,
            us_dial_addr = Option.bind (y_get ''dial_addr'' v) y_as_str,
            us_bootstrap = Option.bind (y_get ''bootstrap'' v) y_as_str,
            us_idle_timeout = nanos (case Option.bind (y_get ''idle_timeout'' v) y_as_u64 of
              Some n \<Rightarrow> unat n | None \<Rightarrow> 10),
            us_insecure = (case Option.bind (case y_get ''insecure_skip_verify'' v of
                Some x \<Rightarrow> Some x | None \<Rightarrow> y_get ''insecure'' v) y_as_bool of
              Some b \<Rightarrow> b | None \<Rightarrow> False),
            us_tag = Option.bind (y_get ''tag'' v) y_as_str\<rparr>))"

section \<open>Hosts and ports\<close>

fun split_once_str :: "string \<Rightarrow> string \<Rightarrow> (string \<times> string) option" where
  \<comment> \<open>the text before and after the first occurrence of a pattern (\<open>str::find\<close>)\<close>
  "split_once_str pat [] = (case strip_prefix pat [] of Some r \<Rightarrow> Some ([], r) | None \<Rightarrow> None)"
| "split_once_str pat (x # xs) =
     (case strip_prefix pat (x # xs) of
        Some r \<Rightarrow> Some ([], r)
      | None \<Rightarrow> map_option (\<lambda>(a, b). (x # a, b)) (split_once_str pat xs))"

definition split_scheme :: "string \<Rightarrow> string \<times> string" where
  "split_scheme addr = (case split_once_str ''://'' addr of Some p \<Rightarrow> p | None \<Rightarrow> ([], addr))"

definition host_of :: "string \<Rightarrow> string" where
  "host_of rest0 =
     (let rest = hd (split_char (CHR ''/'') rest0) in
      case strip_prefix ''['' rest of
        Some inner \<Rightarrow> hd (split_char (CHR '']'') inner)
      | None \<Rightarrow>
          (if parse_ipv6 rest \<noteq> None then rest
           else (case rsplit_once (CHR '':'') rest of
               Some (h, p) \<Rightarrow> (if (parse_word p :: u16 option) \<noteq> None then h else rest)
             | None \<Rightarrow> rest)))"

definition port_of :: "string \<Rightarrow> u16 \<Rightarrow> u16" where
  "port_of hostport dflt =
     (let rest = hd (split_char (CHR ''/'') hostport) in
      case strip_prefix ''['' rest of
        Some inner \<Rightarrow>
          (case (case split_char (CHR '']'') inner of
                   _ # s # _ \<Rightarrow> Option.bind (strip_prefix '':'' s) parse_word
                 | _ \<Rightarrow> None) of
             Some p \<Rightarrow> p | None \<Rightarrow> dflt)
      | None \<Rightarrow>
          (if parse_ipv6 rest \<noteq> None then dflt
           else (case Option.bind (rsplit_once (CHR '':'') rest) (\<lambda>(_, p). parse_word p) of
               Some p \<Rightarrow> p | None \<Rightarrow> dflt)))"

definition normalize_hostport :: "string \<Rightarrow> u16 \<Rightarrow> string" where
  "normalize_hostport rest0 default_port =
     (let rest = hd (split_char (CHR ''/'') rest0) in
      if strip_prefix ''['' rest \<noteq> None
      then (if split_once_str '']:'' rest \<noteq> None then rest
            else rest @ '':'' @ show_word default_port)
      else if parse_ipv6 rest \<noteq> None then ''['' @ rest @ '']:'' @ show_word default_port
      else if length (filter (\<lambda>c. c = CHR '':'') rest) = 1 then rest
      else rest @ '':'' @ show_word default_port)"

definition url_host_port :: "string \<Rightarrow> u16 \<Rightarrow> (string \<times> u16) res" where
  "url_host_port url default_port =
     (let rest = (case split_once_str ''://'' url of
            Some (_, r) \<Rightarrow> (case split_once_str ''://'' r of Some (a, _) \<Rightarrow> a | None \<Rightarrow> r)
          | None \<Rightarrow> url);
          authority = hd (split_char (CHR ''/'') rest)
      in Inr (to_ascii_lowercase (host_of authority), port_of authority default_port))"

definition strip_suffix :: "'a list \<Rightarrow> 'a list \<Rightarrow> 'a list option" where
  "strip_suffix p s = map_option rev (strip_prefix (rev p) (rev s))"

definition parse_ip_port :: "string \<Rightarrow> u16 \<Rightarrow> socket_addr res" where
  "parse_ip_port s0 default_port =
     (let s = trim s0 in
      case parse_socket_addr s of
        Some a \<Rightarrow> Inr a
      | None \<Rightarrow>
          (case parse_ipaddr s of
             Some a \<Rightarrow> Inr (socket_addr_new a default_port)
           | None \<Rightarrow>
               (case Option.bind (Option.bind (strip_prefix ''['' s) (strip_suffix '']'')) parse_ipaddr of
                  Some a \<Rightarrow> Inr (socket_addr_new a default_port)
                | None \<Rightarrow> Inl (ConfigErr
                    (''dial_addr/bootstrap must be an IP address, got `'' @ s @ ''`'')))))"

definition bootstrap_socket :: "string \<Rightarrow> socket_addr res" where
  "bootstrap_socket s0 =
     (let s = trim s0;
          t = (case strip_prefix ''udp://'' s of
                 Some r \<Rightarrow> r
               | None \<Rightarrow> (case strip_prefix ''tcp://'' s of Some r \<Rightarrow> r | None \<Rightarrow> s))
      in parse_ip_port t 53)"

section \<open>The kind of an upstream\<close>

datatype kind =
    KUdp string
  | KTcp string
  | KTls string string
  | KDoh string

definition connect_kind :: "upstream_spec \<Rightarrow> kind res" where
  \<comment> \<open>the match of \<open>Upstream::connect\<close>: targets, the name for SNI, the URL\<close>
  "connect_kind sp =
     (let addr = trim (us_addr sp) in
      case split_scheme addr of (scheme, rest) \<Rightarrow>
        if scheme = ''udp'' \<or> scheme = [] then Inr (KUdp (normalize_hostport rest 53))
        else if scheme = ''tcp'' then Inr (KTcp (normalize_hostport rest 53))
        else if scheme = ''tls'' \<or> scheme = ''dot''
        then Inr (KTls (case us_dial_addr sp of
               Some d \<Rightarrow> normalize_hostport d 853 | None \<Rightarrow> normalize_hostport rest 853)
             (host_of rest))
        else if scheme = ''https'' \<or> scheme = ''h2'' \<or> scheme = ''doh''
        then Inr (KDoh (if strip_prefix ''https://'' addr \<noteq> None then addr
               else ''https://'' @ rest))
        else if scheme = ''http''
        then Inr (KDoh (if strip_prefix ''http'' addr \<noteq> None then addr else ''http://'' @ rest))
        else Inl (ConfigErr (''unsupported upstream scheme `'' @ scheme @ ''` in '' @ addr)))"

section \<open>Evaluation on closed text\<close>

lemmas endpoint_eval = host_of_def port_of_def normalize_hostport_def Let_def rsplit_once_def
  parse_word_def parse_unsigned_def

lemma host_of_examples:
  "host_of ''[2606:4700:4700::1111]:853'' = ''2606:4700:4700::1111''"
  "host_of ''1.1.1.1:853'' = ''1.1.1.1''"
  "host_of ''dns.google'' = ''dns.google''"
  "host_of ''dns.google:853'' = ''dns.google''"
  "host_of ''2606:4700:4700::1111'' = ''2606:4700:4700::1111''"
  by (simp_all add: endpoint_eval ip_parse_eval)

end
