(* ===== verification/Upstream.thy ===== *)
theory Upstream
  imports Endpoint Dnsutil
begin

text \<open>
  \<^verbatim>\<open>src/upstream.rs\<close>: one exchange with an upstream over UDP, TCP, TLS or DoH, with its
  connection pool, its destination, which is resolved once, and its bootstrap resolver.

  A computation gets the instant by which it must be done, the current instant and the state of the
  upstream; it ends \<open>Late\<close>, cancelled where it waits, or \<open>Done\<close> with a result. What the operating
  system, TLS and the HTTP client do are the operations of \<open>netops\<close>: each says when it is ready,
  with what, and what becomes of the network state \<open>'w\<close>. The field \<open>nt_other\<close> is what other tasks
  do to the state of the upstream while one waits.
\<close>

section \<open>The connection pool\<close>

record 'h stream_pool =
  \<comment> \<open>the head of the list is the end of the vector\<close>
  sp_slots :: "('h \<times> instant) list"
  sp_cap :: nat
  sp_idle :: nat

definition pool_new :: "nat \<Rightarrow> nat \<Rightarrow> 'h stream_pool" where
  "pool_new cap idle = \<lparr>sp_slots = [], sp_cap = max cap 1, sp_idle = idle\<rparr>"

fun take_slot :: "instant \<Rightarrow> nat \<Rightarrow> ('h \<times> instant) list \<Rightarrow> 'h option \<times> ('h \<times> instant) list" where
  "take_slot now idle [] = (None, [])"
| "take_slot now idle ((h, t) # slots) =
     (if now - t < idle then (Some h, slots) else take_slot now idle slots)"

definition pool_take :: "instant \<Rightarrow> 'h stream_pool \<Rightarrow> 'h option \<times> 'h stream_pool" where
  "pool_take now p =
     (case take_slot now (sp_idle p) (sp_slots p) of (x, r) \<Rightarrow> (x, p\<lparr>sp_slots := r\<rparr>))"

definition pool_put :: "instant \<Rightarrow> 'h \<Rightarrow> 'h stream_pool \<Rightarrow> 'h stream_pool" where
  "pool_put now h p = (if length (sp_slots p) < sp_cap p
     then p\<lparr>sp_slots := (h, now) # sp_slots p\<rparr> else p)"

section \<open>Computations that wait\<close>

datatype 'a outcome = Late | Done 'a

record ('h, 'w) ustate =
  u_dest :: "socket_addr option"
  u_pool :: "'h stream_pool option"
  u_cache :: "(string \<times> socket_addr list) list"
  u_net :: 'w

type_synonym ('h, 'w, 'a) io =
  "instant \<Rightarrow> instant \<Rightarrow> ('h, 'w) ustate \<Rightarrow> 'a res outcome \<times> instant \<times> ('h, 'w) ustate"

type_synonym ('w, 'a) op = "instant \<Rightarrow> 'w \<Rightarrow> instant \<times> 'a res \<times> 'w"

record ('h, 'w) netops =
  nt_other :: "instant \<Rightarrow> ('h, 'w) ustate \<Rightarrow> ('h, 'w) ustate"
  nt_random :: "'w \<Rightarrow> u16 \<times> 'w"
  nt_udp_bind :: "string \<Rightarrow> ('w, 'h) op"
  nt_udp_connect :: "'h \<Rightarrow> socket_addr \<Rightarrow> ('w, unit) op"
  nt_udp_send :: "'h \<Rightarrow> u8 list \<Rightarrow> ('w, unit) op"
  nt_udp_recv :: "'h \<Rightarrow> ('w, u8 list) op"
  nt_tcp_connect :: "socket_addr \<Rightarrow> ('w, 'h) op"
  nt_nodelay :: "'h \<Rightarrow> unit res"
  nt_server_name :: "string \<Rightarrow> unit res"
  nt_tls_connect :: "string \<Rightarrow> 'h \<Rightarrow> ('w, 'h) op"
  nt_write :: "'h \<Rightarrow> u8 list \<Rightarrow> ('w, unit) op"
  nt_flush :: "'h \<Rightarrow> ('w, unit) op"
  nt_read :: "'h \<Rightarrow> nat \<Rightarrow> ('w, u8 list) op"
  nt_post :: "string \<Rightarrow> u8 list \<Rightarrow> ('w, u16 \<times> 'h) op"
  nt_body :: "'h \<Rightarrow> ('w, u8 list) op"
  nt_lookup_host :: "string \<Rightarrow> u16 \<Rightarrow> ('w, socket_addr list) op"
  nt_lookup_target :: "string \<Rightarrow> ('w, socket_addr list) op"

definition io_res :: "'a res \<Rightarrow> ('h, 'w, 'a) io" where
  "io_res r dl now s = (Done r, now, s)"

abbreviation io_ret :: "'a \<Rightarrow> ('h, 'w, 'a) io" where
  "io_ret x \<equiv> io_res (Inr x)"

definition io_bind :: "('h, 'w, 'a) io \<Rightarrow> ('a \<Rightarrow> ('h, 'w, 'b) io) \<Rightarrow> ('h, 'w, 'b) io" where
  "io_bind m f dl now s =
     (case m dl now s of
        (Late, t, s') \<Rightarrow> (Late, t, s')
      | (Done (Inl e), t, s') \<Rightarrow> (Done (Inl e), t, s')
      | (Done (Inr x), t, s') \<Rightarrow> f x dl t s')"

definition io_map_err :: "(error \<Rightarrow> error) \<Rightarrow> ('h, 'w, 'a) io \<Rightarrow> ('h, 'w, 'a) io" where
  "io_map_err g m dl now s =
     (case m dl now s of
        (Done (Inl e), t, s') \<Rightarrow> (Done (Inl (g e)), t, s')
      | r \<Rightarrow> r)"

definition io_attempt :: "('h, 'w, 'a) io \<Rightarrow> ('h, 'w, 'a res) io" where
  \<comment> \<open>the result, error or not, as a value to match on\<close>
  "io_attempt m dl now s =
     (case m dl now s of
        (Late, t, s') \<Rightarrow> (Late, t, s')
      | (Done r, t, s') \<Rightarrow> (Done (Inr r), t, s'))"

definition io_await :: "('h, 'w) netops \<Rightarrow> ('w, 'a) op \<Rightarrow> ('h, 'w, 'a) io" where
  "io_await N f dl now s =
     (case f now (u_net s) of (t, r, w) \<Rightarrow>
        (let s' = nt_other N t (s\<lparr>u_net := w\<rparr>)
         in if dl < t then (Late, max now dl, s') else (Done r, max now t, s')))"

definition io_timeout :: "nat \<Rightarrow> ('h, 'w, 'a) io \<Rightarrow> ('h, 'w, 'a option) io" where
  \<comment> \<open>\<open>tokio::time::timeout\<close>: \<open>None\<close> when the limit passes first\<close>
  "io_timeout limit m dl now s =
     (case m (min dl (now + limit)) now s of
        (Done (Inl e), t, s') \<Rightarrow> (Done (Inl e), t, s')
      | (Done (Inr x), t, s') \<Rightarrow> (Done (Inr (Some x)), t, s')
      | (Late, t, s') \<Rightarrow> (if dl < now + limit then (Late, t, s') else (Done (Inr None), t, s')))"

definition io_random :: "('h, 'w) netops \<Rightarrow> ('h, 'w, u16) io" where
  "io_random N dl now s = (case nt_random N (u_net s) of (i, w) \<Rightarrow> (Done (Inr i), now, s\<lparr>u_net := w\<rparr>))"

definition io_pool_take :: "('h, 'w, 'h option) io" where
  \<comment> \<open>\<open>take\<close>; that the pool is there is checked before (\<open>expect_pool\<close>)\<close>
  "io_pool_take dl now s =
     (case u_pool s of
        None \<Rightarrow> (Done (Inl (Panicked ''pool'')), now, s)
      | Some p \<Rightarrow> (case pool_take now p of (x, p') \<Rightarrow> (Done (Inr x), now, s\<lparr>u_pool := Some p'\<rparr>)))"

definition io_pool_put :: "'h \<Rightarrow> ('h, 'w, unit) io" where
  "io_pool_put h dl now s = (Done (Inr ()), now, s\<lparr>u_pool := map_option (pool_put now h) (u_pool s)\<rparr>)"

section \<open>Framed exchanges\<close>

definition write_framed :: "'n lib \<Rightarrow> ('h, 'w) netops \<Rightarrow> 'h \<Rightarrow> 'n message \<Rightarrow> ('h, 'w, unit) io" where
  "write_framed L N h q =
     io_bind (io_res (dns_encode L q)) (\<lambda>bytes.
     if 65535 < length bytes then io_res (Inl (ProtocolErr ''tcp payload too large''))
     else io_bind (io_await N (nt_write N h (be16 (of_nat (length bytes))))) (\<lambda>_.
          io_bind (io_await N (nt_write N h bytes)) (\<lambda>_.
          io_await N (nt_flush N h))))"

definition read_framed :: "'n lib \<Rightarrow> ('h, 'w) netops \<Rightarrow> 'h \<Rightarrow> ('h, 'w, 'n message) io" where
  "read_framed L N h =
     io_bind (io_await N (nt_read N h 2)) (\<lambda>hdr.
     let len = unat (of_be16 (hdr ! 0) (hdr ! 1)) in
     if len = 0 \<or> 65535 < len then io_res (Inl (ProtocolErr ''bad tcp length''))
     else io_bind (io_await N (nt_read N h len)) (\<lambda>buf. io_res (dns_decode L buf)))"

definition framed_exchange ::
    "'n lib \<Rightarrow> ('h, 'w) netops \<Rightarrow> 'h \<Rightarrow> 'n message \<Rightarrow> ('h, 'w, 'n message) io" where
  "framed_exchange L N h q =
     io_bind (write_framed L N h q) (\<lambda>_.
     io_bind (read_framed L N h) (\<lambda>resp. io_res (take_response L q resp)))"

definition tcp_fresh :: "('h, 'w) netops \<Rightarrow> socket_addr \<Rightarrow> ('h, 'w, 'h) io" where
  "tcp_fresh N dest =
     io_bind (io_await N (nt_tcp_connect N dest)) (\<lambda>h.
     io_bind (io_res (nt_nodelay N h)) (\<lambda>_. io_ret h))"

definition tls_fresh :: "('h, 'w) netops \<Rightarrow> socket_addr \<Rightarrow> string \<Rightarrow> ('h, 'w, 'h) io" where
  "tls_fresh N dest sni =
     io_bind (tcp_fresh N dest) (\<lambda>h.
     io_bind (io_map_err (\<lambda>e. ProtocolErr (''sni '' @ sni @ '': '' @ error_display e))
       (io_res (nt_server_name N sni))) (\<lambda>_.
     io_map_err (\<lambda>e. ProtocolErr (error_display e)) (io_await N (nt_tls_connect N sni h))))"

definition reuse_stream ::
    "'n lib \<Rightarrow> ('h, 'w) netops \<Rightarrow> 'h \<Rightarrow> 'n message \<Rightarrow> ('h, 'w, 'n message option) io" where
  \<comment> \<open>an exchange on a pooled connection; a failure drops the connection\<close>
  "reuse_stream L N h q =
     io_bind (io_attempt (framed_exchange L N h q)) (\<lambda>r.
     case r of
       Inr msg \<Rightarrow> io_bind (io_pool_put h) (\<lambda>_. io_ret (Some msg))
     | Inl e \<Rightarrow> io_ret None)"

definition exchange_pooled ::
    "'n lib \<Rightarrow> ('h, 'w) netops \<Rightarrow> ('h, 'w, 'h) io \<Rightarrow> 'n message \<Rightarrow> ('h, 'w, 'n message) io" where
  \<comment> \<open>\<open>tcp_exchange_pooled\<close> and \<open>tls_exchange_pooled\<close>, which differ in how they connect\<close>
  "exchange_pooled L N fresh q =
     io_bind io_pool_take (\<lambda>x.
     io_bind (case x of None \<Rightarrow> io_ret None | Some h \<Rightarrow> reuse_stream L N h q) (\<lambda>r.
     case r of
       Some msg \<Rightarrow> io_ret msg
     | None \<Rightarrow>
         io_bind fresh (\<lambda>h.
         io_bind (framed_exchange L N h q) (\<lambda>msg.
         io_bind (io_pool_put h) (\<lambda>_. io_ret msg)))))"

definition tcp_exchange_pooled ::
    "'n lib \<Rightarrow> ('h, 'w) netops \<Rightarrow> socket_addr \<Rightarrow> 'n message \<Rightarrow> ('h, 'w, 'n message) io" where
  "tcp_exchange_pooled L N dest q = exchange_pooled L N (tcp_fresh N dest) q"

definition tls_exchange_pooled ::
    "'n lib \<Rightarrow> ('h, 'w) netops \<Rightarrow> socket_addr \<Rightarrow> string \<Rightarrow> 'n message \<Rightarrow> ('h, 'w, 'n message) io" where
  "tls_exchange_pooled L N dest sni q = exchange_pooled L N (tls_fresh N dest sni) q"

section \<open>Datagrams\<close>

definition udp_accept ::
    "'n lib \<Rightarrow> ('h, 'w) netops \<Rightarrow> socket_addr \<Rightarrow> 'n message \<Rightarrow> 'n message \<Rightarrow> ('h, 'w, 'n message) io" where
  \<comment> \<open>a matching reply; a truncated one is asked for again over TCP\<close>
  "udp_accept L N dest q reply =
     (if m_tc reply
      then io_bind (tcp_fresh N dest) (\<lambda>h.
           io_bind (framed_exchange L N h q) (\<lambda>full.
           if m_tc full then io_res (Inl (ProtocolErr ''truncated tcp response'')) else io_ret full))
      else io_ret reply)"

fun udp_recv_loop ::
    "'n lib \<Rightarrow> ('h, 'w) netops \<Rightarrow> 'h \<Rightarrow> socket_addr \<Rightarrow> 'n message \<Rightarrow> nat \<Rightarrow> ('h, 'w, 'n message) io" where
  "udp_recv_loop L N sock dest q 0 = io_res (Inl (ProtocolErr ''no matching udp response''))"
| "udp_recv_loop L N sock dest q (Suc n) =
     io_bind (io_await N (nt_udp_recv N sock)) (\<lambda>buf.
     case dns_decode L buf of
       Inl e \<Rightarrow> udp_recv_loop L N sock dest q n
     | Inr resp \<Rightarrow>
         (case take_response L q resp of
            Inl e \<Rightarrow> udp_recv_loop L N sock dest q n
          | Inr reply \<Rightarrow> udp_accept L N dest q reply))"

definition udp_exchange_addr ::
    "'n lib \<Rightarrow> ('h, 'w) netops \<Rightarrow> socket_addr \<Rightarrow> 'n message \<Rightarrow> ('h, 'w, 'n message) io" where
  "udp_exchange_addr L N dest q =
     io_bind (io_await N (nt_udp_bind N (if is_ipv4 (sa_ip dest) then ''0.0.0.0:0'' else ''[::]:0'')))
       (\<lambda>sock.
     io_bind (io_await N (nt_udp_connect N sock dest)) (\<lambda>_.
     io_bind (io_res (dns_encode L q)) (\<lambda>bytes.
     io_bind (io_await N (nt_udp_send N sock bytes)) (\<lambda>_.
     udp_recv_loop L N sock dest q 4))))"

end
