(* ===== verification/Exchange.thy ===== *)
theory Exchange
  imports Upstream
begin

text \<open>
  \<^verbatim>\<open>src/upstream.rs\<close>: where an exchange goes, the bootstrap lookups, the pinning resolver of
  the HTTP client, the destination that is resolved once, and \<open>connect\<close> and \<open>exchange\<close> of
  an upstream, which put the parts together.
\<close>

section \<open>Bootstrap\<close>

definition bootstrap_query_timeout :: nat where
  "bootstrap_query_timeout = nanos 2"

definition bootstrap_query ::
    "'n lib \<Rightarrow> ('h, 'w) netops \<Rightarrow> socket_addr \<Rightarrow> string \<Rightarrow> record_type \<Rightarrow> ('h, 'w, ip list) io" where
  "bootstrap_query L N boot name qt =
     (let fqdn = (if name \<noteq> [] \<and> last name = CHR ''.'' then name else name @ ''.'') in
      io_bind (io_random N) (\<lambda>i.
      io_bind (io_map_err (\<lambda>e. ProtocolErr (error_display e)) (io_res (build_query L i fqdn qt))) (\<lambda>q.
      io_bind (udp_exchange_addr L N boot q) (\<lambda>resp.
      io_ret (List.map_filter (\<lambda>r. rdata_ip (rr_data r)) (m_answers resp))))))"

definition bootstrap_lookup ::
    "'n lib \<Rightarrow> ('h, 'w) netops \<Rightarrow> socket_addr \<Rightarrow> string \<Rightarrow> nat \<Rightarrow> record_type
      \<Rightarrow> ('h, 'w, ip list option res) io" where
  \<comment> \<open>one family, with its own timeout\<close>
  "bootstrap_lookup L N boot host budget qt =
     io_attempt (io_timeout (min budget bootstrap_query_timeout) (bootstrap_query L N boot host qt))"

definition found_ips :: "ip list option res \<Rightarrow> ip list" where
  "found_ips r = (case r of Inr (Some ips) \<Rightarrow> ips | _ \<Rightarrow> [])"

definition order_ips :: "ip list \<Rightarrow> ip list" where
  \<comment> \<open>\<open>sort_by_key\<close> and \<open>dedup\<close>\<close>
  "order_ips ips = remdups_adj (sort_key (\<lambda>a. \<not> is_ipv4 a) ips)"

definition bootstrap_ips ::
    "'n lib \<Rightarrow> ('h, 'w) netops \<Rightarrow> string \<Rightarrow> string \<Rightarrow> nat \<Rightarrow> ('h, 'w, ip list) io" where
  \<comment> \<open>both lookups start at once; what each finds is taken in the order in which they end\<close>
  "bootstrap_ips L N bootstrap hostname budget dl now s =
     (case bootstrap_socket bootstrap of
        Inl e \<Rightarrow> (Done (Inl e), now, s)
      | Inr boot \<Rightarrow>
          (let host = trim_end_matches (CHR ''.'') hostname in
           case bootstrap_lookup L N boot host budget RtA dl now s of (a, ta, sa) \<Rightarrow>
           case bootstrap_lookup L N boot host budget RtAAAA dl now sa of (b, tb, sb) \<Rightarrow>
           (case (a, b) of
              (Done (Inr ra), Done (Inr rb)) \<Rightarrow>
                (let ips = (if ta \<le> tb then found_ips ra @ found_ips rb else found_ips rb @ found_ips ra)
                 in (Done (if ips \<noteq> [] then Inr (order_ips ips)
                       else Inl (ConfigErr (''bootstrap '' @ bootstrap @ '' could not resolve '' @ hostname))),
                     max ta tb, sb))
            | (Done (Inl e), _) \<Rightarrow> (Done (Inl e), ta, sb)
            | (_, Done (Inl e)) \<Rightarrow> (Done (Inl e), tb, sb)
            | _ \<Rightarrow> (Late, max ta tb, sb))))"

section \<open>The pinning resolver\<close>

record pin_resolver =
  pr_pins :: "socket_addr list"
  pr_bootstrap :: "string option"

definition pin_resolver_new :: "upstream_spec \<Rightarrow> u16 \<Rightarrow> pin_resolver res" where
  "pin_resolver_new sp port =
     res_bind (case us_dial_addr sp of
         None \<Rightarrow> Inr []
       | Some dial \<Rightarrow> res_bind (parse_ip_port dial port) (\<lambda>a. Inr [a])) (\<lambda>pins.
     Inr \<lparr>pr_pins = pins, pr_bootstrap = us_bootstrap sp\<rparr>)"

definition cache_get :: "string \<Rightarrow> ('h, 'w, socket_addr list option) io" where
  "cache_get host dl now s = (Done (Inr (map_of (u_cache s) host)), now, s)"

definition cache_set :: "string \<Rightarrow> socket_addr list \<Rightarrow> ('h, 'w, unit) io" where
  "cache_set host addrs dl now s =
     (Done (Inr ()), now, s\<lparr>u_cache := AList.update host addrs (u_cache s)\<rparr>)"

definition resolve_host ::
    "'n lib \<Rightarrow> ('h, 'w) netops \<Rightarrow> pin_resolver \<Rightarrow> string \<Rightarrow> nat \<Rightarrow> ('h, 'w, socket_addr list) io" where
  "resolve_host L N r host budget =
     (if pr_pins r \<noteq> [] then io_ret (pr_pins r)
      else (case parse_ipaddr host of
          Some a \<Rightarrow> io_ret [socket_addr_new a 0]
        | None \<Rightarrow>
            io_bind (cache_get host) (\<lambda>hit.
            case hit of
              Some addrs \<Rightarrow> io_ret addrs
            | None \<Rightarrow>
                io_bind (case pr_bootstrap r of
                    Some boot \<Rightarrow> io_bind (bootstrap_ips L N boot host budget) (\<lambda>ips.
                      io_ret (map (\<lambda>a. socket_addr_new a 0) ips))
                  | None \<Rightarrow> io_await N (nt_lookup_host N host 0)) (\<lambda>addrs.
                io_bind (cache_set host addrs) (\<lambda>_. io_ret addrs)))))"

definition resolver_callback ::
    "'n lib \<Rightarrow> ('h, 'w) netops \<Rightarrow> pin_resolver \<Rightarrow> string \<Rightarrow> ('h, 'w, socket_addr list) io" where
  \<comment> \<open>\<open>resolve\<close>, which the HTTP client calls for a host it has to connect to\<close>
  "resolver_callback L N r name = resolve_host L N r name bootstrap_query_timeout"

section \<open>The destination\<close>

definition resolve_target :: "('h, 'w) netops \<Rightarrow> string \<Rightarrow> ('h, 'w, socket_addr) io" where
  "resolve_target N target =
     io_bind (io_await N (nt_lookup_target N target)) (\<lambda>addrs.
     io_res (ok_or (ConfigErr (''no addr for '' @ target)) (case addrs of [] \<Rightarrow> None | a # _ \<Rightarrow> Some a)))"

definition resolve_spec ::
    "'n lib \<Rightarrow> ('h, 'w) netops \<Rightarrow> upstream_spec \<Rightarrow> string \<Rightarrow> nat \<Rightarrow> ('h, 'w, socket_addr) io" where
  "resolve_spec L N sp target budget =
     (case us_dial_addr sp of
        Some dial \<Rightarrow> io_res (parse_ip_port dial (port_of target 53))
      | None \<Rightarrow>
          (let host = host_of target; port = port_of target 53 in
           case parse_ipaddr host of
             Some a \<Rightarrow> io_ret (socket_addr_new a port)
           | None \<Rightarrow>
               (case parse_socket_addr target of
                  Some sa \<Rightarrow> io_ret sa
                | None \<Rightarrow>
                    (case us_bootstrap sp of
                       Some boot \<Rightarrow>
                         io_bind (bootstrap_ips L N boot host budget) (\<lambda>ips.
                         io_bind (io_res (ok_or (ConfigErr
                             (''bootstrap '' @ boot @ '' returned no addresses for '' @ host))
                             (case ips of [] \<Rightarrow> None | a # _ \<Rightarrow> Some a))) (\<lambda>a.
                         io_ret (socket_addr_new a port)))
                     | None \<Rightarrow> resolve_target N target))))"

definition get_or_init :: "socket_addr \<Rightarrow> ('h, 'w, socket_addr) io" where
  \<comment> \<open>\<open>OnceLock::get_or_init\<close>\<close>
  "get_or_init d dl now s =
     (case u_dest s of
        Some d' \<Rightarrow> (Done (Inr d'), now, s)
      | None \<Rightarrow> (Done (Inr d), now, s\<lparr>u_dest := Some d\<rparr>))"

definition cached_dest ::
    "'n lib \<Rightarrow> ('h, 'w) netops \<Rightarrow> upstream_spec \<Rightarrow> string \<Rightarrow> nat \<Rightarrow> ('h, 'w, socket_addr) io" where
  "cached_dest L N sp target budget dl now s =
     (case u_dest s of
        Some d \<Rightarrow> (Done (Inr d), now, s)
      | None \<Rightarrow> io_bind (resolve_spec L N sp target budget) get_or_init dl now s)"

section \<open>DNS over HTTPS\<close>

definition doh_exchange ::
    "'n lib \<Rightarrow> ('h, 'w) netops \<Rightarrow> string \<Rightarrow> 'n message \<Rightarrow> ('h, 'w, 'n message) io" where
  "doh_exchange L N url q =
     io_bind (io_res (dns_encode L q)) (\<lambda>bytes.
     io_bind (io_map_err (\<lambda>e. ProtocolErr (error_display e)) (io_await N (nt_post N url bytes)))
       (\<lambda>(status, h).
     if \<not> (200 \<le> status \<and> status < 300)
     then io_res (Inl (ProtocolErr (''doh http '' @ show_word status)))
     else io_bind (io_map_err (\<lambda>e. ProtocolErr (error_display e)) (io_await N (nt_body N h))) (\<lambda>body.
          io_bind (io_res (dns_decode L body)) (\<lambda>resp. io_res (take_response L q resp)))))"

section \<open>An upstream\<close>

record upstream =
  up_spec :: upstream_spec
  up_kind :: kind
  up_http :: bool
  up_resolver :: "pin_resolver option"
  up_tls :: bool

definition upstream_label :: "upstream \<Rightarrow> string" where
  \<comment> \<open>\<open>label\<close>\<close>
  "upstream_label up = (case us_tag (up_spec up) of Some t \<Rightarrow> t | None \<Rightarrow> us_addr (up_spec up))"

definition build_http_client ::
    "(upstream_spec \<Rightarrow> unit res) \<Rightarrow> upstream_spec \<Rightarrow> string \<Rightarrow> pin_resolver option res" where
  \<comment> \<open>the first argument is what building the client gives\<close>
  "build_http_client http sp url =
     res_bind (if us_dial_addr sp \<noteq> None \<or> us_bootstrap sp \<noteq> None
       then res_bind (url_host_port url (if strip_prefix ''http://'' url \<noteq> None then 80 else 443))
         (\<lambda>(host, port). res_bind (pin_resolver_new sp port) (\<lambda>r. Inr (Some r)))
       else Inr None) (\<lambda>resolver.
     case http sp of
       Inl e \<Rightarrow> Inl (UpstreamErr (us_addr sp) (error_display e))
     | Inr _ \<Rightarrow> Inr resolver)"

definition pool_cap :: nat where
  "pool_cap = 8"

definition upstream_connect ::
    "(upstream_spec \<Rightarrow> unit res) \<Rightarrow> (bool \<Rightarrow> unit res) \<Rightarrow> 'w \<Rightarrow> upstream_spec
      \<Rightarrow> (upstream \<times> ('h, 'w) ustate) res" where
  \<comment> \<open>\<open>Upstream::connect\<close>: the upstream and the state its clones share\<close>
  "upstream_connect http tls w sp =
     res_bind (connect_kind sp) (\<lambda>kind.
     res_bind (case kind of
         KDoh url \<Rightarrow> res_bind (build_http_client http sp url) (\<lambda>r. Inr (True, r))
       | _ \<Rightarrow> Inr (False, None)) (\<lambda>(h, resolver).
     res_bind (case kind of
         KTls _ _ \<Rightarrow> res_bind (tls (us_insecure sp)) (\<lambda>_. Inr True)
       | _ \<Rightarrow> Inr False) (\<lambda>t.
     let pool = (case kind of
             KTcp _ \<Rightarrow> Some (pool_new pool_cap (us_idle_timeout sp))
           | KTls _ _ \<Rightarrow> Some (pool_new pool_cap (us_idle_timeout sp))
           | _ \<Rightarrow> None)
     in Inr (\<lparr>up_spec = sp, up_kind = kind, up_http = h, up_resolver = resolver, up_tls = t\<rparr>,
             \<lparr>u_dest = None, u_pool = pool, u_cache = [], u_net = w\<rparr>))))"

definition expect_part :: "bool \<Rightarrow> string \<Rightarrow> ('h, 'w, unit) io" where
  "expect_part b what = io_res (if b then Inr () else Inl (Panicked what))"

definition expect_pool :: "string \<Rightarrow> ('h, 'w, unit) io" where
  "expect_pool what dl now s =
     (Done (if u_pool s = None then Inl (Panicked what) else Inr ()), now, s)"

definition exchange_inner ::
    "'n lib \<Rightarrow> ('h, 'w) netops \<Rightarrow> upstream \<Rightarrow> 'n message \<Rightarrow> nat \<Rightarrow> ('h, 'w, 'n message) io" where
  \<comment> \<open>an error of the last exchange is wrapped; one of an earlier step is returned as it is\<close>
  "exchange_inner L N up q time_limit =
     (let budget = min (time_limit div 2) bootstrap_query_timeout;
          sp = up_spec up;
          wrap = io_map_err (\<lambda>e. UpstreamErr (us_addr sp) (error_display e))
      in case up_kind up of
           KUdp target \<Rightarrow>
             io_bind (cached_dest L N sp target budget) (\<lambda>dest. wrap (udp_exchange_addr L N dest q))
         | KTcp target \<Rightarrow>
             io_bind (cached_dest L N sp target budget) (\<lambda>dest.
             io_bind (expect_pool ''tcp pool'') (\<lambda>_.
             wrap (tcp_exchange_pooled L N dest q)))
         | KTls target sni \<Rightarrow>
             io_bind (cached_dest L N sp target budget) (\<lambda>dest.
             io_bind (expect_part (up_tls up) ''tls connector'') (\<lambda>_.
             io_bind (expect_pool ''tls pool'') (\<lambda>_.
             wrap (tls_exchange_pooled L N dest sni q))))
         | KDoh url \<Rightarrow>
             io_bind (case up_resolver up of
                 None \<Rightarrow> io_ret ()
               | Some r \<Rightarrow>
                   io_bind (io_res (url_host_port url 443)) (\<lambda>(host, _).
                   io_bind (resolve_host L N r host budget) (\<lambda>_. io_ret ()))) (\<lambda>_.
             io_bind (expect_part (up_http up) ''http client'') (\<lambda>_.
             wrap (doh_exchange L N url q))))"

definition upstream_exchange ::
    "'n lib \<Rightarrow> ('h, 'w) netops \<Rightarrow> upstream \<Rightarrow> 'n message \<Rightarrow> nat \<Rightarrow> ('h, 'w, 'n message) io" where
  \<comment> \<open>\<open>Upstream::exchange\<close>\<close>
  "upstream_exchange L N up q time_limit =
     io_bind (io_timeout time_limit (exchange_inner L N up q time_limit)) (\<lambda>r.
     case r of
       Some msg \<Rightarrow> io_ret msg
     | None \<Rightarrow> io_res (Inl (UpstreamErr (us_addr (up_spec up)) ''timeout'')))"

end
