(* ===== verification/Forward.thy ===== *)
theory Forward
  imports Exchange Metrics
begin

text \<open>
  \<^verbatim>\<open>src/plugin/forward.rs\<close>: one exchange, or a race of several, with the upstreams of the
  plugin. The exchanges themselves are arguments: for each upstream the instant its result is
  ready and the result (the theory \<open>Network\<close> gives those of \<open>upstream_exchange\<close>). A pipeline step
  that is still waiting when its deadline passes is cancelled where it waits, so the plugin also gets
  the instant by which it must be done.
\<close>

record forward =
  fw_tag :: string
  fw_upstreams :: "upstream list"
  fw_concurrent :: nat
  fw_timeout_ms :: nat

definition forward_connect ::
    "(upstream_spec \<Rightarrow> unit res) \<Rightarrow> (bool \<Rightarrow> unit res) \<Rightarrow> yaml \<Rightarrow> upstream res" where
  \<comment> \<open>one item of the list, up to the state a new upstream starts with\<close>
  "forward_connect http tls v =
     res_bind (spec_from_value v) (\<lambda>sp.
     res_bind (upstream_connect http tls () sp :: (upstream \<times> (unit, unit) ustate) res) (\<lambda>(up, _).
     Inr up))"

definition forward_from_args :: "(yaml \<Rightarrow> upstream res) \<Rightarrow> string \<Rightarrow> yaml \<Rightarrow> forward res" where
  \<comment> \<open>the first argument is \<open>forward_connect\<close>\<close>
  "forward_from_args connect tag args =
     res_bind (ok_or (ConfigErr (''forward `'' @ tag @ ''` has no upstreams''))
       (case y_get ''upstreams'' args of Some v \<Rightarrow> Some v | None \<Rightarrow> y_get ''upstream'' args)) (\<lambda>list.
     let items = (case list of YSeq s \<Rightarrow> s | other \<Rightarrow> [other]) in
     if items = [] then Inl (ConfigErr (''forward `'' @ tag @ ''` has empty upstreams''))
     else res_bind (res_map connect items) (\<lambda>ups.
       Inr \<lparr>fw_tag = tag, fw_upstreams = ups,
         fw_concurrent = unat (max (case Option.bind (y_get ''concurrent'' args) y_as_u64 of
            Some n \<Rightarrow> n | None \<Rightarrow> 1) 1),
         fw_timeout_ms = unat (max (case Option.bind (y_get ''timeout'' args) y_as_u64 of
            Some n \<Rightarrow> n | None \<Rightarrow> 5000) 1)\<rparr>))"

type_synonym 'n exchange = "nat \<Rightarrow> instant \<times> 'n message res"

record 'n forward_result =
  fr_cancelled :: bool
  fr_now :: instant
  fr_ctx :: "'n ctx"
  fr_metrics :: metrics

definition forward_single ::
    "forward \<Rightarrow> instant \<Rightarrow> instant \<Rightarrow> 'n exchange \<Rightarrow> 'n ctx \<Rightarrow> metrics \<Rightarrow> 'n forward_result" where
  "forward_single p deadline now ans c mx =
     (case ans 0 of
        (t, r) \<Rightarrow>
          (if deadline < t
           then \<lparr>fr_cancelled = True, fr_now = max now deadline, fr_ctx = c, fr_metrics = mx\<rparr>
           else
             (let now' = max now t;
                  label = upstream_label (fw_upstreams p ! 0)
              in case r of
                   Inr msg \<Rightarrow>
                     (if is_usable_response msg
                      then \<lparr>fr_cancelled = False, fr_now = now',
                             fr_ctx = set_response msg (push_trace now' (fw_tag p) ''ok'' label c),
                             fr_metrics = count_upstream True mx\<rparr>
                      else \<lparr>fr_cancelled = False, fr_now = now',
                             fr_ctx = set_response msg
                               (push_trace now' (fw_tag p) ''err'' ''unusable rcode'' c),
                             fr_metrics = count_upstream False mx\<rparr>)
                 | Inl e \<Rightarrow>
                     \<lparr>fr_cancelled = False, fr_now = now',
                       fr_ctx = push_trace now' (fw_tag p) ''err'' (error_display e) c,
                       fr_metrics = count_upstream False mx\<rparr>)))"

fun race_loop ::
    "forward \<Rightarrow> instant \<Rightarrow> string option \<Rightarrow> 'n message option \<Rightarrow> (nat \<times> instant \<times> 'n message res) list
      \<Rightarrow> instant \<Rightarrow> 'n ctx \<Rightarrow> metrics \<Rightarrow> 'n forward_result" where
  "race_loop p deadline last_err last_unusable [] now c mx =
     (let c1 = (case last_unusable of None \<Rightarrow> c | Some msg \<Rightarrow> set_response msg c);
          detail = (case last_err of None \<Rightarrow> ''all upstreams failed'' | Some s \<Rightarrow> s)
      in \<lparr>fr_cancelled = False, fr_now = now,
          fr_ctx = push_trace now (fw_tag p) ''err'' detail c1, fr_metrics = mx\<rparr>)"
| "race_loop p deadline last_err last_unusable ((i, t, r) # pending) now c mx =
     (if deadline < t
      then \<lparr>fr_cancelled = True, fr_now = max now deadline, fr_ctx = c, fr_metrics = mx\<rparr>
      else
        (let now' = max now t;
             label = upstream_label (fw_upstreams p ! i)
         in case r of
              Inr msg \<Rightarrow>
                (if is_usable_response msg
                 then \<lparr>fr_cancelled = False, fr_now = now',
                        fr_ctx = set_response msg (push_trace now' (fw_tag p) ''ok'' label c),
                        fr_metrics = count_upstream True mx\<rparr>
                 else race_loop p deadline (Some (label @ '' unusable rcode'')) (Some msg) pending
                        now' c (count_upstream False mx))
            | Inl e \<Rightarrow> race_loop p deadline (Some (error_display e)) last_unusable pending
                        now' c (count_upstream False mx)))"

definition arrivals :: "nat \<Rightarrow> 'n exchange \<Rightarrow> (nat \<times> instant \<times> 'n message res) list" where
  \<comment> \<open>the order in which \<open>FuturesUnordered\<close> yields the results\<close>
  "arrivals n ans = map (\<lambda>i. (i, ans i)) (sort_key (\<lambda>i. fst (ans i)) [0..<n])"

definition race_width :: "forward \<Rightarrow> nat" where
  "race_width p = max (min (fw_concurrent p) (length (fw_upstreams p))) 1"

definition forward_exec ::
    "forward \<Rightarrow> instant \<Rightarrow> instant \<Rightarrow> 'n exchange \<Rightarrow> 'n ctx \<Rightarrow> metrics \<Rightarrow> 'n forward_result" where
  "forward_exec p deadline now ans c mx =
     (if race_width p = 1 then forward_single p deadline now ans c mx
      else race_loop p deadline None None (arrivals (race_width p) ans) now c mx)"

section \<open>A legal pipeline step\<close>

lemma evolves_forward_single: "evolves c (fr_ctx (forward_single p deadline now ans c mx))"
  by (auto simp: forward_single_def Let_def evolves_push_trace split: prod.splits sum.splits
      intro: evolves_trans [OF evolves_push_trace evolves_set_response])

lemma evolves_race_loop: "evolves c (fr_ctx (race_loop p deadline le lu pending now c mx))"
  by (induction p deadline le lu pending now c mx rule: race_loop.induct)
    (auto simp: Let_def evolves_push_trace split: sum.splits option.splits
      intro: evolves_trans [OF evolves_push_trace evolves_set_response]
        evolves_trans [OF evolves_set_response evolves_push_trace])

lemma evolves_forward_exec [evolves_intros]:
  "evolves c (fr_ctx (forward_exec p deadline now ans c mx))"
  by (simp add: forward_exec_def evolves_forward_single evolves_race_loop)

section \<open>Who wins the race\<close>

definition usable_arrival :: "nat \<times> instant \<times> 'n message res \<Rightarrow> 'n message option" where
  "usable_arrival x = (case snd (snd x) of
     Inr msg \<Rightarrow> if is_usable_response msg then Some msg else None | Inl e \<Rightarrow> None)"

definition unusable_arrival :: "nat \<times> instant \<times> 'n message res \<Rightarrow> 'n message option" where
  "unusable_arrival x = (case snd (snd x) of
     Inr msg \<Rightarrow> if is_usable_response msg then None else Some msg | Inl e \<Rightarrow> None)"

fun race_winner ::
    "instant \<Rightarrow> 'n message option \<Rightarrow> (nat \<times> instant \<times> 'n message res) list \<Rightarrow> 'n message option option" where
  \<comment> \<open>specification: \<open>None\<close> when the deadline comes first; else the first usable reply in
      order of arrival, or the last unusable one when there is none\<close>
  "race_winner deadline lu [] = Some lu"
| "race_winner deadline lu (x # xs) =
     (if deadline < fst (snd x) then None
      else (case usable_arrival x of
          Some msg \<Rightarrow> Some (Some msg)
        | None \<Rightarrow> race_winner deadline
            (case unusable_arrival x of None \<Rightarrow> lu | Some msg \<Rightarrow> Some msg) xs))"

definition response_from :: "'n ctx \<Rightarrow> 'n message option \<Rightarrow> 'n message option" where
  "response_from c x = (case x of None \<Rightarrow> c_response c
     | Some msg \<Rightarrow> Some (msg\<lparr>m_id := m_id (c_query c), m_type := MtResponse\<rparr>))"

lemma push_trace_fields [simp]:
  "c_response (push_trace now p e d c) = c_response c"
  "c_query (push_trace now p e d c) = c_query c"
  by (simp_all add: push_trace_def)

definition race_result :: "'n ctx \<Rightarrow> 'n message option option \<Rightarrow> 'n forward_result \<Rightarrow> bool" where
  "race_result c w r = (case w of
     None \<Rightarrow> fr_cancelled r \<and> fr_ctx r = c
   | Some x \<Rightarrow> \<not> fr_cancelled r \<and> c_response (fr_ctx r) = response_from c x)"

lemma race_loop_winner:
  "race_result c (race_winner deadline lu pending) (race_loop p deadline le lu pending now c mx)"
proof (induction pending arbitrary: le lu now mx)
  case Nil
  then show ?case
    by (simp add: race_result_def response_from_def set_response_def Let_def split: option.splits)
next
  case (Cons x pending)
  obtain i t r where x: "x = (i, t, r)" by (cases x)
  show ?case
  proof (cases "deadline < t")
    case True
    with x show ?thesis by (simp add: race_result_def)
  next
    case in_time: False
    show ?thesis
    proof (cases r)
      case (Inl e)
      with x in_time Cons show ?thesis
        by (simp add: Let_def usable_arrival_def unusable_arrival_def)
    next
      case (Inr msg)
      with x in_time Cons show ?thesis
        by (cases "is_usable_response msg")
          (simp_all add: Let_def usable_arrival_def unusable_arrival_def,
           simp add: race_result_def response_from_def set_response_def)
    qed
  qed
qed

end
