(* ===== verification/Sequence.thy ===== *)
theory Sequence
  imports Matcher Actions Cache Ecs Hosts Forward
begin

text \<open>
  The configuration side of \<^verbatim>\<open>src/plugin/sequence.rs\<close> and \<^verbatim>\<open>src/plugin/fallback.rs\<close>: steps,
  their matchers and targets, and the plugins a registry holds (\<^verbatim>\<open>src/plugin/mod.rs\<close>). Running
  them is the theory \<open>Pipeline\<close>.

  A \<open>HashMap\<close> of the registry is an association list. The set a matcher holds behind its lock
  is the set itself: no operation of the program changes a set once it is in a registry.
\<close>

section \<open>Steps\<close>

record raw_step =
  rs_matches :: "string list"
  rs_exec :: string

datatype exec_target = ExPlugin string | ExBuiltin builtin

record step =
  st_matchers :: "matcher list"
  st_exec :: exec_target

record sequence =
  sq_tag :: string
  sq_steps :: "step list"

definition raw_matches :: "yaml option \<Rightarrow> string list res" where
  "raw_matches x =
     (case x of
        None \<Rightarrow> Inr []
      | Some (YStr s) \<Rightarrow> Inr [s]
      | Some (YSeq vs) \<Rightarrow>
          res_map (\<lambda>v. ok_or (ConfigErr ''sequence `matches` entries must be strings'') (y_as_str v)) vs
      | Some _ \<Rightarrow> Inl (ConfigErr ''sequence `matches` must be a string or a list of strings''))"

fun raw_step_from_value :: "yaml \<Rightarrow> raw_step res" where
  "raw_step_from_value (YStr s) = Inr \<lparr>rs_matches = [], rs_exec = s\<rparr>"
| "raw_step_from_value (YMap m) =
     res_bind (ok_or (ConfigErr ''sequence step missing exec'')
       (Option.bind (map_of m (YStr ''exec'')) y_as_str)) (\<lambda>ex.
     res_bind (raw_matches (map_of m (YStr ''matches''))) (\<lambda>ms.
     Inr \<lparr>rs_matches = ms, rs_exec = ex\<rparr>))"
| "raw_step_from_value _ = Inl (ConfigErr ''invalid sequence step'')"

definition parse_steps :: "yaml \<Rightarrow> raw_step list res" where
  "parse_steps args =
     res_map raw_step_from_value (case args of YSeq s \<Rightarrow> s | other \<Rightarrow> [other])"

definition parse_exec :: "string \<Rightarrow> exec_target res" where
  "parse_exec s0 =
     (let s = trim s0 in
      case strip_prefix ''$'' s of
        Some tag \<Rightarrow> Inr (ExPlugin tag)
      | None \<Rightarrow> res_bind (builtin_parse s) (\<lambda>b. Inr (ExBuiltin b)))"

section \<open>Matchers\<close>

function strip_bangs :: "bool \<Rightarrow> string \<Rightarrow> bool \<times> string" where
  \<comment> \<open>the loop over leading \<open>!\<close>: whether to negate, and what is left\<close>
  "strip_bangs negate expr =
     (case strip_prefix ''!'' expr of
        None \<Rightarrow> (negate, expr)
      | Some rest \<Rightarrow> strip_bangs (\<not> negate) (trim_start rest))"
  by pat_completeness auto
termination
proof (relation "measure (\<lambda>(n, e). length e)")
  show "((\<not> negate, trim_start rest), (negate, expr)) \<in> measure (\<lambda>(n, e). length e)"
    if "strip_prefix ''!'' expr = Some rest" for negate expr rest
    using that length_dropWhile_le [of is_ws rest]
    by (simp add: strip_prefix_Some_iff trim_start_def trim_start_by_def)
qed simp

declare strip_bangs.simps [simp del]

definition set_of_tag :: "string \<Rightarrow> (string \<times> 'a) list \<Rightarrow> string list \<Rightarrow> 'a res" where
  \<comment> \<open>the next word is the tag of a set\<close>
  "set_of_tag msg sets parts =
     res_bind (next_part (ConfigErr msg) parts) (\<lambda>p.
       (let tag = trim_start_matches (CHR ''$'') p in ok_or (UnknownTag tag) (map_of sets tag)))"

record registry_sets =
  rg_domains :: "(string \<times> domain_set) list"
  rg_ips :: "(string \<times> ip_set) list"

definition bind_matcher_atom :: "'n lib \<Rightarrow> registry_sets \<Rightarrow> string \<Rightarrow> matcher res" where
  "bind_matcher_atom L reg expr =
     (let words = split_whitespace expr; head = nth_or words []; parts = drop 1 words in
      if head = ''has_resp'' then Inr MHasResp
      else if head = ''has_wanted_ans'' then Inr MHasWantedAns
      else if head = ''qname''
      then res_bind (set_of_tag ''qname matcher needs a domain_set tag'' (rg_domains reg) parts)
             (\<lambda>s. Inr (MQname s))
      else if head = ''qtype'' then Inr (MQtype (List.map_filter (qtype_from_str L) parts))
      else if head = ''client_ip''
      then res_bind (set_of_tag ''client_ip matcher needs an ip_set tag'' (rg_ips reg) parts)
             (\<lambda>s. Inr (MClientIp s))
      else if head = ''resp_ip''
      then res_bind (set_of_tag ''resp_ip matcher needs an ip_set tag'' (rg_ips reg) parts)
             (\<lambda>s. Inr (MRespIp s))
      else if head = ''rcode'' then Inr (MRcode (rcode_from_str (nth_or parts ''NOERROR'')))
      else if head = ''mark''
      then Inr (MMark (case parse_word (nth_or parts ''0'') of None \<Rightarrow> 0 | Some n \<Rightarrow> n))
      else if head = ''ecs'' \<or> head = ''has_ecs'' then Inr MHasEcs
      else Inl (ConfigErr (''unknown matcher `'' @ head)))"

definition bind_matcher :: "'n lib \<Rightarrow> registry_sets \<Rightarrow> string \<Rightarrow> matcher res" where
  "bind_matcher L reg expr0 =
     (case strip_bangs False (trim expr0) of
        (negate, expr) \<Rightarrow>
          res_bind (bind_matcher_atom L reg expr) (\<lambda>m. Inr (if negate then MNeg m else m)))"

definition compile_step :: "'n lib \<Rightarrow> registry_sets \<Rightarrow> raw_step \<Rightarrow> step res" where
  "compile_step L reg r =
     res_bind (res_map (bind_matcher L reg) (rs_matches r)) (\<lambda>ms.
     res_bind (parse_exec (rs_exec r)) (\<lambda>ex.
     Inr \<lparr>st_matchers = ms, st_exec = ex\<rparr>))"

definition compile_steps :: "'n lib \<Rightarrow> string \<Rightarrow> raw_step list \<Rightarrow> registry_sets \<Rightarrow> sequence res" where
  "compile_steps L tag raw reg =
     res_bind (res_map (compile_step L reg) raw) (\<lambda>steps. Inr \<lparr>sq_tag = tag, sq_steps = steps\<rparr>)"

section \<open>Fallback\<close>

record fallback =
  fb_tag :: string
  fb_primary :: string
  fb_secondary :: string
  fb_threshold :: nat
  fb_standby :: bool

definition fallback_from_args :: "string \<Rightarrow> yaml \<Rightarrow> fallback res" where
  "fallback_from_args tag args =
     res_bind (ok_or (ConfigErr ''fallback needs `primary`'')
       (Option.bind (y_get ''primary'' args) y_as_str)) (\<lambda>p.
     res_bind (ok_or (ConfigErr ''fallback needs `secondary`'')
       (Option.bind (y_get ''secondary'' args) y_as_str)) (\<lambda>s.
     Inr \<lparr>fb_tag = tag,
       fb_primary = trim_start_matches (CHR ''$'') p,
       fb_secondary = trim_start_matches (CHR ''$'') s,
       fb_threshold = 1000000 * (case Option.bind (y_get ''threshold'' args) y_as_u64 of
          None \<Rightarrow> 500 | Some n \<Rightarrow> unat n),
       fb_standby = y_bool_or False ''always_standby'' args\<rparr>))"

section \<open>Plugins and the registry\<close>

text \<open>
  A \<open>dyn Executable\<close> is one of the plugin types the runtime builds. A cache keeps its state in the
  world the pipeline runs in, under its tag.
\<close>

datatype 'n plugin =
    PlCache
  | PlHosts hosts
  | PlForward forward
  | PlBlackhole rcode
  | PlRedirect "'n redirect"
  | PlEcs ecs
  | PlNoEcs string
  | PlSequence sequence
  | PlFallback fallback

record 'n registry =
  rg_execs :: "(string \<times> 'n plugin) list"
  rg_sets :: registry_sets
  rg_default_entry :: "string option"

definition get_exec :: "string \<Rightarrow> 'n registry \<Rightarrow> 'n plugin res" where
  "get_exec tag reg = ok_or (UnknownTag tag) (map_of (rg_execs reg) tag)"

section \<open>The calls of a plugin\<close>

definition step_calls :: "step \<Rightarrow> string list" where
  "step_calls s = (case st_exec s of
     ExPlugin t \<Rightarrow> [t] | ExBuiltin (BGoto t) \<Rightarrow> [t] | ExBuiltin _ \<Rightarrow> [])"

fun plugin_calls :: "'n plugin \<Rightarrow> string list" where
  "plugin_calls (PlSequence q) = concat (map step_calls (sq_steps q))"
| "plugin_calls (PlFallback f) = [fb_primary f, fb_secondary f]"
| "plugin_calls _ = []"

lemma strip_bangs_prefix:
  "strip_bangs n (CHR ''!'' # s) = strip_bangs (\<not> n) (trim_start s)"
  by (subst strip_bangs.simps) simp

lemma strip_bangs_done:
  "strip_prefix ''!'' s = None \<Longrightarrow> strip_bangs n s = (n, s)"
  by (subst strip_bangs.simps) simp

end
