(* ===== verification/Config.thy ===== *)
theory Config
  imports Files
begin

text \<open>
  \<^verbatim>\<open>src/config.rs\<close>: the configuration, the lifting of server plugins, the normalisation of
  entries, and loading with includes. What \<open>serde\<close> reads out of a YAML text and how the file system
  canonicalises a path are parameters. Loading terminates on every file system: the chain of
  includes is cut at 64 files, and a file that includes itself is an error.
\<close>

section \<open>Data\<close>

record log_config =
  lg_level :: string
  lg_file :: "string option"

record plugin_config =
  pc_tag :: "string option"
  pc_ty :: string
  pc_args :: yaml
  pc_base :: string

record listener_config =
  li_protocol :: string
  li_addr :: string
  li_cert :: "string option"
  li_key :: "string option"
  li_url_path :: "string option"
  li_idle_timeout :: "u64 option"
  li_workers :: "u32 option"

record server_config =
  sv_exec :: string
  sv_timeout :: u64
  sv_listeners :: "listener_config list"

record config =
  cf_log :: log_config
  cf_include :: "string list"
  cf_plugins :: "plugin_config list"
  cf_servers :: "server_config list"
  cf_api_http :: "string option"
  cf_base :: string

definition plugin_tag :: "plugin_config \<Rightarrow> string" where
  \<comment> \<open>the tag, or the type where there is none\<close>
  "plugin_tag p = (case pc_tag p of Some t \<Rightarrow> t | None \<Rightarrow> pc_ty p)"

section \<open>Entries\<close>

definition normalize_entry :: "string \<Rightarrow> string res" where
  "normalize_entry ex =
     (let raw = trim ex; entry = trim_start_matches (CHR ''$'') raw in
      if (raw \<noteq> [] \<and> entry = []) \<or> list_ex is_ws entry
      then Inl (ConfigErr (''invalid server entry `'' @ raw @ ''`''))
      else Inr entry)"

definition normalize_entries :: "config \<Rightarrow> config res" where
  "normalize_entries cfg =
     res_bind (res_map (\<lambda>s. res_bind (normalize_entry (sv_exec s)) (\<lambda>e. Inr (s\<lparr>sv_exec := e\<rparr>)))
       (cf_servers cfg)) (\<lambda>ss. Inr (cfg\<lparr>cf_servers := ss\<rparr>))"

section \<open>Server plugins\<close>

definition y_get_or :: "string \<Rightarrow> string \<Rightarrow> yaml \<Rightarrow> yaml option" where
  "y_get_or a b v = (case y_get a v of Some x \<Rightarrow> Some x | None \<Rightarrow> y_get b v)"

definition server_proto :: "string \<Rightarrow> string option" where
  "server_proto ty =
     (if ty = ''udp_server'' then Some ''udp''
      else if ty = ''tcp_server'' then Some ''tcp''
      else if ty = ''tls_server'' then Some ''tls''
      else if ty = ''http_server'' \<or> ty = ''doh_server'' then Some ''doh''
      else None)"

definition lift_server :: "string \<Rightarrow> yaml \<Rightarrow> server_config res" where
  "lift_server proto args =
     res_bind
       (case y_get_or ''listen'' ''addr'' args of
          Some (YStr s) \<Rightarrow> Inr s
        | Some _ \<Rightarrow> Inl (ConfigErr ''server `listen` must be a string (one address), not a list'')
        | None \<Rightarrow> Inr ''0.0.0.0:53'') (\<lambda>listen.
     res_bind
       (case y_get ''workers'' args of
          None \<Rightarrow> Inr None
        | Some v \<Rightarrow>
            (case y_as_u64 v of
               Some n \<Rightarrow> if n < 2 ^ 32 then Inr (Some (ucast n))
                         else Inl (ConfigErr ''server workers must be a u32'')
             | None \<Rightarrow> Inl (ConfigErr ''server workers must be a u32''))) (\<lambda>workers.
     Inr \<lparr>sv_exec = (case Option.bind (y_get_or ''entry'' ''exec'' args) y_as_str of
              Some e \<Rightarrow> e | None \<Rightarrow> []),
          sv_timeout = (case Option.bind (y_get ''timeout'' args) y_as_u64 of
              Some n \<Rightarrow> n | None \<Rightarrow> 5),
          sv_listeners = [\<lparr>li_protocol = proto, li_addr = listen,
            li_cert = Option.bind (y_get ''cert'' args) y_as_str,
            li_key = Option.bind (y_get ''key'' args) y_as_str,
            li_url_path = Option.bind (y_get_or ''url_path'' ''path'' args) y_as_str,
            li_idle_timeout = Option.bind (y_get ''idle_timeout'' args) y_as_u64,
            li_workers = workers\<rparr>]\<rparr>))"

definition lift_plugin ::
    "plugin_config list \<times> server_config list \<Rightarrow> plugin_config
      \<Rightarrow> (plugin_config list \<times> server_config list) res" where
  "lift_plugin acc p =
     (case server_proto (pc_ty p) of
        Some proto \<Rightarrow>
          res_bind (lift_server proto (pc_args p)) (\<lambda>s. Inr (fst acc, snd acc @ [s]))
      | None \<Rightarrow> Inr (fst acc @ [p], snd acc))"

definition lift_server_plugins :: "config \<Rightarrow> config res" where
  "lift_server_plugins cfg =
     res_bind (res_fold lift_plugin ([], cf_servers cfg) (cf_plugins cfg))
       (\<lambda>(keep, servers). Inr (cfg\<lparr>cf_plugins := keep, cf_servers := servers\<rparr>))"

definition config_from_yaml :: "(string \<Rightarrow> config option) \<Rightarrow> string \<Rightarrow> config res" where
  "config_from_yaml serde text =
     res_bind (ok_or (ConfigErr ''yaml parse: '') (serde text)) (\<lambda>cfg.
     res_bind (lift_server_plugins cfg) normalize_entries)"

section \<open>Files and includes\<close>

definition stamp_base :: "config \<Rightarrow> config" where
  "stamp_base cfg =
     (let base = cf_base cfg; resolve = map_option (resolve_path base) in
      cfg\<lparr>cf_log := (cf_log cfg)\<lparr>lg_file := resolve (lg_file (cf_log cfg))\<rparr>,
          cf_plugins := map (\<lambda>p. if pc_base p = [] then p\<lparr>pc_base := base\<rparr> else p) (cf_plugins cfg),
          cf_servers := map (\<lambda>s. s\<lparr>sv_listeners :=
            map (\<lambda>l. l\<lparr>li_cert := resolve (li_cert l), li_key := resolve (li_key l)\<rparr>)
              (sv_listeners s)\<rparr>) (cf_servers cfg)\<rparr>)"

definition merge_config :: "config \<Rightarrow> config \<Rightarrow> config" where
  "merge_config cfg other = cfg\<lparr>
     cf_plugins := cf_plugins cfg @ cf_plugins other,
     cf_servers := cf_servers cfg @ cf_servers other,
     cf_api_http := (case cf_api_http cfg of None \<Rightarrow> cf_api_http other | Some a \<Rightarrow> Some a)\<rparr>"

text \<open>
  \<open>loader\<close> holds what the file system, \<open>serde\<close> and \<open>Path::parent\<close> do. \<open>load_with_stack\<close> and the loop over the
  includes of one file call each other; the stack only grows, up to 64.
\<close>

record loader =
  ld_canonicalize :: "string \<Rightarrow> string option"
  ld_read :: files
  ld_serde :: "string \<Rightarrow> config option"
  ld_parent :: "string \<Rightarrow> string option"

definition base_dir :: "string option \<Rightarrow> string" where
  \<comment> \<open>\<open>path.parent().filter(non-empty).unwrap_or(".")\<close>\<close>
  "base_dir parent = (case parent of None \<Rightarrow> ''.'' | Some p \<Rightarrow> if p = [] then ''.'' else p)"

lemma base_dir_nonempty [simp]: "base_dir parent \<noteq> []"
  by (simp add: base_dir_def split: option.split)

definition load_own :: "loader \<Rightarrow> string \<Rightarrow> config res" where
  \<comment> \<open>\<open>load_contents\<close> up to the includes\<close>
  "load_own ld path =
     res_bind (ok_or (ConfigErr (''read '' @ path)) (ld_read ld path)) (\<lambda>text.
     res_bind (config_from_yaml (ld_serde ld) text) (\<lambda>cfg.
     Inr (stamp_base (cfg\<lparr>cf_base := base_dir (ld_parent ld path)\<rparr>))))"

function (sequential)
  load_with_stack :: "loader \<Rightarrow> string list \<Rightarrow> string \<Rightarrow> config res"
  and load_includes :: "loader \<Rightarrow> string list \<Rightarrow> string list \<Rightarrow> config \<Rightarrow> config res" where
  "load_with_stack ld stack path =
     (if 64 \<le> length stack then Inl (ConfigErr (''include depth exceeds 64 at '' @ path))
      else (case ld_canonicalize ld path of
          None \<Rightarrow> Inl (ConfigErr (''resolve '' @ path))
        | Some canonical \<Rightarrow>
            (if canonical \<in> set stack then Inl (ConfigErr ''include cycle: '')
             else res_bind (load_own ld path) (\<lambda>cfg.
               load_includes ld (stack @ [canonical]) (cf_include cfg) cfg))))"
| "load_includes ld stack [] cfg = Inr cfg"
| "load_includes ld stack (rel # rels) cfg =
     res_bind (load_with_stack ld stack (resolve_path (cf_base cfg) rel)) (\<lambda>extra.
     load_includes ld stack rels (merge_config cfg extra))"
  by pat_completeness auto
termination
proof (relation "inv_image (less_than <*lex*> less_than) (\<lambda>x. case x of
    Inl (ld, stack, path) \<Rightarrow> (64 - length stack, 0)
  | Inr (ld, stack, rels, cfg) \<Rightarrow> (64 - length stack, Suc (length rels)))")
qed auto

definition load_file :: "loader \<Rightarrow> string \<Rightarrow> config res" where
  "load_file ld path = load_with_stack ld [] path"

section \<open>What loading guarantees\<close>

lemma normalize_entry_iff:
  "normalize_entry ex = Inr e \<longleftrightarrow>
     e = trim_start_matches (CHR ''$'') (trim ex) \<and> (e = [] \<longrightarrow> trim ex = []) \<and> \<not> list_ex is_ws e"
  by (auto simp: normalize_entry_def Let_def)

lemma trim_start_matches_hd:
  "trim_start_matches c s \<noteq> [] \<Longrightarrow> hd (trim_start_matches c s) \<noteq> c"
  unfolding trim_start_matches_def trim_start_by_def by (induction s) (auto split: if_splits)

lemma normalize_entry_clean:
  "normalize_entry ex = Inr e \<Longrightarrow> e \<noteq> [] \<Longrightarrow> hd e \<noteq> CHR ''$'' \<and> \<not> list_ex is_ws e"
  using trim_start_matches_hd [of "CHR ''$''" "trim ex"] by (auto simp: normalize_entry_iff)

lemma trim_no_ws: "\<not> list_ex is_ws e \<Longrightarrow> trim e = e"
proof -
  assume a: "\<not> list_ex is_ws e"
  have d: "dropWhile is_ws xs = xs" if "\<not> list_ex is_ws xs" for xs
    using that by (cases xs) auto
  have "\<not> list_ex is_ws (rev e)" using a by (simp add: list_ex_iff)
  with a show ?thesis
    by (simp add: trim_def trim_end_by_def trim_start_def trim_start_by_def d)
qed

lemma normalize_entry_idem:
  assumes "normalize_entry ex = Inr e"
  shows "normalize_entry e = Inr e"
proof (cases "e = []")
  case True
  then show ?thesis
    by (simp add: normalize_entry_def Let_def trim_def trim_end_by_def trim_start_def
        trim_start_by_def trim_start_matches_def)
next
  case False
  with assms normalize_entry_clean [OF assms] have c: "hd e \<noteq> CHR ''$''" "\<not> list_ex is_ws e"
    by auto
  then have "trim e = e" by (simp add: trim_no_ws)
  moreover have "trim_start_matches (CHR ''$'') e = e"
    using c(1) False by (cases e) (simp_all add: trim_start_matches_def trim_start_by_def)
  ultimately show ?thesis using c False by (simp add: normalize_entry_def)
qed

end
