(* ===== verification/Graph.thy ===== *)
theory Graph
  imports Sequence Config
begin

text \<open>
  \<open>validate_plugin_graph\<close> and \<open>visit_plugin\<close> of \<^verbatim>\<open>src/runtime.rs\<close>: before any request runs,
  the calls between plugins are followed to the end. The check accepts exactly the graphs in which
  every call resolves and no chain of calls is longer than 64, and it always terminates.

  A \<open>HashMap\<close> of edges is an association list, visited in its order.
\<close>

type_synonym edges = "(string \<times> string list) list"

type_synonym depths = "(string \<times> nat) list"

section \<open>Edges\<close>

definition raw_step_calls :: "raw_step \<Rightarrow> string list res" where
  "raw_step_calls r =
     (let ex = trim (rs_exec r) in
      case strip_prefix ''$'' ex of
        Some t \<Rightarrow> Inr [t]
      | None \<Rightarrow> res_bind (builtin_parse ex) (\<lambda>b. Inr (case b of BGoto t \<Rightarrow> [t] | _ \<Rightarrow> [])))"

definition config_calls :: "plugin_config \<Rightarrow> string list res" where
  "config_calls p =
     (if pc_ty p = ''sequence''
      then res_bind (parse_steps (pc_args p)) (\<lambda>steps.
           res_bind (res_map raw_step_calls steps) (\<lambda>cs. Inr (concat cs)))
      else if pc_ty p = ''fallback''
      then res_bind (fallback_from_args (plugin_tag p) (pc_args p)) (\<lambda>f.
           Inr [fb_primary f, fb_secondary f])
      else Inr [])"

definition bad_tag :: "string \<Rightarrow> bool" where
  "bad_tag tag \<longleftrightarrow> tag = [] \<or> hd tag = CHR ''$'' \<or> list_ex is_ws tag"

definition add_plugin ::
    "string list \<times> edges \<Rightarrow> plugin_config \<Rightarrow> (string list \<times> edges) res" where
  \<comment> \<open>one round of the loop over the plugins; the list is the set \<open>tags\<close>\<close>
  "add_plugin acc p =
     (let tag = plugin_tag p; tags = fst acc; es = snd acc in
      if bad_tag tag then Inl (ConfigErr (''invalid plugin tag `'' @ tag @ ''`''))
      else if tag \<in> set tags then Inl (ConfigErr (''duplicate plugin tag `'' @ tag @ ''`''))
      else if pc_ty p = ''domain_set'' \<or> pc_ty p = ''ip_set'' then Inr (tag # tags, es)
      else res_bind (config_calls p) (\<lambda>calls. Inr (tag # tags, AList.update tag calls es)))"

definition graph_edges :: "plugin_config list \<Rightarrow> edges res" where
  "graph_edges ps = res_bind (res_fold add_plugin ([], []) ps) (\<lambda>acc. Inr (snd acc))"

definition unknown_call :: "edges \<Rightarrow> (string \<times> string) option" where
  "unknown_call es =
     find (\<lambda>(t, u). map_of es u = None) (concat (map (\<lambda>(t, us). map (Pair t) us) es))"

section \<open>The search\<close>

definition max_pipeline_depth :: nat where
  "max_pipeline_depth = 64"

function (sequential)
  visit_plugin :: "edges \<Rightarrow> string \<Rightarrow> string list \<Rightarrow> depths \<Rightarrow> (nat \<times> depths) res"
  and visit_calls ::
    "edges \<Rightarrow> string list \<Rightarrow> string list \<Rightarrow> depths \<Rightarrow> nat \<Rightarrow> (nat \<times> depths) res" where
  "visit_plugin es tag active depths =
     (case map_of depths tag of
        Some d \<Rightarrow> Inr (d, depths)
      | None \<Rightarrow>
          (if tag \<in> set active
           then Inl (ConfigErr (''plugin reference cycle: '' @ join '' -> '' (active @ [tag])))
           else if max_pipeline_depth \<le> length active
           then Inl (ConfigErr ''plugin call depth exceeds 64'')
           else (case map_of es tag of
               None \<Rightarrow> Inl (Panicked ''index of edges'')
             | Some calls \<Rightarrow>
                 res_bind (visit_calls es calls (active @ [tag]) depths 1) (\<lambda>(depth, depths').
                   if max_pipeline_depth < depth
                   then Inl (ConfigErr ''plugin call depth exceeds 64'')
                   else Inr (depth, AList.update tag depth depths')))))"
| "visit_calls es [] active depths depth = Inr (depth, depths)"
| "visit_calls es (t # ts) active depths depth =
     res_bind (visit_plugin es t active depths) (\<lambda>(d, depths').
       visit_calls es ts active depths' (max depth (1 + d)))"
  by pat_completeness auto
termination
proof (relation "inv_image (less_than <*lex*> less_than) (\<lambda>x. case x of
    Inl (es, tag, active, depths) \<Rightarrow> (64 - length active, 0)
  | Inr (es, ts, active, depths, depth) \<Rightarrow> (64 - length active, Suc (length ts)))")
qed (auto simp: max_pipeline_depth_def)

fun visit_all :: "edges \<Rightarrow> string list \<Rightarrow> depths \<Rightarrow> depths res" where
  \<comment> \<open>the loop over \<open>edges.keys()\<close>\<close>
  "visit_all es [] depths = Inr depths"
| "visit_all es (t # ts) depths =
     res_bind (visit_plugin es t [] depths) (\<lambda>(d, depths'). visit_all es ts depths')"

definition validate_edges :: "edges \<Rightarrow> unit res" where
  "validate_edges es =
     (case unknown_call es of
        Some (t, u) \<Rightarrow>
          Inl (ConfigErr (''plugin `'' @ t @ ''` references unknown executable `'' @ u @ ''`''))
      | None \<Rightarrow> res_bind (visit_all es (map fst es) []) (\<lambda>_. Inr ()))"

definition validate_plugin_graph :: "config \<Rightarrow> unit res" where
  "validate_plugin_graph cfg = res_bind (graph_edges (cf_plugins cfg)) validate_edges"

end
