(* ===== verification/Pipeline.thy ===== *)
theory Pipeline
  imports Sequence
begin

text \<open>
  How a request runs: \<open>Sequence::run\<close> of \<^verbatim>\<open>src/plugin/sequence.rs\<close>, \<open>BoundFallback\<close> of
  \<^verbatim>\<open>src/plugin/fallback.rs\<close> and the dispatch on the plugins of a registry.

  Requests run concurrently and share the caches, the metrics and the identifier counter, the
  \<open>world\<close>. Time passes where a step waits, and before every plugin call other tasks may have done
  anything to the world (\<open>en_other\<close>), so a theorem about one request holds for every interleaving
  with the others at the granularity of plugin calls. What the network answers is \<open>en_exchange\<close>.

  An \<open>async\<close> call is cancelled where it waits when its deadline passes first. Cancellation, a panic
  and the exhaustion of the call stack are not values of the program; they are the \<open>stop\<close> of a run.
  The first argument of \<open>exec_tag\<close> is the call depth that is left.
\<close>

section \<open>World and environment\<close>

record 'n world =
  w_caches :: "(string \<times> cache) list"
  w_metrics :: metrics
  w_next_id :: u64
  w_jobs :: "'n refresh_job list"
  w_now :: instant
  w_tick :: nat

record 'n env =
  en_lib :: "'n lib"
  en_reg :: "'n registry"
  en_other :: "nat \<Rightarrow> 'n world \<Rightarrow> 'n world"
  en_exchange :: "nat \<Rightarrow> instant \<Rightarrow> string \<Rightarrow> 'n message \<Rightarrow> 'n exchange"

definition meet_others :: "'n env \<Rightarrow> 'n world \<Rightarrow> 'n world" where
  \<comment> \<open>what other tasks did since the last plugin call; time does not run backwards\<close>
  "meet_others env w =
     (let w' = en_other env (w_tick w) w
      in w'\<lparr>w_now := max (w_now w) (w_now w'), w_tick := Suc (w_tick w)\<rparr>)"

datatype stop = Cancelled | Overflow | Crash

type_synonym 'n run = "(stop + action res) \<times> 'n ctx \<times> 'n world"

type_synonym 'n caller = "instant \<Rightarrow> string \<Rightarrow> 'n ctx \<Rightarrow> 'n world \<Rightarrow> 'n run"

section \<open>The step of a cache and of an upstream\<close>

definition run_cache :: "'n env \<Rightarrow> string \<Rightarrow> 'n ctx \<Rightarrow> 'n world \<Rightarrow> 'n run" where
  "run_cache env tag c w =
     (case map_of (w_caches w) tag of
        None \<Rightarrow> (Inr (Inr Continue), c, w)
      | Some ca \<Rightarrow>
          (case cache_exec (en_lib env) (\<lambda>_. w_now w) (w_next_id w) c ca (w_metrics w) of
             (c', ca', mx, job) \<Rightarrow>
               (let w' = w\<lparr>w_caches := AList.update tag ca' (w_caches w), w_metrics := mx\<rparr>
                in (Inr (Inr Continue), c',
                    (case job of
                       None \<Rightarrow> w'
                     | Some j \<Rightarrow> w'\<lparr>w_next_id := snd (next_id (w_next_id w)),
                                      w_jobs := w_jobs w @ [j]\<rparr>)))))"

definition run_forward :: "'n env \<Rightarrow> forward \<Rightarrow> instant \<Rightarrow> string \<Rightarrow> 'n ctx \<Rightarrow> 'n world \<Rightarrow> 'n run" where
  "run_forward env p deadline tag c w =
     (let r = forward_exec p deadline (w_now w) (en_exchange env (w_tick w) (w_now w) tag (c_query c)) c
                (w_metrics w)
      in (if fr_cancelled r then Inl Cancelled else Inr (Inr Continue), fr_ctx r,
          w\<lparr>w_now := fr_now r, w_metrics := fr_metrics r\<rparr>))"

section \<open>Sequences\<close>

type_synonym 'n writes = "(string \<times> 'n cache_lookup_key) list"

definition snapshot_writes :: "'n env \<Rightarrow> string \<Rightarrow> 'n ctx \<Rightarrow> 'n world \<Rightarrow> 'n writes" where
  \<comment> \<open>what \<open>run\<close> remembers before it executes a tag that is a cache\<close>
  "snapshot_writes env tag c w =
     (case map_of (w_caches w) tag of
        None \<Rightarrow> []
      | Some ca \<Rightarrow>
          (case cache_snapshot (en_lib env) c ca of None \<Rightarrow> [] | Some l \<Rightarrow> [(tag, l)]))"

fun store_writes :: "'n env \<Rightarrow> 'n ctx \<Rightarrow> 'n writes \<Rightarrow> 'n world \<Rightarrow> 'n world option" where
  \<comment> \<open>\<open>Sequence::store\<close>\<close>
  "store_writes env c [] w = Some w"
| "store_writes env c ((tag, l) # ws) w =
     (case map_of (w_caches w) tag of
        None \<Rightarrow> store_writes env c ws w
      | Some ca \<Rightarrow>
          (case cache_store_lookup (en_lib env) (w_now w) c l ca of
             None \<Rightarrow> None
           | Some ca' \<Rightarrow>
               store_writes env c ws (w\<lparr>w_caches := AList.update tag ca' (w_caches w)\<rparr>)))"

definition seq_finish :: "'n env \<Rightarrow> 'n writes \<Rightarrow> action \<Rightarrow> 'n ctx \<Rightarrow> 'n world \<Rightarrow> 'n run" where
  "seq_finish env ws a c w =
     (case store_writes env c ws w of
        None \<Rightarrow> (Inl Crash, c, w) | Some w' \<Rightarrow> (Inr (Inr a), c, w'))"

definition seq_step ::
    "'n env \<Rightarrow> (string \<Rightarrow> 'n ctx \<Rightarrow> 'n world \<Rightarrow> 'n run) \<Rightarrow> string \<Rightarrow> step \<Rightarrow> 'n writes
      \<Rightarrow> 'n ctx \<Rightarrow> 'n world \<Rightarrow> 'n run \<times> 'n writes" where
  \<comment> \<open>the \<open>match\<close> on \<open>steps[i].exec\<close>\<close>
  "seq_step env call tag s ws c w =
     (case st_exec s of
        ExPlugin t \<Rightarrow>
          (case get_exec t (en_reg env) of
             Inl e \<Rightarrow> ((Inr (Inl e), c, w), ws)
           | Inr _ \<Rightarrow>
               (call t (push_trace (w_now w) tag ''exec'' t c) w,
                ws @ snapshot_writes env t c w))
      | ExBuiltin b \<Rightarrow>
          (case builtin_apply b (push_trace (w_now w) tag ''builtin'' (builtin_label (en_lib env) b) c) of
             (r, c') \<Rightarrow> ((Inr r, c', w), ws)))"

definition seq_goto ::
    "'n env \<Rightarrow> (string \<Rightarrow> 'n ctx \<Rightarrow> 'n world \<Rightarrow> 'n run) \<Rightarrow> string \<Rightarrow> 'n writes
      \<Rightarrow> 'n ctx \<Rightarrow> 'n world \<Rightarrow> 'n run" where
  "seq_goto env call t ws c w =
     (case get_exec t (en_reg env) of
        Inl e \<Rightarrow> (Inr (Inl e), c, w)
      | Inr _ \<Rightarrow>
          (case call t c w of
             (Inr (Inr a), c', w') \<Rightarrow> seq_finish env (ws @ snapshot_writes env t c w) a c' w'
           | other \<Rightarrow> other))"

primrec seq_run ::
    "'n env \<Rightarrow> (string \<Rightarrow> 'n ctx \<Rightarrow> 'n world \<Rightarrow> 'n run) \<Rightarrow> string \<Rightarrow> step list \<Rightarrow> 'n writes
      \<Rightarrow> 'n ctx \<Rightarrow> 'n world \<Rightarrow> 'n run" where
  "seq_run env call tag [] ws c w = seq_finish env ws Continue c w"
| "seq_run env call tag (s # ss) ws c w =
     (if \<not> list_all (matches (en_lib env) c) (st_matchers s) then seq_run env call tag ss ws c w
      else (case seq_step env call tag s ws c w of
          ((Inr (Inr a), c', w'), ws') \<Rightarrow>
            (case a of
               Continue \<Rightarrow> seq_run env call tag ss ws' c' w'
             | Accept \<Rightarrow> seq_finish env ws' Accept c' w'
             | Return \<Rightarrow> seq_finish env ws' Continue c' w'
             | Goto t \<Rightarrow> seq_goto env call t ws' c' w')
        | (other, _) \<Rightarrow> other))"

section \<open>Fallback\<close>

definition forked :: "'n ctx \<Rightarrow> 'n world \<Rightarrow> 'n ctx \<times> 'n world" where
  "forked c w = (case next_id (w_next_id w) of
     (i, n) \<Rightarrow> (fork i (w_now w) c, w\<lparr>w_next_id := n\<rparr>))"

definition as_continue :: "action res \<Rightarrow> action res" where
  \<comment> \<open>\<open>result?; Ok(Action::Continue)\<close>\<close>
  "as_continue r = (case r of Inl e \<Rightarrow> Inl e | Inr _ \<Rightarrow> Inr Continue)"

fun wins :: "stop + action res \<Rightarrow> 'n ctx \<Rightarrow> bool" where
  "wins (Inr (Inr a)) c = has_wanted_ans c"
| "wins _ c = False"

definition fallback_second ::
    "'n caller \<Rightarrow> instant \<Rightarrow> fallback \<Rightarrow> 'n ctx \<Rightarrow> 'n world \<Rightarrow> 'n run" where
  "fallback_second call deadline f c w =
     (let c1 = push_trace (w_now w) (fb_tag f) ''secondary'' ''fallback'' c;
          (s0, w0) = forked c1 w
      in case call deadline (fb_secondary f) s0 w0 of
           (Inl st, _, w1) \<Rightarrow> (Inl st, c1, w1)
         | (Inr r, s1, w1) \<Rightarrow> (Inr (as_continue r), absorb c1 s1, w1))"

definition fallback_serial ::
    "'n caller \<Rightarrow> instant \<Rightarrow> fallback \<Rightarrow> 'n ctx \<Rightarrow> 'n world \<Rightarrow> 'n run" where
  "fallback_serial call deadline f c w =
     (let limit = w_now w + fb_threshold f;
          (p0, w0) = forked c w
      in case call (min deadline limit) (fb_primary f) p0 w0 of
           (r, p1, w1) \<Rightarrow>
             (if wins r p1
              then (Inr (Inr Continue), absorb (push_trace (w_now w1) (fb_tag f) ''primary'' ''ok'' c) p1, w1)
              else if r = Inl Overflow \<or> r = Inl Crash \<or> (r = Inl Cancelled \<and> deadline < limit)
              then (r, c, w1)
              else fallback_second call deadline f c w1))"

definition fallback_standby ::
    "'n caller \<Rightarrow> instant \<Rightarrow> fallback \<Rightarrow> 'n ctx \<Rightarrow> 'n world \<Rightarrow> 'n run" where
  \<comment> \<open>Both branches start now. The secondary is dropped the moment the primary wins; otherwise
      the plugin waits for both, in whatever order they finish. The steps of the primary are taken
      first and the clock is put back for the secondary; what the two do to the shared state in between
      each other's steps is a case of \<open>en_other\<close>.\<close>
  "fallback_standby call deadline f c w =
     (let start = w_now w;
          limit = start + fb_threshold f;
          (p0, w0) = forked c w;
          (s0, w0') = forked c w0
      in case call (min deadline limit) (fb_primary f) p0 w0' of
           (r, p1, w1) \<Rightarrow>
             (if r = Inl Overflow \<or> r = Inl Crash then (r, c, w1)
              else
                (case call (if wins r p1 then min deadline (w_now w1) else deadline) (fb_secondary f)
                        s0 (w1\<lparr>w_now := start\<rparr>) of
                   (r', s1, w2) \<Rightarrow>
                     (if r' = Inl Overflow \<or> r' = Inl Crash then (r', c, w2)
                      else if wins r p1
                      then (Inr (Inr Continue),
                            absorb (push_trace (w_now w1) (fb_tag f) ''primary'' ''ok'' c) p1,
                            w2\<lparr>w_now := w_now w1\<rparr>)
                      else if (r = Inl Cancelled \<and> deadline < limit) \<or> r' = Inl Cancelled
                      then (Inl Cancelled, c, w2\<lparr>w_now := max (w_now w1) (w_now w2)\<rparr>)
                      else
                        (let w3 = w2\<lparr>w_now := max (w_now w1) (w_now w2)\<rparr>
                         in (map_sum id as_continue r',
                             absorb (push_trace (w_now w3) (fb_tag f) ''secondary'' ''used'' c) s1,
                             w3))))))"

definition fallback_run ::
    "'n env \<Rightarrow> 'n caller \<Rightarrow> instant \<Rightarrow> fallback \<Rightarrow> 'n ctx \<Rightarrow> 'n world \<Rightarrow> 'n run" where
  "fallback_run env call deadline f c w =
     (case get_exec (fb_primary f) (en_reg env) of
        Inl e \<Rightarrow> (Inr (Inl e), c, w)
      | Inr _ \<Rightarrow>
          (case get_exec (fb_secondary f) (en_reg env) of
             Inl e \<Rightarrow> (Inr (Inl e), c, w)
           | Inr _ \<Rightarrow>
               (if fb_standby f then fallback_standby call deadline f c w
                else fallback_serial call deadline f c w)))"

section \<open>Dispatch\<close>

definition exec_plugin ::
    "'n env \<Rightarrow> 'n caller \<Rightarrow> instant \<Rightarrow> string \<Rightarrow> 'n plugin \<Rightarrow> 'n ctx \<Rightarrow> 'n world \<Rightarrow> 'n run" where
  "exec_plugin env call deadline tag p c w =
     (let L = en_lib env; done = (\<lambda>c'. (Inr (Inr Continue), c', w)) in
      case p of
        PlCache \<Rightarrow> run_cache env tag c w
      | PlHosts h \<Rightarrow> done (hosts_exec L (w_now w) h c)
      | PlForward f \<Rightarrow> run_forward env f deadline tag c w
      | PlBlackhole rc \<Rightarrow> done (blackhole_exec rc c)
      | PlRedirect rules \<Rightarrow> done (redirect_exec L (w_now w) rules c)
      | PlEcs e \<Rightarrow> done (ecs_exec L (w_now w) e c)
      | PlNoEcs t \<Rightarrow> done (no_ecs_exec (w_now w) t c)
      | PlSequence q \<Rightarrow> seq_run env (call deadline) (sq_tag q) (sq_steps q) [] c w
      | PlFallback f \<Rightarrow> fallback_run env call deadline f c w)"

primrec exec_tag :: "nat \<Rightarrow> 'n env \<Rightarrow> 'n caller" where
  "exec_tag 0 env deadline tag c w = (Inl Overflow, c, w)"
| "exec_tag (Suc depth) env deadline tag c w =
     (case get_exec tag (en_reg env) of
        Inl e \<Rightarrow> (Inr (Inl e), c, w)
      | Inr p \<Rightarrow> exec_plugin env (exec_tag depth env) deadline tag p c (meet_others env w))"

end
