(* ===== verification/Server.thy ===== *)
theory Server
  imports Pipeline
begin

text \<open>
  \<^verbatim>\<open>src/server.rs\<close>: \<open>handle\<close>, which runs one request through the pipeline, and what the
  listeners do around it: the UDP datagram, the TCP frame, the DoH parameter. Sockets, TLS and the
  HTTP server are left to the source. \<open>handle_query\<close> of \<^verbatim>\<open>src/runtime.rs\<close> and the background
  refresh of a cache are here too, since both are calls of \<open>handle\<close>.
\<close>

section \<open>One request\<close>

type_synonym 'n handled = "(stop + unit res) \<times> 'n ctx \<times> 'n world"

definition call_depth :: nat where
  \<comment> \<open>the depth the graph check of the runtime guarantees to be enough\<close>
  "call_depth = 64"

definition handle_finish :: "'n env \<Rightarrow> 'n ctx \<Rightarrow> 'n world \<Rightarrow> 'n handled" where
  \<comment> \<open>\<open>handle\<close> after the pipeline\<close>
  "handle_finish env c w =
     (let c1 = finalize_response (en_lib env) c;
          c2 = (if c_strip c1 then c1\<lparr>c_response := map_option remove_ecs (c_response c1)\<rparr> else c1);
          mx = count_outcome (has_resp c2) (w_metrics w);
          us = of_nat ((w_now w - c_start c2) div 1000)
      in (Inr (Inr ()), c2, w\<lparr>w_metrics := observe_query us mx\<rparr>))"

definition handle :: "'n env \<Rightarrow> string \<Rightarrow> 'n ctx \<Rightarrow> nat \<Rightarrow> 'n world \<Rightarrow> 'n handled" where
  "handle env entry c timeout w =
     (case classify_incoming (c_query c) of
        Drop \<Rightarrow> (Inr (Inr ()), c, w)
      | ReplyNotImp \<Rightarrow> handle_finish env (reject NotImp c) w
      | Process \<Rightarrow>
          (let c0 = begin_pipeline entry c in
           case get_exec entry (en_reg env) of
             Inl e \<Rightarrow> (Inr (Inl e), c0, w)
           | Inr _ \<Rightarrow>
               (case exec_tag call_depth env (w_now w + timeout) entry c0 w of
                  (Inr (Inr a), c1, w1) \<Rightarrow> handle_finish env c1 w1
                | (Inr (Inl e), c1, w1) \<Rightarrow>
                    handle_finish env (if has_resp c1 then c1 else reject ServFail c1) w1
                | (Inl Cancelled, c1, w1) \<Rightarrow> handle_finish env (reject ServFail c1) w1
                | (Inl st, c1, w1) \<Rightarrow> (Inl st, c1, w1))))"

definition handle_query :: "'n env \<Rightarrow> 'n ctx \<Rightarrow> string \<Rightarrow> 'n world \<Rightarrow> 'n handled" where
  "handle_query env c entry w =
     handle env (trim_start_matches (CHR ''$'') (trim entry)) c (nanos 5) w"

definition run_refresh :: "'n env \<Rightarrow> string \<Rightarrow> 'n refresh_job \<Rightarrow> 'n world \<Rightarrow> 'n world" where
  \<comment> \<open>the task \<open>kick_refresh\<close> of the cache \<open>tag\<close> spawns; the guard is dropped however it ends\<close>
  "run_refresh env tag j w =
     (let w1 = snd (snd (handle_query env (rj_ctx j) (rj_entry j) w))
      in case map_of (w_caches w1) tag of
           None \<Rightarrow> w1
         | Some ca \<Rightarrow> w1\<lparr>w_caches := AList.update tag (refresh_done (rj_key j) ca) (w_caches w1)\<rparr>)"

section \<open>UDP\<close>

definition send_udp :: "'n lib \<Rightarrow> 'n ctx \<Rightarrow> u8 list option" where
  "send_udp L c =
     (case c_response c of
        None \<Rightarrow> None
      | Some r \<Rightarrow>
          (case encode_udp L r (udp_payload_max (c_query c)) of Inl e \<Rightarrow> None | Inr b \<Rightarrow> Some b))"

definition udp_serve ::
    "'n env \<Rightarrow> string \<Rightarrow> nat \<Rightarrow> ip \<Rightarrow> u8 list \<Rightarrow> 'n world \<Rightarrow> u8 list option \<times> 'n world" where
  \<comment> \<open>the task of one datagram: what is sent back\<close>
  "udp_serve env entry timeout peer buf w =
     (case dns_decode (en_lib env) buf of
        Inl e \<Rightarrow> (None, w)
      | Inr q \<Rightarrow>
          (case next_id (w_next_id w) of
             (i, n) \<Rightarrow>
               (let c = ctx_new i (w_now w) q (Some peer) PUdp;
                    w0 = w\<lparr>w_next_id := n\<rparr>
                in case classify_incoming q of
                     Drop \<Rightarrow> (None, w)
                   | ReplyNotImp \<Rightarrow> (send_udp (en_lib env) (reject NotImp c), w0)
                   | Process \<Rightarrow>
                       (case handle env entry c timeout w0 of
                          (Inr (Inr _), c', w') \<Rightarrow> (send_udp (en_lib env) c', w')
                        | (_, _, w') \<Rightarrow> (None, w')))))"

section \<open>TCP and TLS framing\<close>

definition tcp_response :: "'n lib \<Rightarrow> 'n ctx \<Rightarrow> u8 list res" where
  \<comment> \<open>the bytes \<open>write_tcp_response\<close> writes\<close>
  "tcp_response L c =
     (case c_response c of
        None \<Rightarrow> Inr []
      | Some r \<Rightarrow>
          res_bind (dns_encode L r) (\<lambda>bytes.
            if 65535 < length bytes then Inl (ProtocolErr ''tcp payload too large'')
            else Inr (be16 (of_nat (length bytes)) @ bytes)))"

datatype frame = FrameEof | FrameErr error | Frame "u8 list" "u8 list"

fun read_frame :: "u8 list \<Rightarrow> frame" where
  \<comment> \<open>the header and body of one request on a stream that ends: \<open>Frame body rest\<close>\<close>
  "read_frame (hi # lo # rest) =
     (let len = unat (of_be16 hi lo) in
      if len = 0 then FrameErr (ProtocolErr ''bad length'')
      else if length rest < len then FrameErr (IoErr ''unexpected end of file'')
      else Frame (take len rest) (drop len rest))"
| "read_frame _ = FrameEof"

lemma read_frame_length:
  "read_frame bs = Frame body rest \<Longrightarrow> length rest < length bs"
  by (induction bs rule: read_frame.induct) (auto simp: Let_def split: if_splits)

definition framed_step ::
    "'n env \<Rightarrow> string \<Rightarrow> nat \<Rightarrow> client_proto \<Rightarrow> ip option \<Rightarrow> 'n message \<Rightarrow> 'n world
      \<Rightarrow> u8 list res \<times> 'n world" where
  \<comment> \<open>one round of the loop after decoding: what is written\<close>
  "framed_step env entry timeout proto peer q w =
     (let c = ctx_new (w_next_id w) (w_now w) q peer proto;
          w0 = w\<lparr>w_next_id := snd (next_id (w_next_id w))\<rparr>
      in case classify_incoming q of
           Drop \<Rightarrow> (Inr [], w)
         | ReplyNotImp \<Rightarrow> (tcp_response (en_lib env) (reject NotImp c), w0)
         | Process \<Rightarrow>
             (case handle env entry c timeout w0 of
                (Inr (Inr _), c', w') \<Rightarrow> (tcp_response (en_lib env) c', w')
              | (Inr (Inl e), _, w') \<Rightarrow> (Inl e, w')
              | (Inl st, _, w') \<Rightarrow> (Inl (Panicked []), w')))"

function serve_framed ::
    "'n env \<Rightarrow> string \<Rightarrow> nat \<Rightarrow> client_proto \<Rightarrow> ip option \<Rightarrow> u8 list \<Rightarrow> 'n world
      \<Rightarrow> u8 list \<times> unit res \<times> 'n world" where
  \<comment> \<open>a session whose input is all the bytes the peer sends before it closes: the bytes written,
      and how the session ends\<close>
  "serve_framed env entry timeout proto peer bs w =
     (case read_frame bs of
        FrameEof \<Rightarrow> ([], Inr (), w)
      | FrameErr e \<Rightarrow> ([], Inl e, w)
      | Frame body rest \<Rightarrow>
          (case dns_decode (en_lib env) body of
             Inl e \<Rightarrow> ([], Inl e, w)
           | Inr q \<Rightarrow>
               (case framed_step env entry timeout proto peer q w of
                  (Inl e, w') \<Rightarrow> ([], Inl e, w')
                | (Inr out, w') \<Rightarrow>
                    (case serve_framed env entry timeout proto peer rest w' of
                       (out', r, w'') \<Rightarrow> (out @ out', r, w'')))))"
  by pat_completeness auto
termination
  by (relation "measure (\<lambda>(env, entry, timeout, proto, peer, bs, w). length bs)")
    (auto dest: read_frame_length)

declare serve_framed.simps [simp del]

section \<open>DoH\<close>

fun percent_decode :: "string \<Rightarrow> string" where
  "percent_decode (c # a # b # s) =
     (if c = CHR ''%''
      then (case parse_unsigned 16 256 [a, b] of
              Some n \<Rightarrow> char_of n # percent_decode s
            | None \<Rightarrow> c # percent_decode (a # b # s))
      else c # percent_decode (a # b # s))"
| "percent_decode (c # s) = c # percent_decode s"
| "percent_decode [] = []"

fun dns_query_param_parts ::
    "(string \<Rightarrow> u8 list option) \<Rightarrow> (string \<Rightarrow> u8 list option) \<Rightarrow> string list \<Rightarrow> u8 list option" where
  \<comment> \<open>the arguments are the base64 engines without and with padding\<close>
  "dns_query_param_parts b64 b64pad [] = None"
| "dns_query_param_parts b64 b64pad (part # parts) =
     (case split_once (CHR ''='') part of
        None \<Rightarrow> dns_query_param_parts b64 b64pad parts
      | Some (k, v) \<Rightarrow>
          (if k \<noteq> ''dns'' then dns_query_param_parts b64 b64pad parts
           else (case b64 (percent_decode v) of
               Some b \<Rightarrow> Some b
             | None \<Rightarrow>
                 (case b64pad (percent_decode v) of
                    Some b \<Rightarrow> Some b
                  | None \<Rightarrow> dns_query_param_parts b64 b64pad parts))))"

definition dns_query_param ::
    "(string \<Rightarrow> u8 list option) \<Rightarrow> (string \<Rightarrow> u8 list option) \<Rightarrow> string \<Rightarrow> u8 list option" where
  "dns_query_param b64 b64pad query =
     dns_query_param_parts b64 b64pad (split_char (CHR ''&'') query)"

datatype doh_reply = DohOk "u8 list" | DohBadRequest | DohBadGateway

definition doh_handle ::
    "'n env \<Rightarrow> string \<Rightarrow> nat \<Rightarrow> ip \<Rightarrow> u8 list \<Rightarrow> 'n world \<Rightarrow> doh_reply \<times> 'n world" where
  "doh_handle env entry timeout peer body w =
     (case dns_decode (en_lib env) body of
        Inl e \<Rightarrow> (DohBadRequest, w)
      | Inr q \<Rightarrow>
          (let c = ctx_new (w_next_id w) (w_now w) q (Some peer) PHttps;
               w0 = w\<lparr>w_next_id := snd (next_id (w_next_id w))\<rparr>
           in case handle env entry c timeout w0 of
                (Inr (Inr _), c', w') \<Rightarrow>
                  (case c_response c' of
                     None \<Rightarrow> (DohBadGateway, w')
                   | Some r \<Rightarrow>
                       (case dns_encode (en_lib env) r of
                          Inl e \<Rightarrow> (DohBadGateway, w') | Inr bytes \<Rightarrow> (DohOk bytes, w')))
              | (_, _, w') \<Rightarrow> (DohBadGateway, w')))"

definition doh_get ::
    "(string \<Rightarrow> u8 list option) \<Rightarrow> (string \<Rightarrow> u8 list option) \<Rightarrow> 'n env \<Rightarrow> string \<Rightarrow> nat \<Rightarrow> ip
      \<Rightarrow> string option \<Rightarrow> 'n world \<Rightarrow> doh_reply \<times> 'n world" where
  "doh_get b64 b64pad env entry timeout peer query w =
     (case Option.bind query (dns_query_param b64 b64pad) of
        None \<Rightarrow> (DohBadRequest, w)
      | Some raw \<Rightarrow> doh_handle env entry timeout peer raw w)"

end
