(* ===== verification/Sockets.thy ===== *)
theory Sockets
  imports Endpoint
begin

text \<open>
  What a listener of \<^verbatim>\<open>src/server.rs\<close> needs of the operating system and of \<^verbatim>\<open>rustls\<close>: the certificates
  and the key of a TLS acceptor, and the bound UDP sockets. The readers of \<^verbatim>\<open>rustls_pemfile\<close>, the
  checks of \<^verbatim>\<open>rustls\<close> and the socket calls are parameters.
\<close>

section \<open>Certificates and keys\<close>

datatype private_key = Pkcs1 "u8 list" | Pkcs8 "u8 list" | Sec1 "u8 list"

datatype pem_item = KeyItem private_key | OtherItem

record pem =
  \<comment> \<open>what \<open>rustls_pemfile::certs\<close> and the calls of \<open>read_one\<close> give for a file, if it can be opened,
      with the text of an error; and whether \<open>rustls\<close> takes a chain with a key\<close>
  pem_certs :: "string \<Rightarrow> (string + u8 list) list res"
  pem_items :: "string \<Rightarrow> (string + pem_item) list res"
  pem_accepts :: "u8 list list \<Rightarrow> private_key \<Rightarrow> string + unit"

record tls_acceptor =
  ta_certs :: "u8 list list"
  ta_key :: private_key
  ta_alpn :: "string list"

definition config_err :: "string + 'a \<Rightarrow> 'a res" where
  \<comment> \<open>\<open>map_err(|e| Error::config(e.to_string()))\<close>\<close>
  "config_err r = (case r of Inl e \<Rightarrow> Inl (ConfigErr e) | Inr x \<Rightarrow> Inr x)"

definition load_certs :: "pem \<Rightarrow> string \<Rightarrow> u8 list list res" where
  "load_certs P path = res_bind (pem_certs P path) (res_map config_err)"

fun first_key :: "string \<Rightarrow> (string + pem_item) list \<Rightarrow> private_key res" where
  "first_key path [] = Inl (ConfigErr (''no private key in '' @ path))"
| "first_key path (Inr (KeyItem k) # items) = Inr k"
| "first_key path (Inr OtherItem # items) = first_key path items"
| "first_key path (Inl e # items) = Inl (ConfigErr e)"

definition load_key :: "pem \<Rightarrow> string \<Rightarrow> private_key res" where
  "load_key P path = res_bind (pem_items P path) (first_key path)"

definition load_acceptor :: "pem \<Rightarrow> string \<Rightarrow> string \<Rightarrow> string list \<Rightarrow> tls_acceptor res" where
  \<comment> \<open>\<open>tls_acceptor\<close>\<close>
  "load_acceptor P cert key alpn =
     res_bind (load_certs P cert) (\<lambda>certs.
     res_bind (load_key P key) (\<lambda>k.
     res_bind (config_err (pem_accepts P certs k)) (\<lambda>_.
     Inr \<lparr>ta_certs = certs, ta_key = k, ta_alpn = alpn\<rparr>)))"

lemma config_err_Inr [simp]: "config_err r = Inr x \<longleftrightarrow> r = Inr x"
  by (cases r) (simp_all add: config_err_def)

lemma load_acceptor_alpn:
  "load_acceptor P cert key alpn = Inr a \<Longrightarrow> \<exists>b. load_acceptor P cert key alpn' = Inr b"
  by (auto simp: load_acceptor_def)

section \<open>UDP sockets\<close>

record 'h udp_sys =
  \<comment> \<open>the calls on the \<open>n\<close>-th socket; the address family is that of IPv6 or not\<close>
  so_socket :: "nat \<Rightarrow> bool \<Rightarrow> 'h res"
  so_reuse_address :: "'h \<Rightarrow> unit res"
  so_reuse_port :: "'h \<Rightarrow> unit res"
  so_nonblocking :: "'h \<Rightarrow> unit res"
  so_bind :: "'h \<Rightarrow> socket_addr \<Rightarrow> unit res"
  so_register :: "'h \<Rightarrow> unit res"

definition bind_udp :: "'h udp_sys \<Rightarrow> bool \<Rightarrow> string \<Rightarrow> nat \<Rightarrow> 'h res" where
  \<comment> \<open>the second argument is \<open>cfg(unix)\<close>\<close>
  "bind_udp S unix addr n =
     res_bind (ok_or (ConfigErr (''bad listen addr '' @ addr @ '': '')) (parse_socket_addr addr)) (\<lambda>a.
     res_bind (so_socket S n (\<not> is_ipv4 (sa_ip a))) (\<lambda>h.
     res_bind (so_reuse_address S h) (\<lambda>_.
     res_bind (if unix then so_reuse_port S h else Inr ()) (\<lambda>_.
     res_bind (so_nonblocking S h) (\<lambda>_.
     res_bind (so_bind S h a) (\<lambda>_.
     res_bind (so_register S h) (\<lambda>_. Inr h)))))))"

definition spawn_udp :: "'h udp_sys \<Rightarrow> bool \<Rightarrow> string \<Rightarrow> nat \<Rightarrow> 'h list res" where
  \<comment> \<open>the sockets of the workers; none is started unless all are bound\<close>
  "spawn_udp S unix addr workers = res_map (bind_udp S unix addr) [0..<max workers 1]"

fun udp_workers_end :: "string option list \<Rightarrow> unit res" where
  \<comment> \<open>how \<open>spawn_udp\<close> ends: the workers in the order they end, each with the text of its panic if it had one\<close>
  "udp_workers_end [] = Inr ()"
| "udp_workers_end (None # ws) = udp_workers_end ws"
| "udp_workers_end (Some e # ws) = Inl (ProtocolErr (''udp worker failed: '' @ e))"

definition udp_received :: "(error + u8 list \<times> ip) list \<Rightarrow> (u8 list \<times> ip) list" where
  \<comment> \<open>the tasks a worker spawns for what \<open>recv_from\<close> gives, one for each datagram\<close>
  "udp_received rs = List.map_filter (\<lambda>r. case r of Inl e \<Rightarrow> None | Inr d \<Rightarrow> Some d) rs"

end
