(* ===== verification/Runtime.thy ===== *)
theory Runtime
  imports Graph Server Sockets
begin

text \<open>
  \<^verbatim>\<open>src/runtime.rs\<close>: building a runtime from a configuration, binding the caches to it, and
  replacing it on reload. What the file system, TLS, the HTTP client and the log crate decide about
  a setting is the record \<open>platform\<close>.
\<close>

record platform =
  pf_files :: files
  pf_uri :: "string \<Rightarrow> (string \<times> string option) option"
  pf_pem :: pem
  pf_log_level :: "string \<Rightarrow> bool"
  pf_http :: "upstream_spec \<Rightarrow> unit res"
  pf_tls_client :: "bool \<Rightarrow> unit res"

section \<open>Settings\<close>

definition doh_path_ok :: "platform \<Rightarrow> string \<Rightarrow> unit res" where
  "doh_path_ok pf path =
     (case pf_uri pf path of
        None \<Rightarrow> Inl (ConfigErr ''bad doh path: '')
      | Some (p, query) \<Rightarrow>
          (if path = [] \<or> hd path \<noteq> CHR ''/'' \<or> p \<noteq> path \<or> query \<noteq> None
              \<or> list_ex (\<lambda>c. c \<in> set ''{}*#'') path
              \<or> list_ex (\<lambda>seg. seg \<noteq> [] \<and> hd seg = CHR '':'') (split_char (CHR ''/'') path)
           then Inl (ConfigErr ''doh url_path must be a fixed absolute URL path'')
           else Inr ()))"

definition https_alpn :: "string list" where
  "https_alpn = [''h2'', ''http/1.1'']"

definition validate_listener :: "platform \<Rightarrow> listener_config \<Rightarrow> unit res" where
  "validate_listener pf l =
     (if parse_socket_addr (li_addr l) = None then Inl (ConfigErr (''bad listen addr '' @ li_addr l @ '': ''))
      else let protocol = to_ascii_lowercase (li_protocol l) in
        if protocol = ''udp'' \<or> protocol = [] \<or> protocol = ''tcp'' then Inr ()
        else if protocol = ''tls'' \<or> protocol = ''dot''
        then res_bind (ok_or (ConfigErr ''tls listener needs cert'') (li_cert l)) (\<lambda>cert.
             res_bind (ok_or (ConfigErr ''tls listener needs key'') (li_key l)) (\<lambda>key.
             res_bind (load_acceptor (pf_pem pf) cert key []) (\<lambda>_. Inr ())))
        else if protocol = ''doh'' \<or> protocol = ''https'' \<or> protocol = ''http''
        then res_bind (doh_path_ok pf (case li_url_path l of Some p \<Rightarrow> p | None \<Rightarrow> ''/dns-query''))
               (\<lambda>_. case (li_cert l, li_key l) of
                  (Some cert, Some key) \<Rightarrow>
                    res_bind (load_acceptor (pf_pem pf) cert key https_alpn) (\<lambda>_. Inr ())
                | (None, None) \<Rightarrow> Inr ()
                | _ \<Rightarrow> Inl (ConfigErr ''doh https needs both cert and key''))
        else Inl (ConfigErr (''unknown listener protocol `'' @ protocol @ ''`'')))"

definition validate_settings :: "platform \<Rightarrow> config \<Rightarrow> unit res" where
  "validate_settings pf cfg =
     (if \<not> pf_log_level pf (lg_level (cf_log cfg)) then Inl (ConfigErr ''bad log level: '')
      else if (case lg_file (cf_log cfg) of None \<Rightarrow> False | Some p \<Rightarrow> trim p = [])
      then Inl (ConfigErr ''log.file must not be empty'')
      else if (case cf_api_http cfg of None \<Rightarrow> False | Some b \<Rightarrow> parse_socket_addr b = None)
      then Inl (ConfigErr ''bad api addr '')
      else res_bind (res_map (\<lambda>s. res_map (validate_listener pf) (sv_listeners s)) (cf_servers cfg))
        (\<lambda>_. Inr ()))"

section \<open>Building\<close>

record 'n build_state =
  bs_execs :: "(string \<times> 'n plugin) list"
  bs_domains :: "(string \<times> domain_set) list"
  bs_ips :: "(string \<times> ip_set) list"
  bs_caches :: "(string \<times> cache) list"
  bs_seqs :: "(string \<times> yaml) list"
  bs_fallbacks :: "(string \<times> fallback) list"

definition build_start :: "'n build_state" where
  "build_start = \<lparr>bs_execs = [], bs_domains = [], bs_ips = [], bs_caches = [], bs_seqs = [],
     bs_fallbacks = []\<rparr>"

definition put_exec :: "string \<Rightarrow> 'n plugin \<Rightarrow> 'n build_state \<Rightarrow> 'n build_state" where
  "put_exec tag p st = st\<lparr>bs_execs := AList.update tag p (bs_execs st)\<rparr>"

definition build_plugin ::
    "'n lib \<Rightarrow> platform \<Rightarrow> 'n build_state \<Rightarrow> plugin_config \<Rightarrow> 'n build_state res" where
  "build_plugin L pf st p =
     (let tag = plugin_tag p; ty = pc_ty p; args = pc_args p; fs = pf_files pf in
      if ty = ''domain_set''
      then res_bind (domain_from_args L fs args (pc_base p)) (\<lambda>s.
           Inr (st\<lparr>bs_domains := AList.update tag s (bs_domains st)\<rparr>))
      else if ty = ''ip_set''
      then res_bind (ip_from_args L fs args (pc_base p)) (\<lambda>s.
           Inr (st\<lparr>bs_ips := AList.update tag s (bs_ips st)\<rparr>))
      else if ty = ''cache''
      then Inr (put_exec tag PlCache
             (st\<lparr>bs_caches := AList.update tag (cache_from_args tag args) (bs_caches st)\<rparr>))
      else if ty = ''hosts''
      then res_bind (hosts_from_args L fs tag args (pc_base p)) (\<lambda>h. Inr (put_exec tag (PlHosts h) st))
      else if ty = ''forward'' \<or> ty = ''fast_forward''
      then res_bind (forward_from_args (forward_connect (pf_http pf) (pf_tls_client pf)) tag args) (\<lambda>f.
           Inr (put_exec tag (PlForward f) st))
      else if ty = ''black_hole'' \<or> ty = ''blackhole'' \<or> ty = ''reject_any''
      then Inr (put_exec tag (PlBlackhole (blackhole_from_args args)) st)
      else if ty = ''redirect''
      then res_bind (redirect_from_args L args) (\<lambda>r. Inr (put_exec tag (PlRedirect r) st))
      else if ty = ''ecs''
      then res_bind (ecs_from_args tag args) (\<lambda>e. Inr (put_exec tag (PlEcs e) st))
      else if ty = ''no_ecs'' \<or> ty = ''_no_ecs'' then Inr (put_exec tag (PlNoEcs tag) st)
      else if ty = ''sequence'' then Inr (st\<lparr>bs_seqs := bs_seqs st @ [(tag, args)]\<rparr>)
      else if ty = ''fallback''
      then res_bind (fallback_from_args tag args) (\<lambda>f.
           Inr (st\<lparr>bs_fallbacks := bs_fallbacks st @ [(tag, f)]\<rparr>))
      else Inl (PluginErr tag ty ''unknown plugin type''))"

definition pick_default_entry :: "config \<Rightarrow> (string \<times> yaml) list \<Rightarrow> string option" where
  "pick_default_entry cfg seqs =
     (case filter (\<lambda>e. e \<noteq> []) (map (\<lambda>s. trim_start_matches (CHR ''$'') (sv_exec s)) (cf_servers cfg)) of
        e # _ \<Rightarrow> Some e
      | [] \<Rightarrow> (if seqs = [] then None else Some (fst (last seqs))))"

definition fill_entry :: "string option \<Rightarrow> server_config \<Rightarrow> server_config res" where
  "fill_entry dflt s =
     (if sv_exec s = []
      then res_bind (ok_or (ConfigErr ''server has no exec/entry'') dflt) (\<lambda>e. Inr (s\<lparr>sv_exec := e\<rparr>))
      else Inr s)"

definition compile_sequence ::
    "'n lib \<Rightarrow> registry_sets \<Rightarrow> string \<times> yaml \<Rightarrow> (string \<times> 'n plugin) res" where
  "compile_sequence L sets p =
     res_bind (parse_steps (snd p)) (\<lambda>raw.
     res_bind (compile_steps L (fst p) raw sets) (\<lambda>q. Inr (fst p, PlSequence q)))"

record 'n runtime =
  rt_registry :: "'n registry"
  rt_config :: config
  rt_caches :: "(string \<times> cache) list"

definition bind_cache_refresh ::
    "string option \<Rightarrow> (string \<times> cache) list \<Rightarrow> (string \<times> cache) list" where
  "bind_cache_refresh dflt caches =
     (case dflt of None \<Rightarrow> caches | Some e \<Rightarrow> map (\<lambda>(t, ca). (t, bind_refresh e ca)) caches)"

definition insert_execs :: "(string \<times> 'n plugin) list \<Rightarrow> (string \<times> 'n plugin) list \<Rightarrow> (string \<times> 'n plugin) list" where
  "insert_execs new execs = fold (\<lambda>(t, p). AList.update t p) new execs"

definition build_registry ::
    "'n lib \<Rightarrow> config \<Rightarrow> 'n build_state \<Rightarrow> 'n runtime res" where
  \<comment> \<open>the second half of \<open>build\<close>\<close>
  "build_registry L cfg st =
     (let dflt = pick_default_entry cfg (bs_seqs st);
          sets = \<lparr>rg_domains = bs_domains st, rg_ips = bs_ips st\<rparr>
      in res_bind (res_map (fill_entry dflt) (cf_servers cfg)) (\<lambda>servers.
         res_bind (res_map (compile_sequence L sets) (bs_seqs st)) (\<lambda>compiled.
         let reg = \<lparr>rg_execs = insert_execs (map (\<lambda>(t, f). (t, PlFallback f)) (bs_fallbacks st))
                      (insert_execs compiled (bs_execs st)),
                    rg_sets = sets, rg_default_entry = dflt\<rparr>
         in res_bind (res_map (\<lambda>s. get_exec (sv_exec s) reg) servers) (\<lambda>_.
            Inr \<lparr>rt_registry = reg, rt_config = cfg\<lparr>cf_servers := servers\<rparr>,
                 rt_caches = bind_cache_refresh dflt (bs_caches st)\<rparr>))))"

definition build :: "'n lib \<Rightarrow> platform \<Rightarrow> config \<Rightarrow> 'n runtime res" where
  "build L pf cfg0 =
     res_bind (normalize_entries cfg0) (\<lambda>cfg.
     res_bind (validate_plugin_graph cfg) (\<lambda>_.
     res_bind (validate_settings pf cfg) (\<lambda>_.
     res_bind (res_fold (build_plugin L pf) build_start (cf_plugins cfg)) (\<lambda>st.
     build_registry L cfg st))))"

definition validate_service :: "'n runtime \<Rightarrow> unit res" where
  "validate_service rt =
     (if cf_api_http (rt_config rt) = None
         \<and> list_all (\<lambda>s. sv_listeners s = []) (cf_servers (rt_config rt))
      then Inl (ConfigErr ''no listeners configured'') else Inr ())"

section \<open>Reload\<close>

definition reload ::
    "'n lib \<Rightarrow> platform \<Rightarrow> loader \<Rightarrow> string \<Rightarrow> 'n runtime \<Rightarrow> unit res \<times> 'n runtime" where
  \<comment> \<open>\<open>Live::reload_file\<close>: the outcome and the runtime that is live afterwards\<close>
  "reload L pf ld path previous =
     (case res_bind (load_file ld path) (build L pf) of
        Inl e \<Rightarrow> (Inl e, previous)
      | Inr rt \<Rightarrow>
          (if cf_servers (rt_config previous) \<noteq> cf_servers (rt_config rt)
              \<or> cf_api_http (rt_config previous) \<noteq> cf_api_http (rt_config rt)
           then (Inl (ConfigErr ''listener, entry or API changes require a process restart''), previous)
           else if cf_log (rt_config previous) \<noteq> cf_log (rt_config rt)
           then (Inl (ConfigErr ''logging changes require a process restart''), previous)
           else (Inr (), rt)))"

end
