(* ===== verification/Listeners.thy ===== *)
theory Listeners
  imports Runtime
begin

text \<open>
  How a runtime is put into service: what \<open>Live::serve\<close> of \<^verbatim>\<open>src/runtime.rs\<close> starts, the
  listener each setting selects in \<^verbatim>\<open>src/server.rs\<close>, and the routes
  of a DoH listener.
\<close>

section \<open>Listeners\<close>

datatype plan =
    UdpPlan string nat string nat
  | StreamPlan string nat nat string client_proto "tls_acceptor option"
  | DohPlan string nat socket_addr string "(tls_acceptor \<times> nat) option"
  | ApiPlan string

definition udp_worker_count :: "nat option \<Rightarrow> listener_config \<Rightarrow> nat" where
  \<comment> \<open>the first argument is \<open>available_parallelism\<close>, at least 1 where it is known\<close>
  "udp_worker_count cores l =
     (case li_workers l of
        Some n \<Rightarrow> if 0 < n then unat n else (case cores of Some c \<Rightarrow> max 1 (min c 8) | None \<Rightarrow> 2)
      | None \<Rightarrow> (case cores of Some c \<Rightarrow> max 1 (min c 8) | None \<Rightarrow> 2))"

definition listener_idle :: "listener_config \<Rightarrow> nat" where
  "listener_idle l = nanos (unat (max (case li_idle_timeout l of Some n \<Rightarrow> n | None \<Rightarrow> 10) 1))"

definition tls_handshake_timeout :: nat where
  "tls_handshake_timeout = nanos 10"

definition doh_plan :: "platform \<Rightarrow> string \<Rightarrow> nat \<Rightarrow> listener_config \<Rightarrow> plan res" where
  \<comment> \<open>\<open>spawn_doh\<close>; the last part is the acceptor and the handshake timeout of HTTPS\<close>
  "doh_plan pf entry timeout l =
     (let path = (case li_url_path l of Some p \<Rightarrow> p | None \<Rightarrow> ''/dns-query'') in
      res_bind (ok_or (ConfigErr ''bad doh addr: '') (parse_socket_addr (li_addr l))) (\<lambda>a.
      case (li_cert l, li_key l) of
        (Some cert, Some key) \<Rightarrow>
          res_bind (load_acceptor (pf_pem pf) cert key https_alpn) (\<lambda>acc.
          Inr (DohPlan entry timeout a path (Some (acc, min (listener_idle l) tls_handshake_timeout))))
      | (None, None) \<Rightarrow> Inr (DohPlan entry timeout a path None)
      | _ \<Rightarrow> Inl (ConfigErr ''doh https needs both cert and key (omit both for plaintext behind a TLS terminator)'')))"

definition listener_plan ::
    "platform \<Rightarrow> nat option \<Rightarrow> string \<Rightarrow> nat \<Rightarrow> listener_config \<Rightarrow> plan res" where
  \<comment> \<open>\<open>spawn_listener\<close>\<close>
  "listener_plan pf cores entry timeout l =
     res_bind (validate_listener pf l) (\<lambda>_.
     let proto = to_ascii_lowercase (li_protocol l) in
     if proto = ''udp'' \<or> proto = []
     then Inr (UdpPlan entry timeout (li_addr l) (udp_worker_count cores l))
     else if proto = ''tcp'' then Inr (StreamPlan entry timeout (listener_idle l) (li_addr l) PTcp None)
     else if proto = ''tls'' \<or> proto = ''dot''
     then res_bind (ok_or (ConfigErr ''tls listener needs cert'') (li_cert l)) (\<lambda>cert.
          res_bind (ok_or (ConfigErr ''tls listener needs key'') (li_key l)) (\<lambda>key.
          res_bind (load_acceptor (pf_pem pf) cert key []) (\<lambda>acc.
          Inr (StreamPlan entry timeout (listener_idle l) (li_addr l) PTls (Some acc)))))
     else if proto = ''doh'' \<or> proto = ''https'' \<or> proto = ''http'' then doh_plan pf entry timeout l
     else Inl (ConfigErr (''unknown listener protocol `'' @ proto @ ''`'')))"

definition serve_plans :: "platform \<Rightarrow> nat option \<Rightarrow> 'n runtime \<Rightarrow> plan res list res" where
  \<comment> \<open>the tasks \<open>Live::serve\<close> spawns, each with what starting it gives\<close>
  "serve_plans pf cores rt =
     res_bind (validate_service rt) (\<lambda>_.
     Inr (concat (map (\<lambda>s. map (listener_plan pf cores (sv_exec s) (nanos (unat (max (sv_timeout s) 1))))
           (sv_listeners s)) (cf_servers (rt_config rt)))
       @ (case cf_api_http (rt_config rt) of None \<Rightarrow> [] | Some http \<Rightarrow> [Inr (ApiPlan http)])))"

datatype task_end = TaskReturned "unit res" | TaskPanicked

definition serve_end :: "task_end option \<Rightarrow> error" where
  \<comment> \<open>how \<open>Live::serve\<close> ends when the first of its tasks does: always with an error\<close>
  "serve_end x =
     (case x of
        Some (TaskReturned (Inl e)) \<Rightarrow> e
      | Some TaskPanicked \<Rightarrow> ConfigErr ''listener task failed: ''
      | _ \<Rightarrow> ConfigErr ''listener exited unexpectedly'')"

section \<open>Routes of a DoH listener\<close>

datatype doh_route = DohServed doh_reply | DohNotFound | DohMethodNotAllowed

definition doh_dispatch ::
    "(string \<Rightarrow> u8 list option) \<Rightarrow> (string \<Rightarrow> u8 list option) \<Rightarrow> 'n env \<Rightarrow> string \<Rightarrow> nat \<Rightarrow> string
      \<Rightarrow> string \<Rightarrow> string \<Rightarrow> ip \<Rightarrow> string option \<Rightarrow> u8 list \<Rightarrow> 'n world \<Rightarrow> doh_route \<times> 'n world" where
  \<comment> \<open>the router of \<open>spawn_doh\<close>: path of the listener, then method and path of the request\<close>
  "doh_dispatch b64 b64pad env entry timeout lpath meth path peer query body w =
     (if path \<noteq> ''/dns-query'' \<and> path \<noteq> lpath then (DohNotFound, w)
      else if meth = ''POST''
      then (case doh_handle env entry timeout peer body w of (r, w') \<Rightarrow> (DohServed r, w'))
      else if meth = ''GET'' \<or> meth = ''HEAD''
      then (case doh_get b64 b64pad env entry timeout peer query w of (r, w') \<Rightarrow> (DohServed r, w'))
      else (DohMethodNotAllowed, w))"

end
