(* ===== verification/Commands.thy ===== *)
theory Commands
  imports Listeners "HOL-Library.Extended_Nat"
begin

text \<open>
  The commands of \<^verbatim>\<open>src/main.rs\<close>: the dispatch of \<open>main\<close>, setting up the log, the race of
  the service with the shutdown signals, and the reload loop behind SIGHUP. What the log crate makes
  of a filter, whether a log file opens and when signals arrive are parameters; a failure is the
  context \<open>anyhow\<close> adds with the error below it.
\<close>

section \<open>The log\<close>

type_synonym failure = "string \<times> error"

definition with_context :: "string \<Rightarrow> 'a res \<Rightarrow> failure + 'a" where
  "with_context ctx r = (case r of Inl e \<Rightarrow> Inl (ctx, e) | Inr x \<Rightarrow> Inr x)"

record log_ops =
  lo_env_filter :: bool
  lo_filter :: "string \<Rightarrow> bool"
  lo_open :: "string \<Rightarrow> bool"

datatype log_target = LogStdout | LogFile string

record log_setup =
  ls_target :: log_target
  ls_ansi :: bool

definition log_filter :: "log_config \<Rightarrow> string" where
  "log_filter lg = ''ferrumdns='' @ lg_level lg @ '',info''"

definition init_log :: "log_ops \<Rightarrow> log_config \<Rightarrow> failure + log_setup" where
  "init_log lo lg =
     (if \<not> lo_env_filter lo \<and> \<not> lo_filter lo (log_filter lg) then Inl (''invalid log filter'', OtherErr [])
      else (case lg_file lg of
          None \<Rightarrow> Inr \<lparr>ls_target = LogStdout, ls_ansi = True\<rparr>
        | Some p \<Rightarrow>
            (if lo_open lo p then Inr \<lparr>ls_target = LogFile p, ls_ansi = False\<rparr>
             else Inl (''open log file '' @ p, IoErr []))))"

definition log_default :: log_config where
  "log_default = \<lparr>lg_level = ''info'', lg_file = None\<rparr>"

section \<open>Shutdown\<close>

definition signal_end :: "enat res \<Rightarrow> enat" where
  \<comment> \<open>when waiting for a signal ends: when it arrives, or at once when its handler cannot be installed\<close>
  "signal_end r = (case r of Inl e \<Rightarrow> 0 | Inr t \<Rightarrow> t)"

definition shutdown_signal :: "enat res \<Rightarrow> enat res \<Rightarrow> enat" where
  "shutdown_signal ctrl_c term = min (signal_end ctrl_c) (signal_end term)"

section \<open>Commands\<close>

datatype command = Start string | Check string | Version

datatype first = ServeFirst "task_end option" | ShutdownFirst

datatype outcome = Exit "string list" | Failed failure

definition version :: string where
  "version = ''0.1.1''"

definition main_check :: "'n lib \<Rightarrow> platform \<Rightarrow> log_ops \<Rightarrow> loader \<Rightarrow> string \<Rightarrow> failure + string" where
  "main_check L pf lo ld path =
     res_bind (init_log lo log_default) (\<lambda>_.
     res_bind (with_context (''load '' @ path) (load_file ld path)) (\<lambda>cfg.
     res_bind (with_context ''build runtime'' (build L pf cfg)) (\<lambda>rt.
     res_bind (with_context ''validate service'' (validate_service rt)) (\<lambda>_.
     Inr (''config ok ('' @ path @ '')'')))))"

definition main_start ::
    "'n lib \<Rightarrow> platform \<Rightarrow> log_ops \<Rightarrow> loader \<Rightarrow> string \<Rightarrow> failure + 'n runtime" where
  \<comment> \<open>\<open>Start\<close> up to the service\<close>
  "main_start L pf lo ld path =
     res_bind (with_context (''load '' @ path) (load_file ld path)) (\<lambda>cfg.
     res_bind (init_log lo (cf_log cfg)) (\<lambda>_.
     with_context ''build runtime'' (build L pf cfg)))"

definition main_serve :: "platform \<Rightarrow> nat option \<Rightarrow> 'n runtime \<Rightarrow> first \<Rightarrow> outcome" where
  \<comment> \<open>the \<open>select!\<close> of \<open>Start\<close>: which branch is ready first, and how the first task of the service ends\<close>
  "main_serve pf cores rt x =
     (case x of
        ShutdownFirst \<Rightarrow> Exit []
      | ServeFirst e \<Rightarrow>
          Failed (''serve'', case serve_plans pf cores rt of Inl err \<Rightarrow> err | Inr plans \<Rightarrow> serve_end e))"

definition main_run ::
    "'n lib \<Rightarrow> platform \<Rightarrow> nat option \<Rightarrow> log_ops \<Rightarrow> loader \<Rightarrow> first \<Rightarrow> command \<Rightarrow> outcome" where
  "main_run L pf cores lo ld x cmd =
     (case cmd of
        Version \<Rightarrow> Exit [''ferrumdns '' @ version]
      | Check path \<Rightarrow> (case main_check L pf lo ld path of Inl f \<Rightarrow> Failed f | Inr line \<Rightarrow> Exit [line])
      | Start path \<Rightarrow>
          (case main_start L pf lo ld path of Inl f \<Rightarrow> Failed f | Inr rt \<Rightarrow> main_serve pf cores rt x))"

section \<open>Reloads\<close>

fun reload_loop :: "'n lib \<Rightarrow> platform \<Rightarrow> string \<Rightarrow> loader list \<Rightarrow> 'n runtime \<Rightarrow> 'n runtime" where
  \<comment> \<open>one reload for each SIGHUP; each finds the file system as it is then\<close>
  "reload_loop L pf path [] live = live"
| "reload_loop L pf path (ld # lds) live =
     reload_loop L pf path lds (snd (reload L pf ld path live))"

definition reload_task ::
    "'n lib \<Rightarrow> platform \<Rightarrow> string \<Rightarrow> loader list res \<Rightarrow> 'n runtime \<Rightarrow> 'n runtime" where
  \<comment> \<open>the task that reloads; without a handler for SIGHUP it ends, and the service goes on\<close>
  "reload_task L pf path hup live =
     (case hup of Inl e \<Rightarrow> live | Inr lds \<Rightarrow> reload_loop L pf path lds live)"

end
