(* ===== verification/Api.thy ===== *)
theory Api
  imports Runtime Endpoint "HOL-Library.List_Lexorder" "HOL-Library.Char_ord"
begin

text \<open>
  \<^verbatim>\<open>src/api.rs\<close>: the admin API. The guard against writes from foreign web pages, the views
  of the running system, a query from the console and the flushing of caches. URL parsing, JSON and
  how record data is printed are the parameters \<open>web\<close>; the embedded assets are left to the source.
\<close>

section \<open>Requests and foreign operations\<close>

record url =
  ur_scheme :: string
  ur_host :: "string option"
  ur_port :: "u16 option"
  ur_username :: string
  ur_password :: "string option"
  ur_path :: string
  ur_query :: "string option"
  ur_fragment :: "string option"
  ur_origin :: string

record 'n web =
  wb_url :: "string \<Rightarrow> url option"
  wb_authority :: "string \<Rightarrow> bool"
  wb_flush_req :: "u8 list \<Rightarrow> string option option"
  wb_rdata_debug :: "'n rdata \<Rightarrow> string"
  wb_rdata_display :: "'n rdata \<Rightarrow> string"
  wb_type_display :: "record_type \<Rightarrow> string"

type_synonym headers = "(string \<times> string option) list"

record request =
  \<comment> \<open>header names in lower case; a value is \<open>None\<close> when it is not visible ASCII\<close>
  rq_method :: string
  rq_path :: string
  rq_headers :: headers
  rq_body :: "u8 list"

definition get_all :: "string \<Rightarrow> headers \<Rightarrow> string option list" where
  "get_all k hs = map snd (filter (\<lambda>(n, _). n = k) hs)"

definition method_is_safe :: "string \<Rightarrow> bool" where
  "method_is_safe m \<longleftrightarrow> m \<in> {''GET'', ''HEAD'', ''OPTIONS'', ''TRACE''}"

section \<open>Where a request comes from\<close>

definition plain_origin :: "url \<Rightarrow> bool" where
  "plain_origin u \<longleftrightarrow> (ur_scheme u = ''http'' \<or> ur_scheme u = ''https'') \<and> ur_host u \<noteq> None
     \<and> ur_username u = [] \<and> ur_password u = None \<and> ur_path u = ''/'' \<and> ur_query u = None
     \<and> ur_fragment u = None"

definition host_is_origin :: "'n web \<Rightarrow> headers \<Rightarrow> url \<Rightarrow> bool" where
  \<comment> \<open>the end of \<open>trusted_browser_source\<close>: one plain \<open>Host\<close> header, with the origin's host and port\<close>
  "host_is_origin web hs orig =
     (case get_all ''host'' hs of
        [Some host] \<Rightarrow>
          CHR ''@'' \<notin> set host \<and> wb_authority web host
          \<and> (case wb_url web (ur_scheme orig @ ''://'' @ host) of
               Some target \<Rightarrow> ur_origin target = ur_origin orig | None \<Rightarrow> False)
      | _ \<Rightarrow> False)"

definition site_allowed :: "headers \<Rightarrow> bool" where
  "site_allowed hs =
     (case get_all ''sec-fetch-site'' hs of
        [] \<Rightarrow> True
      | [v] \<Rightarrow> v = Some ''same-origin'' \<or> v = Some ''none''
      | _ \<Rightarrow> False)"

definition trusted_browser_source :: "'n web \<Rightarrow> headers \<Rightarrow> bool" where
  "trusted_browser_source web hs =
     (if \<not> site_allowed hs then False
      else (case get_all ''origin'' hs of
          [] \<Rightarrow> True
        | [v] \<Rightarrow>
            (case Option.bind v (wb_url web) of
               None \<Rightarrow> False
             | Some orig \<Rightarrow> plain_origin orig \<and> host_is_origin web hs orig)
        | _ \<Rightarrow> False))"

section \<open>Responses\<close>

record response =
  rs_status :: nat
  rs_headers :: "(string \<times> string) list"
  rs_body :: string

definition header_insert :: "string \<Rightarrow> string \<Rightarrow> (string \<times> string) list \<Rightarrow> (string \<times> string) list" where
  \<comment> \<open>\<open>HeaderMap::insert\<close> replaces every earlier value\<close>
  "header_insert k v hs = filter (\<lambda>(n, _). n \<noteq> k) hs @ [(k, v)]"

definition content_policy :: string where
  \<comment> \<open>the header's value as the source writes it; the closing quote is spelled out\<close>
  "content_policy = ''default-src 'none'; script-src 'self'; style-src 'self'; img-src 'self'; font-src 'self'; connect-src 'self'; base-uri 'none'; frame-ancestors 'none'; form-action 'self'' @ [CHR 0x27]"

definition harden :: "response \<Rightarrow> response" where
  "harden r = r\<lparr>rs_headers :=
     header_insert ''referrer-policy'' ''no-referrer''
    (header_insert ''x-content-type-options'' ''nosniff''
    (header_insert ''content-security-policy'' content_policy
    (header_insert ''cache-control'' ''no-store'' (rs_headers r))))\<rparr>"

definition response_headers ::
    "'n web \<Rightarrow> (request \<Rightarrow> 's \<Rightarrow> response option \<times> 's) \<Rightarrow> request \<Rightarrow> 's \<Rightarrow> response option \<times> 's" where
  \<comment> \<open>the middleware around every route; \<open>next\<close> is the route, which has no response when it panics\<close>
  "response_headers web next rq s =
     (if strip_prefix ''/api/'' (rq_path rq) \<noteq> None \<and> \<not> method_is_safe (rq_method rq)
         \<and> \<not> trusted_browser_source web (rq_headers rq)
      then (Some (harden \<lparr>rs_status = 403, rs_headers = [(''content-type'', ''text/plain; charset=utf-8'')],
              rs_body = ''cross-origin API writes are not allowed''\<rparr>), s)
      else (case next rq s of (r, s') \<Rightarrow> (map_option harden r, s')))"

section \<open>The view of the system\<close>

definition str_contains :: "string \<Rightarrow> string \<Rightarrow> bool" where
  "str_contains pat s \<longleftrightarrow> split_once_str pat s \<noteq> None"

definition public_upstream_address :: "'n web \<Rightarrow> string \<Rightarrow> string" where
  "public_upstream_address web address0 =
     (let address = trim address0;
          normalized = (if str_contains ''://'' address then address else ''udp://'' @ address)
      in case wb_url web normalized of
           None \<Rightarrow> ''(hidden)''
         | Some u \<Rightarrow>
             (case ur_host u of
                None \<Rightarrow> ''(hidden)''
              | Some host \<Rightarrow> ur_scheme u @ ''://'' @ host
                  @ (case ur_port u of Some p \<Rightarrow> '':'' @ show_word p | None \<Rightarrow> [])))"

record upstream_view =
  uv_plugin :: string
  uv_tag :: "string option"
  uv_addr :: string

record listener_view =
  lv_protocol :: string
  lv_addr :: string
  lv_entry :: string
  lv_timeout_secs :: u64
  lv_tls :: bool

record system_view =
  sy_runtime_id :: string
  sy_entry :: "string option"
  sy_listeners :: "listener_view list"
  sy_plugins :: "(string \<times> string) list"
  sy_upstreams :: "upstream_view list"

definition runtime_id :: "u64 \<Rightarrow> instant \<Rightarrow> instant \<Rightarrow> string" where
  \<comment> \<open>prefix, direction and distance of the runtime's start from the first one's\<close>
  "runtime_id id_prefix initial started =
     (let h = show_hex (unat id_prefix) in
      replicate (16 - length h) (CHR ''0'') @ h
      @ (if initial \<le> started then ''+'' @ show_nat (started - initial)
         else ''-'' @ show_nat (initial - started)))"

definition plugin_upstreams :: "'n web \<Rightarrow> plugin_config \<Rightarrow> upstream_view list" where
  "plugin_upstreams web p =
     (if pc_ty p \<noteq> ''forward'' \<and> pc_ty p \<noteq> ''fast_forward'' then []
      else (case y_get_or ''upstreams'' ''upstream'' (pc_args p) of
          None \<Rightarrow> []
        | Some v \<Rightarrow>
            List.map_filter (\<lambda>x. case spec_from_value x of
                Inl e \<Rightarrow> None
              | Inr sp \<Rightarrow> Some \<lparr>uv_plugin = plugin_tag p, uv_tag = us_tag sp,
                  uv_addr = public_upstream_address web (us_addr sp)\<rparr>)
              (case y_as_seq v of Some vs \<Rightarrow> vs | None \<Rightarrow> [v])))"

definition listener_view_of :: "server_config \<Rightarrow> listener_config \<Rightarrow> listener_view" where
  "listener_view_of s l =
     (let protocol = to_ascii_lowercase (li_protocol l) in
      \<lparr>lv_protocol = (if protocol = [] then ''udp'' else protocol), lv_addr = li_addr l,
       lv_entry = sv_exec s, lv_timeout_secs = max (sv_timeout s) 1,
       lv_tls = (protocol = ''tls'' \<or> protocol = ''dot''
         \<or> (protocol = ''http'' \<or> protocol = ''https'' \<or> protocol = ''doh'')
           \<and> li_cert l \<noteq> None \<and> li_key l \<noteq> None)\<rparr>)"

definition system_info :: "'n web \<Rightarrow> u64 \<Rightarrow> instant \<Rightarrow> instant \<Rightarrow> 'n runtime \<Rightarrow> system_view" where
  "system_info web id_prefix initial started rt = \<lparr>
     sy_runtime_id = runtime_id id_prefix initial started,
     sy_entry = rg_default_entry (rt_registry rt),
     sy_listeners = concat (map (\<lambda>s. map (listener_view_of s) (sv_listeners s)) (cf_servers (rt_config rt))),
     sy_plugins = map (\<lambda>p. (plugin_tag p, pc_ty p)) (cf_plugins (rt_config rt)),
     sy_upstreams = concat (map (plugin_upstreams web) (cf_plugins (rt_config rt)))\<rparr>"

record plugins_view =
  pv_executables :: "string list"
  pv_domain_sets :: "string list"
  pv_ip_sets :: "string list"
  pv_caches :: "(string \<times> nat) list"
  pv_entry :: "string option"

definition plugins_info :: "'n registry \<Rightarrow> (string \<times> cache) list \<Rightarrow> plugins_view" where
  "plugins_info reg caches = \<lparr>
     pv_executables = map fst (rg_execs reg), pv_domain_sets = map fst (rg_domains (rg_sets reg)),
     pv_ip_sets = map fst (rg_ips (rg_sets reg)),
     pv_caches = map (\<lambda>(t, ca). (t, cache_len ca)) caches, pv_entry = rg_default_entry reg\<rparr>"

section \<open>Flushing caches\<close>

type_synonym 'a api = "(nat \<times> string) + 'a"

definition media_type :: "headers \<Rightarrow> string option" where
  \<comment> \<open>the first \<open>Content-Type\<close>, without parameters\<close>
  "media_type hs =
     (case get_all ''content-type'' hs of
        Some v # _ \<Rightarrow> Some (trim (hd (split_char (CHR '';'') v)))
      | _ \<Rightarrow> None)"

definition flush_req :: "'n web \<Rightarrow> headers \<Rightarrow> u8 list \<Rightarrow> string option api" where
  "flush_req web hs body =
     (if body = [] then Inr None
      else if media_type hs \<noteq> Some ''application/json'' then Inl (415, ''expected application/json'')
      else ok_or (400, ''invalid cache flush request'') (wb_flush_req web body))"

definition flush_handler ::
    "'n web \<Rightarrow> headers \<Rightarrow> u8 list \<Rightarrow> (string \<times> cache) list \<Rightarrow> string list api \<times> (string \<times> cache) list" where
  "flush_handler web hs body caches =
     (case flush_req web hs body of
        Inl e \<Rightarrow> (Inl e, caches)
      | Inr (Some tag) \<Rightarrow>
          (case map_of caches tag of
             None \<Rightarrow> (Inl (404, ''unknown cache tag''), caches)
           | Some ca \<Rightarrow> (Inr [tag], AList.update tag (cache_flush ca) caches))
      | Inr None \<Rightarrow> (Inr (sort (map fst caches)), map (\<lambda>(t, ca). (t, cache_flush ca)) caches))"

section \<open>A query from the console\<close>

definition default_qtype :: string where
  "default_qtype = ''A''"

record query_req =
  qr_name :: string
  qr_qtype :: string
  qr_entry :: "string option"
  qr_ecs :: "string option"
  qr_client_ip :: "string option"

record query_record =
  qc_name :: string
  qc_ttl :: u32
  qc_type :: string
  qc_data :: string

record query_resp =
  qp_rcode :: string
  qp_answers :: "string list"
  qp_records :: "query_record list"
  qp_elapsed_us :: u64
  qp_cache_hit :: bool
  qp_ecs :: "string option"
  qp_trace :: "trace_event list"

definition query_message :: "'n lib \<Rightarrow> u16 \<Rightarrow> query_req \<Rightarrow> 'n message api" where
  \<comment> \<open>the message a request asks for; the second argument is its random identifier\<close>
  "query_message L rnd req =
     (let bad = (\<lambda>r. case r of Inl e \<Rightarrow> Inl (400, error_display e) | Inr x \<Rightarrow> Inr x);
          name = (if qr_name req \<noteq> [] \<and> last (qr_name req) = CHR ''.'' then qr_name req
                  else qr_name req @ ''.'')
      in res_bind (ok_or (400, ''bad qtype'') (qtype_from_str L (qr_qtype req))) (\<lambda>qt.
         res_bind (bad (build_query L rnd name qt)) (\<lambda>msg.
         case qr_ecs req of
           None \<Rightarrow> Inr msg
         | Some spec \<Rightarrow>
             (case parse_ecs_spec L spec of
                Inl e \<Rightarrow> Inl (400, error_display e) | Inr cs \<Rightarrow> Inr (set_ecs cs msg)))))"

definition query_client :: "query_req \<Rightarrow> ip option api" where
  "query_client req =
     (case qr_client_ip req of
        None \<Rightarrow> Inr None
      | Some s \<Rightarrow> (case parse_ipaddr s of Some a \<Rightarrow> Inr (Some a) | None \<Rightarrow> Inl (400, ''bad client_ip'')))"

definition query_entry :: "'n registry \<Rightarrow> query_req \<Rightarrow> string api" where
  "query_entry reg req =
     res_bind (ok_or (400, ''no entry'')
       (case qr_entry req of
          Some e \<Rightarrow> Some (trim_start_matches (CHR ''$'') (trim e)) | None \<Rightarrow> rg_default_entry reg)) (\<lambda>e.
     case get_exec e reg of Inl err \<Rightarrow> Inl (400, error_display err) | Inr _ \<Rightarrow> Inr e)"

definition query_reply :: "'n lib \<Rightarrow> 'n web \<Rightarrow> 'n world \<Rightarrow> 'n ctx \<Rightarrow> query_resp" where
  "query_reply L web w c =
     (let answers = (case c_response c of None \<Rightarrow> [] | Some r \<Rightarrow> m_answers r) in
      \<lparr>qp_rcode = (case c_response c of Some r \<Rightarrow> rcode_display L (m_rcode r) | None \<Rightarrow> ''SERVFAIL''),
       qp_answers = map (\<lambda>r. nm_display L (rr_name r) @ '' '' @ show_word (rr_ttl r) @ '' ''
         @ wb_rdata_debug web (rr_data r)) answers,
       qp_records = map (\<lambda>r. \<lparr>qc_name = nm_display L (rr_name r), qc_ttl = rr_ttl r,
         qc_type = wb_type_display web (rr_type r), qc_data = wb_rdata_display web (rr_data r)\<rparr>) answers,
       qp_elapsed_us = of_nat ((w_now w - c_start c) div 1000),
       qp_cache_hit = list_ex (\<lambda>t. (t_event t = ''hit'' \<or> t_event t = ''lazy_hit'')
         \<and> t_plugin t \<in> fst ` set (w_caches w)) (c_trace c),
       qp_ecs = map_option (\<lambda>cs. ecs_label (Some cs)) (ecs_of (c_query c)),
       qp_trace = c_trace c\<rparr>)"

datatype query_outcome = QueryErr nat string | QueryOk query_resp | QueryAborted

definition query_handler ::
    "'n env \<Rightarrow> 'n web \<Rightarrow> u16 \<Rightarrow> query_req \<Rightarrow> 'n world \<Rightarrow> query_outcome \<times> 'n world" where
  "query_handler env web rnd req w =
     (case query_message (en_lib env) rnd req of
        Inl (st, e) \<Rightarrow> (QueryErr st e, w)
      | Inr msg \<Rightarrow>
          (case query_client req of
             Inl (st, e) \<Rightarrow> (QueryErr st e, w)
           | Inr client \<Rightarrow>
               (let c = (ctx_new (w_next_id w) (w_now w) msg client PHttps)\<lparr>c_trace_enabled := True\<rparr>;
                    w0 = w\<lparr>w_next_id := snd (next_id (w_next_id w))\<rparr>
                in case query_entry (en_reg env) req of
                     Inl (st, e) \<Rightarrow> (QueryErr st e, w0)
                   | Inr entry \<Rightarrow>
                       (case handle_query env c entry w0 of
                          (Inr (Inr _), c', w') \<Rightarrow> (QueryOk (query_reply (en_lib env) web w' c'), w')
                        | (Inr (Inl e), _, w') \<Rightarrow> (QueryErr 502 (error_display e), w')
                        | (Inl st, _, w') \<Rightarrow> (QueryAborted, w')))))"

end
