(* ===== verification/Console.thy ===== *)
theory Console
  imports Api
begin

text \<open>
  The router of \<^verbatim>\<open>src/api.rs\<close>: the address \<open>serve\<close> binds, the state of the API, the
  handler of each route, and the requests of the console as they reach a handler. The embedded
  files, the extractors of the web framework and the JSON encoding are the record \<open>pages\<close>. A request
  to a route with another method is answered by the framework with 405, one to no route with 404,
  and a GET route serves HEAD without a body.
\<close>

section \<open>Parameters and state\<close>

record query_json =
  \<comment> \<open>the JSON object of a query, before the defaults of \<open>QueryReq\<close>\<close>
  qj_name :: string
  qj_qtype :: "string option"
  qj_entry :: "string option"
  qj_ecs :: "string option"
  qj_client_ip :: "string option"

record pages =
  pg_asset :: "string \<Rightarrow> string"
  pg_json :: "headers \<Rightarrow> u8 list \<Rightarrow> query_json api"
  pg_bytes :: "u8 list \<Rightarrow> u8 list api"
  pg_snapshot :: "snapshot \<Rightarrow> string"
  pg_system :: "system_view \<Rightarrow> string"
  pg_plugins :: "plugins_view \<Rightarrow> string"
  pg_query_resp :: "query_resp \<Rightarrow> string"
  pg_flushed :: "string list \<Rightarrow> string"

record app_state =
  as_id_prefix :: u64
  as_initial_started :: instant

definition api_serve :: "u64 \<Rightarrow> metrics \<Rightarrow> string \<Rightarrow> (socket_addr \<times> app_state) res" where
  \<comment> \<open>the address and the state \<open>serve\<close> starts with; the first argument is \<open>rand::random()\<close>\<close>
  "api_serve rnd mx bind =
     res_bind (ok_or (ConfigErr (''bad api addr '' @ bind @ '': '')) (parse_socket_addr bind)) (\<lambda>addr.
     Inr (addr, \<lparr>as_id_prefix = rnd, as_initial_started = mx_started mx\<rparr>))"

section \<open>Handlers\<close>

definition page :: "nat \<Rightarrow> string \<Rightarrow> string \<Rightarrow> response" where
  "page status content_type body =
     \<lparr>rs_status = status, rs_headers = [(''content-type'', content_type)], rs_body = body\<rparr>"

definition text_page :: "nat \<Rightarrow> string \<Rightarrow> response" where
  "text_page status body = page status ''text/plain; charset=utf-8'' body"

definition json_page :: "string \<Rightarrow> response" where
  "json_page body = page 200 ''application/json'' body"

definition index :: "pages \<Rightarrow> response" where
  "index pg = page 200 ''text/html; charset=utf-8'' (pg_asset pg ''../web/index.html'')"

definition stylesheet :: "pages \<Rightarrow> response" where
  "stylesheet pg = page 200 ''text/css; charset=utf-8'' (pg_asset pg ''../web/style.css'')"

definition javascript :: "pages \<Rightarrow> response" where
  "javascript pg = page 200 ''text/javascript; charset=utf-8'' (pg_asset pg ''../web/app.js'')"

definition favicon :: "pages \<Rightarrow> response" where
  "favicon pg = page 200 ''image/svg+xml'' (pg_asset pg ''../web/favicon.svg'')"

definition health :: response where
  "health = text_page 200 ''ok''"

definition metrics_prom :: "'n world \<Rightarrow> response" where
  "metrics_prom w = text_page 200 (prometheus (w_now w) (w_metrics w))"

definition stats :: "pages \<Rightarrow> 'n world \<Rightarrow> response" where
  "stats pg w = json_page (pg_snapshot pg (metrics_snapshot (w_now w) (w_metrics w)))"

definition system_page :: "'n web \<Rightarrow> pages \<Rightarrow> app_state \<Rightarrow> 'n runtime \<Rightarrow> 'n world \<Rightarrow> response" where
  "system_page web pg st rt w = json_page (pg_system pg
     (system_info web (as_id_prefix st) (as_initial_started st) (mx_started (w_metrics w)) rt))"

definition plugins_page :: "pages \<Rightarrow> 'n runtime \<Rightarrow> 'n world \<Rightarrow> response" where
  "plugins_page pg rt w = json_page (pg_plugins pg (plugins_info (rt_registry rt) (w_caches w)))"

definition query_req_of :: "query_json \<Rightarrow> query_req" where
  "query_req_of j = \<lparr>qr_name = qj_name j,
     qr_qtype = (case qj_qtype j of None \<Rightarrow> default_qtype | Some t \<Rightarrow> t),
     qr_entry = qj_entry j, qr_ecs = qj_ecs j, qr_client_ip = qj_client_ip j\<rparr>"

definition query_page ::
    "'n env \<Rightarrow> 'n web \<Rightarrow> pages \<Rightarrow> u16 \<Rightarrow> request \<Rightarrow> 'n world \<Rightarrow> response option \<times> 'n world" where
  "query_page env web pg rnd rq w =
     (case pg_json pg (rq_headers rq) (rq_body rq) of
        Inl (st, e) \<Rightarrow> (Some (text_page st e), w)
      | Inr j \<Rightarrow>
          (case query_handler env web rnd (query_req_of j) w of
             (QueryErr st e, w') \<Rightarrow> (Some (text_page st e), w')
           | (QueryOk r, w') \<Rightarrow> (Some (json_page (pg_query_resp pg r)), w')
           | (QueryAborted, w') \<Rightarrow> (None, w')))"

definition flush_page ::
    "'n web \<Rightarrow> pages \<Rightarrow> request \<Rightarrow> 'n world \<Rightarrow> response option \<times> 'n world" where
  "flush_page web pg rq w =
     (case pg_bytes pg (rq_body rq) of
        Inl (st, e) \<Rightarrow> (Some (text_page st e), w)
      | Inr body \<Rightarrow>
          (case flush_handler web (rq_headers rq) body (w_caches w) of
             (Inl (st, e), cs) \<Rightarrow> (Some (text_page st e), w\<lparr>w_caches := cs\<rparr>)
           | (Inr tags, cs) \<Rightarrow> (Some (json_page (pg_flushed pg tags)), w\<lparr>w_caches := cs\<rparr>)))"

section \<open>Routes\<close>

definition get_page ::
    "'n web \<Rightarrow> pages \<Rightarrow> app_state \<Rightarrow> 'n runtime \<Rightarrow> string \<Rightarrow> 'n world \<Rightarrow> response option" where
  "get_page web pg st rt path w =
     (if path = ''/'' then Some (index pg)
      else if path = ''/assets/style.css'' then Some (stylesheet pg)
      else if path = ''/assets/app.js'' then Some (javascript pg)
      else if path = ''/favicon.svg'' then Some (favicon pg)
      else if path = ''/health'' then Some health
      else if path = ''/metrics'' then Some (metrics_prom w)
      else if path = ''/api/system'' then Some (system_page web pg st rt w)
      else if path = ''/api/stats'' then Some (stats pg w)
      else if path = ''/api/plugins'' then Some (plugins_page pg rt w)
      else None)"

definition not_allowed :: "string \<Rightarrow> response" where
  "not_allowed methods = \<lparr>rs_status = 405, rs_headers = [(''allow'', methods)], rs_body = []\<rparr>"

definition not_found :: response where
  "not_found = \<lparr>rs_status = 404, rs_headers = [], rs_body = []\<rparr>"

definition get_route :: "response \<Rightarrow> request \<Rightarrow> response" where
  "get_route r rq =
     (if rq_method rq = ''GET'' then r
      else if rq_method rq = ''HEAD'' then r\<lparr>rs_body := []\<rparr>
      else not_allowed ''GET,HEAD'')"

definition post_route ::
    "(request \<Rightarrow> 's \<Rightarrow> response option \<times> 's) \<Rightarrow> request \<Rightarrow> 's \<Rightarrow> response option \<times> 's" where
  "post_route handler rq s =
     (if rq_method rq = ''POST'' then handler rq s else (Some (not_allowed ''POST''), s))"

definition api_route ::
    "'n env \<Rightarrow> 'n web \<Rightarrow> pages \<Rightarrow> app_state \<Rightarrow> 'n runtime \<Rightarrow> u16 \<Rightarrow> request \<Rightarrow> 'n world
      \<Rightarrow> response option \<times> 'n world" where
  "api_route env web pg st rt rnd rq w =
     (case get_page web pg st rt (rq_path rq) w of
        Some r \<Rightarrow> (Some (get_route r rq), w)
      | None \<Rightarrow>
          (if rq_path rq = ''/api/query'' then post_route (query_page env web pg rnd) rq w
           else if rq_path rq = ''/api/cache/flush'' then post_route (flush_page web pg) rq w
           else (Some not_found, w)))"

definition api_request ::
    "'n env \<Rightarrow> 'n web \<Rightarrow> pages \<Rightarrow> app_state \<Rightarrow> 'n runtime \<Rightarrow> u16 \<Rightarrow> request \<Rightarrow> 'n world
      \<Rightarrow> response option \<times> 'n world" where
  \<comment> \<open>a request to the API: the middleware around the router\<close>
  "api_request env web pg st rt rnd = response_headers web (api_route env web pg st rt rnd)"

end
