(* ===== verification/Operation.thy ===== *)
theory Operation
  imports Commands Console
begin

text \<open>
  The running program as one step relation: \<open>Live\<close> of \<^verbatim>\<open>src/runtime.rs\<close>, the tasks that
  \<open>Live::serve\<close> spawns and the reload task of \<^verbatim>\<open>src/main.rs\<close>, which share the runtime that is
  live. A step is one request to a listener or to the API, one background refresh, one reload or the
  passage of time; what overlaps a request is what \<open>en_other\<close> does between its plugin calls.

  A reload installs a runtime with caches and metrics of its own. Tasks that still hold the old
  runtime, its refreshes among them, change nothing of the new one and leave the picture with it.
\<close>

record 'n plant =
  pl_lib :: "'n lib"
  pl_platform :: platform
  pl_path :: string
  pl_first :: "'n runtime"
  pl_plans :: "plan res list"
  pl_other :: "nat \<Rightarrow> 'n world \<Rightarrow> 'n world"
  pl_exchange :: "'n registry \<Rightarrow> nat \<Rightarrow> instant \<Rightarrow> string \<Rightarrow> 'n message \<Rightarrow> 'n exchange"
  pl_web :: "'n web"
  pl_pages :: pages
  pl_app :: app_state
  pl_base64 :: "string \<Rightarrow> u8 list option"
  pl_base64_padded :: "string \<Rightarrow> u8 list option"

record 'n live =
  lv_runtime :: "'n runtime"
  lv_world :: "'n world"

definition live_new :: "instant \<Rightarrow> 'n runtime \<Rightarrow> 'n live" where
  "live_new now rt = \<lparr>lv_runtime = rt, lv_world = \<lparr>w_caches = rt_caches rt, w_metrics = metrics_new now,
     w_next_id = 1, w_jobs = [], w_now = now, w_tick = 0\<rparr>\<rparr>"

definition live_env :: "'n plant \<Rightarrow> 'n runtime \<Rightarrow> 'n env" where
  \<comment> \<open>what a request finds that gets this runtime\<close>
  "live_env P rt = \<lparr>en_lib = pl_lib P, en_reg = rt_registry rt, en_other = pl_other P,
     en_exchange = pl_exchange P (rt_registry rt)\<rparr>"

definition live_swap :: "'n runtime \<Rightarrow> 'n live \<Rightarrow> 'n live" where
  "live_swap rt s =
     (let w = lv_world s
      in \<lparr>lv_runtime = rt, lv_world = w\<lparr>w_caches := rt_caches rt, w_metrics := metrics_new (w_now w), w_jobs := []\<rparr>\<rparr>)"

definition live_reload :: "'n plant \<Rightarrow> loader \<Rightarrow> 'n live \<Rightarrow> unit res \<times> 'n live" where
  "live_reload P ld s =
     (case reload (pl_lib P) (pl_platform P) ld (pl_path P) (lv_runtime s) of
        (Inl e, _) \<Rightarrow> (Inl e, s)
      | (Inr _, rt) \<Rightarrow> (Inr (), live_swap rt s))"

datatype 'n event =
    Datagram string "u8 list" "u8 list option"
  | Framed client_proto "'n message" "u8 list res"
  | Doh doh_route
  | ApiCall request "response option"
  | Refreshed string
  | Reloaded "unit res"
  | Waited

inductive live_step :: "'n plant \<Rightarrow> instant \<Rightarrow> 'n live \<Rightarrow> 'n event \<Rightarrow> 'n live \<Rightarrow> bool" for P T where
  datagram: "Inr (UdpPlan entry timeout addr workers) \<in> set (pl_plans P) \<Longrightarrow> w_now (lv_world s) + timeout \<le> T \<Longrightarrow>
    udp_serve (live_env P (lv_runtime s)) entry timeout peer buf (lv_world s) = (out, w) \<Longrightarrow>
    live_step P T s (Datagram entry buf out) (s\<lparr>lv_world := w\<rparr>)"
| framed: "Inr (StreamPlan entry timeout idle addr proto acc) \<in> set (pl_plans P) \<Longrightarrow>
    w_now (lv_world s) + timeout \<le> T \<Longrightarrow>
    framed_step (live_env P (lv_runtime s)) entry timeout proto peer q (lv_world s) = (r, w) \<Longrightarrow>
    live_step P T s (Framed proto q r) (s\<lparr>lv_world := w\<rparr>)"
| doh: "Inr (DohPlan entry timeout addr path acc) \<in> set (pl_plans P) \<Longrightarrow> w_now (lv_world s) + timeout \<le> T \<Longrightarrow>
    doh_dispatch (pl_base64 P) (pl_base64_padded P) (live_env P (lv_runtime s)) entry timeout path meth target
      peer query body (lv_world s) = (r, w) \<Longrightarrow>
    live_step P T s (Doh r) (s\<lparr>lv_world := w\<rparr>)"
| api: "Inr (ApiPlan http) \<in> set (pl_plans P) \<Longrightarrow> w_now (lv_world s) + nanos 5 \<le> T \<Longrightarrow>
    api_request (live_env P (lv_runtime s)) (pl_web P) (pl_pages P) (pl_app P) (lv_runtime s) rnd rq (lv_world s)
      = (r, w) \<Longrightarrow>
    live_step P T s (ApiCall rq r) (s\<lparr>lv_world := w\<rparr>)"
| refresh: "j \<in> set (w_jobs (lv_world s)) \<Longrightarrow> w_now (lv_world s) + nanos 5 \<le> T \<Longrightarrow>
    run_refresh (live_env P (lv_runtime s)) tag j ((lv_world s)\<lparr>w_jobs := remove1 j (w_jobs (lv_world s))\<rparr>) = w \<Longrightarrow>
    live_step P T s (Refreshed (rj_key j)) (s\<lparr>lv_world := w\<rparr>)"
| reloaded: "live_reload P ld s = (r, s') \<Longrightarrow> live_step P T s (Reloaded r) s'"
| waited: "w_now (lv_world s) \<le> now \<Longrightarrow> now \<le> T \<Longrightarrow>
    live_step P T s Waited (s\<lparr>lv_world := (lv_world s)\<lparr>w_now := now\<rparr>\<rparr>)"

inductive live_reach :: "'n plant \<Rightarrow> instant \<Rightarrow> ('n runtime \<Rightarrow> bool) \<Rightarrow> 'n live \<Rightarrow> bool" for P T A where
  \<comment> \<open>the states up to \<open>T\<close> of a service whose runtimes satisfy \<open>A\<close>\<close>
  start: "A (pl_first P) \<Longrightarrow> now \<le> T \<Longrightarrow> live_reach P T A (live_new now (pl_first P))"
| step: "live_reach P T A s \<Longrightarrow> live_step P T s ev s' \<Longrightarrow> A (lv_runtime s') \<Longrightarrow> live_reach P T A s'"

definition started :: "'n plant \<Rightarrow> bool" where
  \<comment> \<open>a service as \<open>main\<close> starts it\<close>
  "started P \<longleftrightarrow> (\<exists>cfg cores. build (pl_lib P) (pl_platform P) cfg = Inr (pl_first P)
     \<and> serve_plans (pl_platform P) cores (pl_first P) = Inr (pl_plans P))"

fun plan_entry :: "plan \<Rightarrow> (string \<times> nat) option" where
  \<comment> \<open>the entry and the time limit of the requests to a listener\<close>
  "plan_entry (UdpPlan entry timeout addr n) = Some (entry, timeout)"
| "plan_entry (StreamPlan entry timeout idle addr proto acc) = Some (entry, timeout)"
| "plan_entry (DohPlan entry timeout addr path acc) = Some (entry, timeout)"
| "plan_entry (ApiPlan http) = None"

end
