(* ===== verification/Graph_Laws.thy ===== *)
theory Graph_Laws
  imports Graph
begin

text \<open>
  The search of \<open>validate_plugin_graph\<close> computes the call depth of every plugin and fails exactly
  when some chain of calls does not end within 64 plugins.
\<close>

section \<open>Call depth\<close>

primrec edge_le :: "edges \<Rightarrow> nat \<Rightarrow> string \<Rightarrow> bool" where
  \<comment> \<open>specification: every call resolves, and no chain of calls from the tag visits more plugins\<close>
  "edge_le es 0 t = False"
| "edge_le es (Suc n) t =
     (case map_of es t of None \<Rightarrow> False | Some calls \<Rightarrow> list_all (edge_le es n) calls)"

definition exact_depth :: "edges \<Rightarrow> nat \<Rightarrow> string \<Rightarrow> bool" where
  "exact_depth es d t \<longleftrightarrow> edge_le es d t \<and> (\<forall>m < d. \<not> edge_le es m t)"

definition depths_exact :: "edges \<Rightarrow> depths \<Rightarrow> bool" where
  "depths_exact es D \<longleftrightarrow>
     (\<forall>t d. map_of D t = Some d \<longrightarrow> exact_depth es d t \<and> d \<le> max_pipeline_depth)"

lemma edge_le_Suc: "edge_le es n t \<Longrightarrow> edge_le es (Suc n) t"
proof (induction n arbitrary: t)
  case 0
  then show ?case by simp
next
  case (Suc n)
  obtain cs where cs: "map_of es t = Some cs" "\<forall>u \<in> set cs. edge_le es n u"
    using Suc.prems by (auto simp: list_all_iff split: option.splits)
  then have "\<forall>u \<in> set cs. edge_le es (Suc n) u" using Suc.IH by blast
  with cs(1) show ?case by (simp add: list_all_iff)
qed

lemma edge_le_mono: "n \<le> m \<Longrightarrow> edge_le es n t \<Longrightarrow> edge_le es m t"
  by (induction m rule: dec_induct) (auto intro: edge_le_Suc simp del: edge_le.simps)

lemma exact_depth_least: "exact_depth es d t \<Longrightarrow> edge_le es n t \<Longrightarrow> d \<le> n"
  by (auto simp: exact_depth_def not_less [symmetric])

lemma depths_exact_update:
  "depths_exact es D \<Longrightarrow> exact_depth es d t \<Longrightarrow> d \<le> max_pipeline_depth
     \<Longrightarrow> depths_exact es (AList.update t d D)"
  by (auto simp: depths_exact_def update_conv')

definition calls_depth :: "edges \<Rightarrow> string list \<Rightarrow> nat \<Rightarrow> nat \<Rightarrow> bool" where
  \<comment> \<open>what the loop over the calls of one plugin has found\<close>
  "calls_depth es ts k k' \<longleftrightarrow>
     k \<le> k' \<and> (\<forall>t \<in> set ts. edge_le es (k' - 1) t)
       \<and> (k' = k \<or> (\<exists>t \<in> set ts. exact_depth es (k' - 1) t \<and> 1 \<le> k'))"

lemma exact_depth_calls:
  assumes "map_of es tag = Some calls" "calls_depth es calls 1 d"
  shows "exact_depth es d tag"
proof -
  have d: "1 \<le> d" using assms(2) by (simp add: calls_depth_def)
  then obtain d' where d': "d = Suc d'" by (cases d) auto
  have "edge_le es d tag"
    using assms by (simp add: d' calls_depth_def list_all_iff)
  moreover have "\<not> edge_le es m tag" if "m < d" for m
  proof (cases m)
    case 0
    then show ?thesis by simp
  next
    case (Suc m')
    then have "d \<noteq> 1" using that by simp
    then obtain t where "t \<in> set calls" "exact_depth es d' t"
      using assms(2) by (auto simp: calls_depth_def d')
    moreover have "m' < d'" using that Suc d' by simp
    ultimately show ?thesis
      using assms(1) Suc by (auto simp: exact_depth_def list_all_iff)
  qed
  ultimately show ?thesis by (simp add: exact_depth_def)
qed

lemma calls_depth_Cons:
  assumes "exact_depth es d t" "calls_depth es ts (max k (1 + d)) k'" "1 \<le> k"
  shows "calls_depth es (t # ts) k k'"
proof -
  have le: "max k (1 + d) \<le> k'" using assms(2) by (simp add: calls_depth_def)
  have "edge_le es (k' - 1) t"
    using assms(1) le edge_le_mono [of d "k' - 1" es t] by (auto simp: exact_depth_def)
  then show ?thesis
    using assms le by (auto simp: calls_depth_def max_def split: if_splits)
qed

section \<open>The search finds the depth\<close>

lemma visit_sound:
  shows "visit_plugin es tag active D = Inr (d, D') \<Longrightarrow> depths_exact es D \<Longrightarrow>
      depths_exact es D' \<and> exact_depth es d tag \<and> d \<le> max_pipeline_depth"
    and "visit_calls es ts active D k = Inr (k', D') \<Longrightarrow> depths_exact es D \<Longrightarrow> 1 \<le> k \<Longrightarrow>
      depths_exact es D' \<and> calls_depth es ts k k'"
proof (induction es tag active D and es ts active D k arbitrary: d D' and k' D'
    rule: visit_plugin_visit_calls.induct)
  case (1 es tag active D)
  show ?case
  proof (cases "map_of D tag")
    case (Some x)
    with 1(2,3) show ?thesis by (auto simp: depths_exact_def)
  next
    case None
    with 1(2) obtain calls where
      a: "tag \<notin> set active" "\<not> max_pipeline_depth \<le> length active" "map_of es tag = Some calls"
      by (auto split: if_splits option.splits)
    with None 1(2) obtain k D1 where
      v: "visit_calls es calls (active @ [tag]) D 1 = Inr (k, D1)" and
      r: "k \<le> max_pipeline_depth" "d = k" "D' = AList.update tag k D1"
      by (auto split: if_splits)
    from 1(1) [OF None a v 1(3)] have "depths_exact es D1" "calls_depth es calls 1 k" by auto
    with r a(3) show ?thesis
      using exact_depth_calls depths_exact_update by auto
  qed
next
  case (2 es active D k)
  then show ?case by (simp add: calls_depth_def)
next
  case (3 es t ts active D k)
  from 3(3) obtain d1 D1 where
    v: "visit_plugin es t active D = Inr (d1, D1)"
       "visit_calls es ts active D1 (max k (1 + d1)) = Inr (k', D')"
    by auto
  from 3(1) [OF v(1) 3(4)] have D1: "depths_exact es D1" "exact_depth es d1 t" by auto
  from 3(2) [OF v(1) refl v(2) D1(1)] 3(5) have "depths_exact es D'" "calls_depth es ts (max k (1 + d1)) k'"
    by auto
  with D1(2) 3(5) show ?case using calls_depth_Cons by blast
qed

section \<open>The search fails only beyond the bound\<close>

text \<open>
  \<open>deeper es active t\<close>: every plugin on the active chain calls, directly or not, \<open>t\<close>, so its
  call depth is larger.
\<close>

definition deeper :: "edges \<Rightarrow> string list \<Rightarrow> string \<Rightarrow> bool" where
  "deeper es active t \<longleftrightarrow> (\<forall>x \<in> set active. \<forall>n. edge_le es (Suc n) x \<longrightarrow> edge_le es n t)"

lemma deeper_not_active:
  assumes "deeper es active t" "edge_le es n t"
  shows "t \<notin> set active"
proof
  assume "t \<in> set active"
  with assms(1) have step: "edge_le es (Suc m) t \<Longrightarrow> edge_le es m t" for m
    by (auto simp: deeper_def simp del: edge_le.simps)
  have "edge_le es 0 t"
    using assms(2) by (induction n) (auto dest: step simp del: edge_le.simps(2))
  then show False by simp
qed

lemma deeper_call:
  assumes "deeper es active t" "map_of es t = Some calls" "u \<in> set calls"
  shows "deeper es (active @ [t]) u"
proof -
  have step: "edge_le es n u" if "edge_le es (Suc n) t" for n
    using that assms(2,3) by (simp add: list_all_iff)
  have "edge_le es n u" if "x \<in> set active" "edge_le es (Suc n) x" for x n
  proof -
    have "edge_le es n t" using assms(1) that by (auto simp: deeper_def simp del: edge_le.simps)
    then have "edge_le es (Suc n) t" by (rule edge_le_Suc)
    then show ?thesis by (rule step)
  qed
  with step show ?thesis by (auto simp: deeper_def simp del: edge_le.simps)
qed

lemma visit_complete:
  shows "depths_exact es D \<Longrightarrow> edge_le es (max_pipeline_depth - length active) tag \<Longrightarrow>
      deeper es active tag \<Longrightarrow> \<exists>d D'. visit_plugin es tag active D = Inr (d, D')"
    and "depths_exact es D \<Longrightarrow> 1 \<le> k \<Longrightarrow>
      (\<And>t. t \<in> set ts \<Longrightarrow> edge_le es (max_pipeline_depth - length active) t) \<Longrightarrow>
      (\<And>t. t \<in> set ts \<Longrightarrow> deeper es active t) \<Longrightarrow>
      \<exists>k' D'. visit_calls es ts active D k = Inr (k', D')"
proof (induction es tag active D and es ts active D k rule: visit_plugin_visit_calls.induct)
  case (1 es tag active D)
  show ?case
  proof (cases "map_of D tag")
    case (Some x)
    then show ?thesis by simp
  next
    case None
    have na: "tag \<notin> set active" using 1(4,3) by (rule deeper_not_active)
    have lt: "\<not> max_pipeline_depth \<le> length active"
    proof
      assume "max_pipeline_depth \<le> length active"
      with 1(3) show False by simp
    qed
    then obtain n where n: "max_pipeline_depth - length active = Suc n"
      "max_pipeline_depth - length (active @ [tag]) = n"
      by (metis Suc_diff_Suc diff_Suc_eq_diff_pred length_append_singleton not_le diff_Suc_Suc)
    from 1(3) obtain calls where calls: "map_of es tag = Some calls" "list_all (edge_le es n) calls"
      by (auto simp: n(1) split: option.splits)
    have "\<exists>k' D'. visit_calls es calls (active @ [tag]) D 1 = Inr (k', D')"
      by (rule 1(1) [OF None na lt calls(1) 1(2)])
        (use calls n(2) deeper_call [OF 1(4) calls(1)] in \<open>auto simp: list_all_iff\<close>)
    then obtain k' D' where v: "visit_calls es calls (active @ [tag]) D 1 = Inr (k', D')" by blast
    then have "exact_depth es k' tag"
      using visit_sound(2) [OF v 1(2)] exact_depth_calls [OF calls(1)] by simp
    then have "k' \<le> max_pipeline_depth"
      using exact_depth_least edge_le_mono [OF _ 1(3)] by (meson diff_le_self)
    then show ?thesis using None na lt calls(1) v by auto
  qed
next
  case (2 es active D k)
  then show ?case by simp
next
  case (3 es t ts active D k)
  have "\<exists>d D'. visit_plugin es t active D = Inr (d, D')"
    by (rule 3(1)) (use 3 in auto)
  then obtain d D1 where v: "visit_plugin es t active D = Inr (d, D1)" by blast
  have D1: "depths_exact es D1" using visit_sound(1) [OF v 3(3)] by simp
  have "\<exists>k' D'. visit_calls es ts active D1 (max k (1 + d)) = Inr (k', D')"
    by (rule 3(2) [OF v refl D1]) (use 3 in auto)
  with v show ?case by auto
qed

lemma visit_all_iff:
  "depths_exact es D \<Longrightarrow>
     (\<exists>D'. visit_all es ts D = Inr D') \<longleftrightarrow> (\<forall>t \<in> set ts. edge_le es max_pipeline_depth t)"
proof (induction ts arbitrary: D)
  case Nil
  then show ?case by simp
next
  case (Cons t ts)
  show ?case
  proof (cases "edge_le es max_pipeline_depth t")
    case True
    have "\<exists>d D'. visit_plugin es t [] D = Inr (d, D')"
      by (rule visit_complete(1)) (use Cons.prems True in \<open>simp_all add: deeper_def\<close>)
    then obtain d D1 where v: "visit_plugin es t [] D = Inr (d, D1)" by blast
    from Cons.IH visit_sound(1) [OF v Cons.prems] v True show ?thesis by auto
  next
    case False
    have "\<not> (\<exists>D'. visit_all es (t # ts) D = Inr D')"
    proof
      assume "\<exists>D'. visit_all es (t # ts) D = Inr D'"
      then obtain d D1 where "visit_plugin es t [] D = Inr (d, D1)" by auto
      with visit_sound(1) [OF this Cons.prems] False edge_le_mono show False
        by (auto simp: exact_depth_def)
    qed
    with False show ?thesis by simp
  qed
qed

lemma unknown_call_None:
  "unknown_call es = None \<longleftrightarrow> (\<forall>(t, us) \<in> set es. \<forall>u \<in> set us. map_of es u \<noteq> None)"
  by (fastforce simp: unknown_call_def find_None_iff)

lemma edge_le_calls:
  "alist_ok es \<Longrightarrow> edge_le es n t \<Longrightarrow> (t, us) \<in> set es \<Longrightarrow> u \<in> set us \<Longrightarrow> map_of es u \<noteq> None"
  by (cases n; cases "n - 1") (auto simp: alist_ok_def list_all_iff split: option.splits)

lemma validate_edges_iff:
  assumes "alist_ok es"
  shows "validate_edges es = Inr () \<longleftrightarrow> (\<forall>t \<in> fst ` set es. edge_le es max_pipeline_depth t)"
proof -
  have D: "depths_exact es []" by (simp add: depths_exact_def)
  show ?thesis
  proof (cases "unknown_call es")
    case None
    then show ?thesis
      using visit_all_iff [OF D, of "map fst es"] by (auto simp: validate_edges_def)
  next
    case (Some p)
    then obtain t us u where p: "(t, us) \<in> set es" "u \<in> set us" "map_of es u = None"
      using unknown_call_None [of es] by auto
    then have "\<not> edge_le es max_pipeline_depth t"
      using edge_le_calls [OF assms] by blast
    with p(1) Some show ?thesis
      by (cases p) (force simp: validate_edges_def)
  qed
qed

end
