(* ===== verification/Pipeline_Laws.thy ===== *)
theory Pipeline_Laws
  imports Pipeline
begin

text \<open>
  What holds of every run, at any depth, for any registry, network and interference: the context
  only evolves by legal steps, a plugin ends with \<open>Continue\<close> or \<open>Accept\<close>, the caches keep their
  invariant, and a run within the depth of the call graph never exhausts the stack.

  The two locales are the contract a nested call offers to a sequence or a fallback; each is
  proved of the composite plugins from the contract alone and then holds of \<open>exec_tag\<close> at every
  depth.
\<close>

abbreviation run_ctx :: "'n run \<Rightarrow> 'n ctx" where
  "run_ctx r \<equiv> fst (snd r)"

abbreviation run_world :: "'n run \<Rightarrow> 'n world" where
  "run_world r \<equiv> snd (snd r)"

definition final_action :: "stop + action res \<Rightarrow> bool" where
  "final_action r \<longleftrightarrow> (case r of Inr (Inr a) \<Rightarrow> a = Continue \<or> a = Accept | _ \<Rightarrow> True)"

lemma final_action_simps [simp]:
  "final_action (Inl s)" "final_action (Inr (Inl e))"
  "final_action (Inr (Inr a)) \<longleftrightarrow> a = Continue \<or> a = Accept"
  "final_action (Inr (as_continue r))"
  by (auto simp: final_action_def as_continue_def split: sum.splits)

lemma final_action_map [simp]: "final_action (map_sum id as_continue x)"
  by (cases x) simp_all

lemma evolves_step: "evolves c a \<Longrightarrow> evolves a b \<Longrightarrow> evolves c b"
  by (rule evolves_trans)

lemma run_ctx_finish [simp]: "run_ctx (seq_finish env ws a c w) = c"
  by (simp add: seq_finish_def split: option.splits)

lemma final_action_finish [simp]:
  "final_action (fst (seq_finish env ws a c w)) \<longleftrightarrow>
     store_writes env c ws w = None \<or> a = Continue \<or> a = Accept"
  by (auto simp: seq_finish_def split: option.splits)

lemma evolves_run_cache: "evolves c (run_ctx (run_cache env tag c w))"
proof (cases "map_of (w_caches w) tag")
  case None
  then show ?thesis by (simp add: run_cache_def)
next
  case (Some ca)
  obtain c' ca' mx job where
    "cache_exec (en_lib env) (\<lambda>_. w_now w) (w_next_id w) c ca (w_metrics w) = (c', ca', mx, job)"
    by (metis prod.exhaust)
  then show ?thesis
    using Some by (simp add: run_cache_def Let_def evolves_cache_exec)
qed

locale caller =
  fixes call :: "'n caller"
  assumes call_evolves: "evolves c (run_ctx (call d t c w))"
    and call_action: "final_action (fst (call d t c w))"
begin

lemma evolves_call:
  "call d t c w = (r, c', w') \<Longrightarrow> evolves c c'"
  using call_evolves [of c d t w] by simp

lemma action_call:
  "call d t c w = (Inr (Inr a), c', w') \<Longrightarrow> a = Continue \<or> a = Accept"
  using call_action [of d t c w] by simp

lemma evolves_seq_step:
  "seq_step env (call d) tag s ws c w = ((r, c', w'), ws') \<Longrightarrow> evolves c c'"
  by (auto simp: seq_step_def split: exec_target.splits sum.splits prod.splits
      intro: evolves_step [OF evolves_push_trace evolves_call]
        evolves_step [OF evolves_push_trace evolves_builtin_apply])

lemma evolves_seq_goto: "evolves c (run_ctx (seq_goto env (call d) t ws c w))"
proof (cases "get_exec t (en_reg env)")
  case (Inl e)
  then show ?thesis by (simp add: seq_goto_def)
next
  case (Inr p)
  obtain r c' w' where r: "call d t c w = (r, c', w')" by (cases "call d t c w")
  then have "evolves c c'" by (rule evolves_call)
  with Inr r show ?thesis by (auto simp: seq_goto_def split: sum.splits)
qed

lemma action_seq_goto: "final_action (fst (seq_goto env (call d) t ws c w))"
proof (cases "get_exec t (en_reg env)")
  case (Inl e)
  then show ?thesis by (simp add: seq_goto_def)
next
  case (Inr p)
  obtain r c' w' where r: "call d t c w = (r, c', w')" by (cases "call d t c w")
  with Inr show ?thesis
    by (auto simp: seq_goto_def dest: action_call split: sum.splits)
qed

lemma evolves_seq_run: "evolves c (run_ctx (seq_run env (call d) tag ss ws c w))"
proof (induction ss arbitrary: ws c w)
  case Nil
  show ?case by simp
next
  case (Cons s ss)
  obtain r c' w' ws' where st: "seq_step env (call d) tag s ws c w = ((r, c', w'), ws')"
    by (metis prod.exhaust)
  then have e: "evolves c c'" by (rule evolves_seq_step)
  show ?case
    using Cons.IH [of c ws w] e st evolves_step [OF e Cons.IH] evolves_step [OF e evolves_seq_goto]
    by (auto split: sum.splits action.splits)
qed

lemma action_seq_run: "final_action (fst (seq_run env (call d) tag ss ws c w))"
proof (induction ss arbitrary: ws c w)
  case Nil
  show ?case by simp
next
  case (Cons s ss)
  obtain r c' w' ws' where st: "seq_step env (call d) tag s ws c w = ((r, c', w'), ws')"
    by (metis prod.exhaust)
  then show ?case
    using Cons.IH action_seq_goto by (auto split: sum.splits action.splits)
qed

lemma evolves_absorb_call:
  assumes "call d t (fork i now c) w = (r, c', w')"
  shows "evolves c (absorb c c')"
  by (rule evolves_absorb [OF evolves_call [OF assms]])

lemma evolves_absorb_traced:
  assumes "call d t (fork i now c) w = (r, c', w')"
  shows "evolves c (absorb (push_trace n p e m c) c')"
proof -
  have "evolves (fork i now c) c'" by (rule evolves_call [OF assms])
  then have "evolves c (absorb c c')" by (rule evolves_absorb)
  then show ?thesis
    by (auto simp: push_trace_def evolves_def same_request_def subnet_marked_def absorb_def ctx_ok_def)
qed

lemma evolves_fallback_second: "evolves c (run_ctx (fallback_second call d f c w))"
proof -
  let ?c1 = "push_trace (w_now w) (fb_tag f) ''secondary'' ''fallback'' c"
  obtain i n where fk: "forked ?c1 w = (fork i (w_now w) ?c1, w\<lparr>w_next_id := n\<rparr>)"
    by (simp add: forked_def next_id_def)
  obtain r s1 w1 where cl: "call d (fb_secondary f) (fork i (w_now w) ?c1) (w\<lparr>w_next_id := n\<rparr>) = (r, s1, w1)"
    by (metis prod.exhaust)
  show ?thesis
    using evolves_step [OF evolves_push_trace evolves_absorb_call [OF cl]] evolves_push_trace
    by (cases r) (simp_all add: fallback_second_def Let_def fk cl)
qed

lemma evolves_fallback_serial: "evolves c (run_ctx (fallback_serial call d f c w))"
proof -
  obtain i n where fk: "forked c w = (fork i (w_now w) c, w\<lparr>w_next_id := n\<rparr>)"
    by (simp add: forked_def next_id_def)
  obtain r p1 w1 where cl: "call (min d (w_now w + fb_threshold f)) (fb_primary f)
      (fork i (w_now w) c) (w\<lparr>w_next_id := n\<rparr>) = (r, p1, w1)"
    by (metis prod.exhaust)
  show ?thesis
    using evolves_absorb_traced [OF cl] evolves_fallback_second [of c d f w1]
    by (simp add: fallback_serial_def Let_def fk cl)
qed

lemma evolves_fallback_standby: "evolves c (run_ctx (fallback_standby call d f c w))"
proof -
  let ?limit = "w_now w + fb_threshold f"
  obtain i n where fk: "forked c w = (fork i (w_now w) c, w\<lparr>w_next_id := n\<rparr>)"
    by (simp add: forked_def next_id_def)
  obtain j k where fk2: "forked c (w\<lparr>w_next_id := n\<rparr>) = (fork j (w_now w) c, w\<lparr>w_next_id := k\<rparr>)"
    by (simp add: forked_def next_id_def)
  obtain r p1 w1 where cl: "call (min d ?limit) (fb_primary f) (fork i (w_now w) c)
      (w\<lparr>w_next_id := k\<rparr>) = (r, p1, w1)"
    by (metis prod.exhaust)
  obtain r' s1 w2 where cl2: "call (if wins r p1 then min d (w_now w1) else d) (fb_secondary f)
      (fork j (w_now w) c) (w1\<lparr>w_now := w_now w\<rparr>) = (r', s1, w2)"
    by (metis prod.exhaust)
  show ?thesis
    using evolves_absorb_traced [OF cl] evolves_absorb_traced [OF cl2]
    by (cases "wins r p1") (use cl2 in \<open>simp_all add: fallback_standby_def Let_def fk fk2 cl\<close>)
qed

lemma action_fallback_second: "final_action (fst (fallback_second call d f c w))"
  by (simp add: fallback_second_def Let_def case_prod_beta split: sum.split prod.split)

lemma action_fallback_serial: "final_action (fst (fallback_serial call d f c w))"
  by (auto simp: fallback_serial_def Let_def action_fallback_second split: prod.split)

lemma action_fallback_standby: "final_action (fst (fallback_standby call d f c w))"
  by (auto simp: fallback_standby_def Let_def split: prod.split)

lemma evolves_fallback_run: "evolves c (run_ctx (fallback_run env call d f c w))"
  by (simp add: fallback_run_def evolves_fallback_serial evolves_fallback_standby split: sum.split)

lemma action_fallback_run: "final_action (fst (fallback_run env call d f c w))"
  by (simp add: fallback_run_def action_fallback_serial action_fallback_standby split: sum.split)

lemma evolves_exec_plugin: "evolves c (run_ctx (exec_plugin env call d tag p c w))"
proof (cases p)
  case (PlForward f)
  then show ?thesis
    by (simp add: exec_plugin_def run_forward_def Let_def evolves_forward_exec)
qed (auto simp: exec_plugin_def Let_def evolves_run_cache evolves_hosts_exec evolves_blackhole
    evolves_redirect_exec evolves_ecs_exec evolves_no_ecs_exec evolves_seq_run evolves_fallback_run)

lemma action_exec_plugin: "final_action (fst (exec_plugin env call d tag p c w))"
  by (cases p) (auto simp: exec_plugin_def Let_def run_forward_def run_cache_def action_seq_run
      action_fallback_run split: option.split prod.split)

end

lemma caller_exec_tag: "caller (exec_tag depth env)"
proof (induction depth)
  case 0
  show ?case by standard simp_all
next
  case (Suc depth)
  show ?case
    by standard (simp_all add: caller.evolves_exec_plugin [OF Suc] caller.action_exec_plugin [OF Suc]
      split: sum.split)
qed

interpretation pipeline: caller "exec_tag depth env" for depth env
  by (rule caller_exec_tag)

section \<open>The call stack\<close>

primrec depth_le :: "'n registry \<Rightarrow> nat \<Rightarrow> string \<Rightarrow> bool" where
  \<comment> \<open>specification: no chain of calls from a tag is longer than the bound\<close>
  "depth_le reg 0 tag = False"
| "depth_le reg (Suc n) tag =
     (case map_of (rg_execs reg) tag of
        None \<Rightarrow> True | Some p \<Rightarrow> list_all (depth_le reg n) (plugin_calls p))"

locale deep_caller = caller +
  fixes good :: "string \<Rightarrow> bool"
  assumes call_deep: "good t \<Longrightarrow> fst (call d t c w) \<noteq> Inl Overflow"
begin

lemma deep_finish: "fst (seq_finish env ws a c w) \<noteq> Inl Overflow"
  by (simp add: seq_finish_def split: option.split)

lemma deep_goto: "good t \<Longrightarrow> fst (seq_goto env (call d) t ws c w) \<noteq> Inl Overflow"
  using call_deep [of t d c w]
  by (auto simp: seq_goto_def seq_finish_def split: sum.splits prod.splits option.splits)

lemma deep_step:
  assumes "seq_step env (call d) tag s ws c w = ((r, c', w'), ws')" "list_all good (step_calls s)"
  shows "r \<noteq> Inl Overflow \<and> (\<forall>t. r = Inr (Inr (Goto t)) \<longrightarrow> good t)"
proof (cases "st_exec s")
  case (ExPlugin t)
  have g: "good t" using assms(2) ExPlugin by (simp add: step_calls_def)
  show ?thesis
  proof (cases "get_exec t (en_reg env)")
    case (Inl e)
    with assms(1) ExPlugin show ?thesis by (auto simp: seq_step_def)
  next
    case (Inr p)
    with assms(1) ExPlugin have "call d t (push_trace (w_now w) tag ''exec'' t c) w = (r, c', w')"
      by (simp add: seq_step_def)
    with call_deep [OF g, of d "push_trace (w_now w) tag ''exec'' t c" w] action_call
    show ?thesis by fastforce
  qed
next
  case (ExBuiltin b)
  with assms show ?thesis
    by (cases b) (auto simp: seq_step_def step_calls_def split: prod.splits if_splits sum.splits)
qed

lemma deep_seq_run:
  "list_all good (concat (map step_calls ss)) \<Longrightarrow>
     fst (seq_run env (call d) tag ss ws c w) \<noteq> Inl Overflow"
proof (induction ss arbitrary: ws c w)
  case Nil
  show ?case by (simp add: deep_finish)
next
  case (Cons s ss)
  obtain r c' w' ws' where st: "seq_step env (call d) tag s ws c w = ((r, c', w'), ws')"
    by (metis prod.exhaust)
  from deep_step [OF st] Cons.prems have d: "r \<noteq> Inl Overflow" "\<And>t. r = Inr (Inr (Goto t)) \<Longrightarrow> good t"
    by auto
  from Cons.prems have ss: "list_all good (concat (map step_calls ss))" by simp
  show ?case
    using Cons.IH [OF ss] st d deep_goto
    by (auto simp: deep_finish split: sum.splits action.splits)
qed

lemma deep_fallback_second:
  "good (fb_secondary f) \<Longrightarrow> fst (fallback_second call d f c w) \<noteq> Inl Overflow"
  using call_deep [of "fb_secondary f" d]
  by (auto simp: fallback_second_def Let_def split: prod.split sum.split) (metis fst_conv)

lemma deep_fallback_serial:
  "good (fb_primary f) \<Longrightarrow> good (fb_secondary f) \<Longrightarrow> fst (fallback_serial call d f c w) \<noteq> Inl Overflow"
  using call_deep [of "fb_primary f"]
  by (auto simp: fallback_serial_def Let_def deep_fallback_second split: prod.split) (metis fst_conv)

lemma deep_fallback_standby:
  "good (fb_primary f) \<Longrightarrow> good (fb_secondary f) \<Longrightarrow> fst (fallback_standby call d f c w) \<noteq> Inl Overflow"
proof -
  assume g: "good (fb_primary f)" "good (fb_secondary f)"
  obtain p0 w0 s0 w0' where fk: "forked c w = (p0, w0)" "forked c w0 = (s0, w0')"
    by (metis prod.exhaust)
  obtain r p1 w1 where cl: "call (min d (w_now w + fb_threshold f)) (fb_primary f) p0 w0' = (r, p1, w1)"
    by (metis prod.exhaust)
  obtain r' s1 w2 where cl2: "call (if wins r p1 then min d (w_now w1) else d) (fb_secondary f) s0
      (w1\<lparr>w_now := w_now w\<rparr>) = (r', s1, w2)"
    by (metis prod.exhaust)
  have "r \<noteq> Inl Overflow" "r' \<noteq> Inl Overflow"
    using call_deep [OF g(1)] call_deep [OF g(2)] cl cl2 by (metis fst_conv)+
  moreover have "map_sum id as_continue r' \<noteq> Inl Overflow"
    using \<open>r' \<noteq> Inl Overflow\<close> by (cases r') auto
  ultimately show ?thesis
    by (cases "wins r p1") (use cl2 in \<open>simp_all add: fallback_standby_def Let_def fk cl\<close>)
qed

lemma deep_exec_plugin:
  "list_all good (plugin_calls p) \<Longrightarrow> fst (exec_plugin env call d tag p c w) \<noteq> Inl Overflow"
  by (cases p) (auto simp: exec_plugin_def Let_def run_forward_def run_cache_def fallback_run_def
      deep_seq_run deep_fallback_serial deep_fallback_standby split: option.split prod.split sum.split)

end

lemma deep_caller_exec_tag: "deep_caller (exec_tag depth env) (depth_le (en_reg env) depth)"
proof (induction depth)
  case 0
  show ?case
    by (rule deep_caller.intro [OF caller_exec_tag]) (simp add: deep_caller_axioms_def)
next
  case (Suc depth)
  show ?case
  proof (rule deep_caller.intro [OF caller_exec_tag], rule deep_caller_axioms.intro)
    fix t d c w
    assume "depth_le (en_reg env) (Suc depth) t"
    then show "fst (exec_tag (Suc depth) env d t c w) \<noteq> Inl Overflow"
      by (auto simp: get_exec_def deep_caller.deep_exec_plugin [OF Suc] ok_or_def
          split: option.split option.split_asm)
  qed
qed

interpretation deep_pipeline: deep_caller "exec_tag depth env" "depth_le (en_reg env) depth" for depth env
  by (rule deep_caller_exec_tag)

section \<open>The caches of the world\<close>

definition safe_world :: "'n env \<Rightarrow> instant \<Rightarrow> 'n world \<Rightarrow> bool" where
  \<comment> \<open>every cache keeps its invariant, and no instant a cache may compute before \<open>T\<close> overflows\<close>
  "safe_world env T w \<longleftrightarrow>
     w_now w \<le> T \<and> (T + nanos (2 ^ 32)) div 1000000000 < 2 ^ 63
       \<and> (\<forall>(t, ca) \<in> set (w_caches w).
            cache_ok (en_lib env) ca \<and> (T + ca_lazy_ttl ca) div 1000000000 < 2 ^ 63)"

definition calm :: "'n env \<Rightarrow> instant \<Rightarrow> bool" where
  "calm env T \<longleftrightarrow> (\<forall>n w. safe_world env T w \<longrightarrow> safe_world env T (en_other env n w))"

lemma safe_world_meet:
  "calm env T \<Longrightarrow> safe_world env T w \<Longrightarrow> safe_world env T (meet_others env w)"
proof -
  assume "calm env T" and w: "safe_world env T w"
  then have "safe_world env T (en_other env (w_tick w) w)" by (simp add: calm_def)
  moreover have "w_now w \<le> T" using w by (simp add: safe_world_def)
  ultimately show ?thesis by (simp add: meet_others_def Let_def safe_world_def)
qed

lemma safe_world_frame [simp]:
  "safe_world env T (w\<lparr>w_metrics := mx\<rparr>) = safe_world env T w"
  "safe_world env T (w\<lparr>w_next_id := i\<rparr>) = safe_world env T w"
  "safe_world env T (w\<lparr>w_jobs := js\<rparr>) = safe_world env T w"
  by (simp_all add: safe_world_def)

lemma safe_world_now: "safe_world env T w \<Longrightarrow> now \<le> T \<Longrightarrow> safe_world env T (w\<lparr>w_now := now\<rparr>)"
  by (simp add: safe_world_def)

lemma set_update_subset: "set (AList.update k v m) \<subseteq> insert (k, v) (set m)"
  by (induction m) auto

lemma safe_world_cache:
  assumes "safe_world env T w" "map_of (w_caches w) t = Some ca" "cache_ok (en_lib env) ca'"
    and "ca_lazy_ttl ca' = ca_lazy_ttl ca"
  shows "safe_world env T (w\<lparr>w_caches := AList.update t ca' (w_caches w)\<rparr>)"
  using assms map_of_SomeD [OF assms(2)] set_update_subset [of t ca' "w_caches w"]
  by (fastforce simp: safe_world_def)

lemma safe_world_lookup:
  "safe_world env T w \<Longrightarrow> map_of (w_caches w) t = Some ca \<Longrightarrow>
     cache_ok (en_lib env) ca \<and> (T + ca_lazy_ttl ca) div 1000000000 < 2 ^ 63"
  by (auto simp: safe_world_def dest: map_of_SomeD)

lemma ca_lazy_kick: "ca_lazy_ttl (snd (kick_refresh i n c k ca)) = ca_lazy_ttl ca"
  by (simp add: kick_refresh_def split: option.split)

lemma ca_lazy_exec: "cache_exec L clk i c ca mx = (c', ca', mx', job) \<Longrightarrow> ca_lazy_ttl ca' = ca_lazy_ttl ca"
  by (erule cache_exec_cases) (simp_all add: ca_lazy_kick)

lemma safe_run_cache:
  assumes "safe_world env T w"
  shows "safe_world env T (run_world (run_cache env tag c w))"
proof (cases "map_of (w_caches w) tag")
  case None
  with assms show ?thesis by (simp add: run_cache_def)
next
  case (Some ca)
  obtain c' ca' mx job where
    ex: "cache_exec (en_lib env) (\<lambda>_. w_now w) (w_next_id w) c ca (w_metrics w) = (c', ca', mx, job)"
    by (metis prod.exhaust)
  have "safe_world env T (w\<lparr>w_caches := AList.update tag ca' (w_caches w)\<rparr>)"
    by (rule safe_world_cache [OF assms Some cache_ok_exec [OF _ ex] ca_lazy_exec [OF ex]])
      (use safe_world_lookup [OF assms Some] in simp)
  then have "safe_world env T (w\<lparr>w_caches := AList.update tag ca' (w_caches w), w_metrics := mx\<rparr>)"
    by (simp add: safe_world_def)
  with Some ex show ?thesis
    by (auto simp: run_cache_def Let_def safe_world_def split: option.split)
qed

lemma race_loop_now: "fr_now (race_loop p d le lu pending now c mx) \<le> max now d"
proof (induction pending arbitrary: le lu now mx)
  case Nil
  show ?case by (simp add: Let_def)
next
  case (Cons x pending)
  obtain i t r where x: "x = (i, t, r)" by (cases x)
  show ?case
  proof (cases "d < t")
    case True
    with x show ?thesis by simp
  next
    case False
    then have m: "max (max now t) d = max now d" by (simp add: max_def)
    show ?thesis
      using x False Cons.IH [of _ _ "max now t"]
      by (auto simp: Let_def m split: sum.split)
  qed
qed

lemma forward_now: "fr_now (forward_exec p d now ans c mx) \<le> max now d"
  using race_loop_now
  by (auto simp: forward_exec_def forward_single_def Let_def split: prod.split sum.split)

lemma safe_run_forward:
  assumes "safe_world env T w" "d \<le> T"
  shows "safe_world env T (run_world (run_forward env p d tag c w))"
proof -
  have "w_now w \<le> T" using assms(1) by (simp add: safe_world_def)
  with forward_now [of p d "w_now w"] assms show ?thesis
    by (simp add: run_forward_def Let_def safe_world_def le_trans [OF forward_now])
qed

lemma cache_store_total:
  assumes "(T + nanos (2 ^ 32)) div 1000000000 < 2 ^ 63" "(T + ca_lazy_ttl ca) div 1000000000 < 2 ^ 63"
    and "now \<le> T"
  shows "cache_store L now k resp ca \<noteq> None"
proof -
  have "unat (min_ttl resp) < 2 ^ LENGTH(32)" by (rule unsigned_less)
  then have "now + nanos (unat (min_ttl resp)) \<le> T + nanos (2 ^ 32)" using assms(3) by simp
  then have "(now + nanos (unat (min_ttl resp))) div 1000000000 < 2 ^ 63"
    by (rule le_less_trans [OF div_le_mono assms(1)])
  moreover have "(now + ca_lazy_ttl ca) div 1000000000 < 2 ^ 63"
    by (rule le_less_trans [OF div_le_mono [OF add_le_mono1 [OF assms(3)]] assms(2)])
  ultimately show ?thesis
    by (simp add: cache_store_def instant_add_def split: sum.split)
qed

lemma cache_store_lookup_total:
  assumes "safe_world env T w" "map_of (w_caches w) t = Some ca"
  shows "\<exists>ca'. cache_store_lookup (en_lib env) (w_now w) c l ca = Some ca'
    \<and> cache_ok (en_lib env) ca' \<and> ca_lazy_ttl ca' = ca_lazy_ttl ca"
proof -
  have b: "w_now w \<le> T" "(T + nanos (2 ^ 32)) div 1000000000 < 2 ^ 63"
    using assms(1) by (simp_all add: safe_world_def)
  note lk = safe_world_lookup [OF assms]
  have "cache_store (en_lib env) (w_now w) k r ca \<noteq> None" for k r
    by (rule cache_store_total [OF b(2) _ b(1)]) (use lk in simp)
  then have "cache_store_lookup (en_lib env) (w_now w) c l ca \<noteq> None"
    by (simp add: cache_store_lookup_def split: option.split)
  then obtain ca' where st: "cache_store_lookup (en_lib env) (w_now w) c l ca = Some ca'" by blast
  moreover have "cache_ok (en_lib env) ca'"
    using lk st by (blast intro: cache_ok_store_lookup)
  moreover have "ca_lazy_ttl ca' = ca_lazy_ttl ca"
    using st
    by (auto simp: cache_store_lookup_def Let_def dest!: cache_store_cases split: if_splits option.splits)
  ultimately show ?thesis by blast
qed

lemma safe_store_writes:
  "safe_world env T w \<Longrightarrow> \<exists>w'. store_writes env c ws w = Some w' \<and> safe_world env T w'"
proof (induction env c ws w rule: store_writes.induct)
  case (1 env c w)
  then show ?case by simp
next
  case (2 env c tag l ws w)
  show ?case
  proof (cases "map_of (w_caches w) tag")
    case None
    with 2 show ?thesis by simp
  next
    case (Some ca)
    from cache_store_lookup_total [OF 2(3) Some, of c l] obtain ca' where
      ca': "cache_store_lookup (en_lib env) (w_now w) c l ca = Some ca'"
        "cache_ok (en_lib env) ca'" "ca_lazy_ttl ca' = ca_lazy_ttl ca" by blast
    with 2(2) [OF Some ca'(1) safe_world_cache [OF 2(3) Some ca'(2,3)]] Some
    show ?thesis by simp
  qed
qed

locale safe_caller =
  fixes env :: "'n env" and T :: instant and call :: "'n caller"
  assumes call_safe: "calm env T \<Longrightarrow> d \<le> T \<Longrightarrow> safe_world env T w \<Longrightarrow>
    fst (call d t c w) \<noteq> Inl Crash \<and> safe_world env T (run_world (call d t c w))"
begin

lemma call_safe':
  "calm env T \<Longrightarrow> d \<le> T \<Longrightarrow> safe_world env T w \<Longrightarrow> call d t c w = (r, c', w') \<Longrightarrow>
     r \<noteq> Inl Crash \<and> safe_world env T w'"
  using call_safe [of d w t c] by simp

lemma safe_finish:
  "safe_world env T w \<Longrightarrow>
     fst (seq_finish env ws a c w) \<noteq> Inl Crash \<and> safe_world env T (run_world (seq_finish env ws a c w))"
  using safe_store_writes [of env T w c ws] by (auto simp: seq_finish_def)

lemma safe_goto:
  assumes "calm env T" "d \<le> T" "safe_world env T w"
  shows "fst (seq_goto env (call d) t ws c w) \<noteq> Inl Crash
    \<and> safe_world env T (run_world (seq_goto env (call d) t ws c w))"
proof (cases "get_exec t (en_reg env)")
  case (Inl e)
  with assms show ?thesis by (simp add: seq_goto_def)
next
  case (Inr p)
  obtain r c' w' where cl: "call d t c w = (r, c', w')" by (metis prod.exhaust)
  with call_safe' [OF assms cl] Inr safe_finish [of w'] show ?thesis
    by (auto simp: seq_goto_def split: sum.split)
qed

lemma safe_step:
  assumes "calm env T" "d \<le> T" "safe_world env T w"
    and "seq_step env (call d) tag s ws c w = ((r, c', w'), ws')"
  shows "r \<noteq> Inl Crash \<and> safe_world env T w'"
  using assms
  by (auto simp: seq_step_def split: exec_target.splits sum.splits prod.splits
      dest!: call_safe' [OF assms(1-3)])

lemma safe_seq_run:
  assumes "calm env T" "d \<le> T"
  shows "safe_world env T w \<Longrightarrow> fst (seq_run env (call d) tag ss ws c w) \<noteq> Inl Crash
    \<and> safe_world env T (run_world (seq_run env (call d) tag ss ws c w))"
proof (induction ss arbitrary: ws c w)
  case Nil
  then show ?case using safe_finish by simp
next
  case (Cons s ss)
  obtain r c' w' ws' where st: "seq_step env (call d) tag s ws c w = ((r, c', w'), ws')"
    by (metis prod.exhaust)
  from safe_step [OF assms Cons.prems st] have sw: "r \<noteq> Inl Crash" "safe_world env T w'" by auto
  show ?case
    using Cons.IH [OF Cons.prems] Cons.IH [OF sw(2)] st sw safe_finish [OF sw(2)]
      safe_goto [OF assms sw(2)]
    by (auto split: sum.splits action.splits)
qed

lemma safe_fallback_second:
  assumes "calm env T" "d \<le> T" "safe_world env T w"
  shows "fst (fallback_second call d f c w) \<noteq> Inl Crash
    \<and> safe_world env T (run_world (fallback_second call d f c w))"
proof -
  let ?c1 = "push_trace (w_now w) (fb_tag f) ''secondary'' ''fallback'' c"
  obtain s0 n where fk: "forked ?c1 w = (s0, w\<lparr>w_next_id := n\<rparr>)"
    by (simp add: forked_def next_id_def)
  obtain r s1 w1 where cl: "call d (fb_secondary f) s0 (w\<lparr>w_next_id := n\<rparr>) = (r, s1, w1)"
    by (metis prod.exhaust)
  from call_safe' [OF assms(1,2) _ cl] assms(3) show ?thesis
    by (cases r) (auto simp: fallback_second_def Let_def fk cl)
qed

lemma safe_fallback_serial:
  assumes "calm env T" "d \<le> T" "safe_world env T w"
  shows "fst (fallback_serial call d f c w) \<noteq> Inl Crash
    \<and> safe_world env T (run_world (fallback_serial call d f c w))"
proof -
  obtain p0 n where fk: "forked c w = (p0, w\<lparr>w_next_id := n\<rparr>)"
    by (simp add: forked_def next_id_def)
  obtain r p1 w1 where cl: "call (min d (w_now w + fb_threshold f)) (fb_primary f) p0
      (w\<lparr>w_next_id := n\<rparr>) = (r, p1, w1)"
    by (metis prod.exhaust)
  have s: "r \<noteq> Inl Crash" "safe_world env T w1"
    using call_safe' [OF assms(1) _ _ cl] assms(2,3) by auto
  then show ?thesis
    using safe_fallback_second [OF assms(1,2) s(2), of f c]
    by (simp add: fallback_serial_def Let_def fk cl)
qed

lemma safe_fallback_standby:
  assumes "calm env T" "d \<le> T" "safe_world env T w"
  shows "fst (fallback_standby call d f c w) \<noteq> Inl Crash
    \<and> safe_world env T (run_world (fallback_standby call d f c w))"
proof -
  obtain p0 n where fk: "forked c w = (p0, w\<lparr>w_next_id := n\<rparr>)"
    by (simp add: forked_def next_id_def)
  obtain s0 k where fk2: "forked c (w\<lparr>w_next_id := n\<rparr>) = (s0, w\<lparr>w_next_id := k\<rparr>)"
    by (simp add: forked_def next_id_def)
  obtain r p1 w1 where cl: "call (min d (w_now w + fb_threshold f)) (fb_primary f) p0
      (w\<lparr>w_next_id := k\<rparr>) = (r, p1, w1)"
    by (metis prod.exhaust)
  obtain r' s1 w2 where cl2: "call (if wins r p1 then min d (w_now w1) else d) (fb_secondary f)
      s0 (w1\<lparr>w_now := w_now w\<rparr>) = (r', s1, w2)"
    by (metis prod.exhaust)
  have s: "r \<noteq> Inl Crash" "safe_world env T w1"
    using call_safe' [OF assms(1) _ _ cl] assms(2,3) by auto
  have "safe_world env T (w1\<lparr>w_now := w_now w\<rparr>)"
    using s(2) assms(3) by (simp add: safe_world_def)
  moreover have "(if wins r p1 then min d (w_now w1) else d) \<le> T"
    using assms(2) by (simp add: min.coboundedI1)
  ultimately have s2: "r' \<noteq> Inl Crash" "safe_world env T w2"
    using call_safe' [OF assms(1) _ _ cl2] by blast+
  have "safe_world env T (w2\<lparr>w_now := w_now w1\<rparr>)"
      "safe_world env T (w2\<lparr>w_now := max (w_now w1) (w_now w2)\<rparr>)"
    using s(2) s2(2) by (simp_all add: safe_world_def)
  moreover have "map_sum id as_continue r' \<noteq> Inl Crash" using s2(1) by (cases r') auto
  ultimately show ?thesis
    using s s2 by (cases "wins r p1") (use cl2 in \<open>simp_all add: fallback_standby_def Let_def fk fk2 cl\<close>)
qed

lemma safe_exec_plugin:
  assumes "calm env T" "d \<le> T" "safe_world env T w"
  shows "fst (exec_plugin env call d tag p c w) \<noteq> Inl Crash
    \<and> safe_world env T (run_world (exec_plugin env call d tag p c w))"
proof (cases p)
  case (PlSequence q)
  then show ?thesis by (simp add: exec_plugin_def Let_def safe_seq_run [OF assms])
next
  case (PlFallback f)
  then show ?thesis
    using safe_fallback_serial [OF assms] safe_fallback_standby [OF assms] assms(3)
    by (simp add: exec_plugin_def Let_def fallback_run_def split: sum.split)
next
  case (PlForward f)
  then show ?thesis
    using safe_run_forward [OF assms(3,2)] by (simp add: exec_plugin_def Let_def) (simp add: run_forward_def Let_def)
next
  case PlCache
  then show ?thesis
    using safe_run_cache [OF assms(3)]
    by (simp add: exec_plugin_def Let_def) (simp add: run_cache_def Let_def split: option.split prod.split)
qed (simp_all add: exec_plugin_def Let_def assms(3))

end

lemma safe_caller_exec_tag: "safe_caller env T (exec_tag depth env)"
proof (induction depth)
  case 0
  show ?case by standard simp
next
  case (Suc depth)
  show ?case
    by standard (simp add: safe_caller.safe_exec_plugin [OF Suc] safe_world_meet split: sum.split)
qed

interpretation safe_pipeline: safe_caller env T "exec_tag depth env" for env T depth
  by (rule safe_caller_exec_tag)

end
