(* ===== verification/Runtime_Laws.thy ===== *)
theory Runtime_Laws
  imports Runtime Graph_Laws Pipeline_Laws
begin

text \<open>
  A runtime that was built runs every request within the call depth its graph check allows.
\<close>

section \<open>The checked graph is the registry's\<close>

definition is_set_plugin :: "plugin_config \<Rightarrow> bool" where
  "is_set_plugin p \<longleftrightarrow> pc_ty p = ''domain_set'' \<or> pc_ty p = ''ip_set''"

definition edges_of :: "plugin_config list \<Rightarrow> string list \<times> edges \<Rightarrow> bool" where
  "edges_of ps acc \<longleftrightarrow>
     alist_ok (snd acc) \<and> set (fst acc) = plugin_tag ` set ps \<and> fst ` set (snd acc) \<subseteq> plugin_tag ` set ps
       \<and> (\<forall>p \<in> set ps. \<not> is_set_plugin p \<longrightarrow>
            (\<exists>cs. config_calls p = Inr cs \<and> map_of (snd acc) (plugin_tag p) = Some cs))"

lemma edges_of_step:
  assumes "edges_of ps acc" "add_plugin acc p = Inr acc'"
  shows "edges_of (ps @ [p]) acc'"
proof -
  have new: "plugin_tag p \<notin> set (fst acc)" and
    acc': "fst acc' = plugin_tag p # fst acc"
    using assms(2) by (auto simp: add_plugin_def Let_def split: if_splits)
  show ?thesis
  proof (cases "is_set_plugin p")
    case True
    then have "snd acc' = snd acc"
      using assms(2) by (auto simp: add_plugin_def Let_def is_set_plugin_def split: if_splits)
    with assms(1) acc' True show ?thesis by (auto simp: edges_of_def)
  next
    case False
    then obtain cs where cs: "config_calls p = Inr cs" "snd acc' = AList.update (plugin_tag p) cs (snd acc)"
      using assms(2) by (auto simp: add_plugin_def Let_def is_set_plugin_def split: if_splits)
    have "plugin_tag q \<noteq> plugin_tag p" if "q \<in> set ps" for q
      using that new assms(1) by (metis edges_of_def imageI)
    then have "\<exists>cs. config_calls q = Inr cs \<and> map_of (snd acc') (plugin_tag q) = Some cs"
      if "q \<in> set ps" "\<not> is_set_plugin q" for q
      using that assms(1) cs by (auto simp: edges_of_def update_conv')
    moreover have "alist_ok (snd acc')" "set (fst acc') = plugin_tag ` set (ps @ [p])"
        "fst ` set (snd acc') \<subseteq> plugin_tag ` set (ps @ [p])"
      using assms(1) acc' cs by (auto simp: edges_of_def fst_set_update)
    ultimately show ?thesis using cs by (auto simp: edges_of_def update_conv')
  qed
qed

lemma edges_of_fold:
  "edges_of ps acc \<Longrightarrow> res_fold add_plugin acc qs = Inr acc' \<Longrightarrow> edges_of (ps @ qs) acc'"
proof (induction qs arbitrary: ps acc)
  case Nil
  then show ?case by simp
next
  case (Cons q qs)
  then obtain acc1 where "add_plugin acc q = Inr acc1" "res_fold add_plugin acc1 qs = Inr acc'"
    by auto
  with Cons.IH [OF edges_of_step [OF Cons.prems(1)]] show ?case by simp
qed

lemma graph_edges_of:
  "graph_edges ps = Inr es \<Longrightarrow> \<exists>tags. edges_of ps (tags, es)"
proof -
  assume "graph_edges ps = Inr es"
  then obtain acc where acc: "res_fold add_plugin ([], []) ps = Inr acc" "es = snd acc"
    by (auto simp: graph_edges_def)
  have "edges_of [] ([], [])" by (simp add: edges_of_def)
  from edges_of_fold [OF this acc(1)] have "edges_of ps acc" by simp
  with acc(2) show ?thesis by (metis prod.collapse)
qed

definition execs_from :: "plugin_config list \<Rightarrow> (string \<times> 'n plugin) list \<Rightarrow> bool" where
  "execs_from ps execs \<longleftrightarrow>
     (\<forall>t pl. map_of execs t = Some pl \<longrightarrow>
        (\<exists>p \<in> set ps. plugin_tag p = t \<and> \<not> is_set_plugin p \<and> config_calls p = Inr (plugin_calls pl)))"

definition seqs_from :: "plugin_config list \<Rightarrow> (string \<times> yaml) list \<Rightarrow> bool" where
  "seqs_from ps seqs \<longleftrightarrow>
     (\<forall>x \<in> set seqs. \<exists>p \<in> set ps. plugin_tag p = fst x \<and> pc_ty p = ''sequence'' \<and> pc_args p = snd x)"

definition fallbacks_from :: "plugin_config list \<Rightarrow> (string \<times> fallback) list \<Rightarrow> bool" where
  "fallbacks_from ps fbs \<longleftrightarrow>
     (\<forall>x \<in> set fbs. \<exists>p \<in> set ps. plugin_tag p = fst x \<and> pc_ty p = ''fallback''
        \<and> fallback_from_args (fst x) (pc_args p) = Inr (snd x))"

definition built_from :: "plugin_config list \<Rightarrow> 'n build_state \<Rightarrow> bool" where
  "built_from ps st \<longleftrightarrow> execs_from ps (bs_execs st) \<and> seqs_from ps (bs_seqs st)
     \<and> fallbacks_from ps (bs_fallbacks st)"

lemma execs_from_update:
  "execs_from ps execs \<Longrightarrow> p \<in> set ps \<Longrightarrow> \<not> is_set_plugin p \<Longrightarrow> config_calls p = Inr (plugin_calls pl)
     \<Longrightarrow> execs_from ps (AList.update (plugin_tag p) pl execs)"
  by (auto simp: execs_from_def update_conv')

lemma from_mono:
  "execs_from ps execs \<Longrightarrow> execs_from (ps @ [p]) execs"
  "seqs_from ps seqs \<Longrightarrow> seqs_from (ps @ [p]) seqs"
  "fallbacks_from ps fbs \<Longrightarrow> fallbacks_from (ps @ [p]) fbs"
  by (fastforce simp: execs_from_def, fastforce simp: seqs_from_def, fastforce simp: fallbacks_from_def)

lemma built_from_put:
  assumes "built_from ps st" "pc_ty p \<notin> {''sequence'', ''fallback'', ''domain_set'', ''ip_set''}"
    and "plugin_calls pl = []"
  shows "built_from (ps @ [p]) (put_exec (plugin_tag p) pl st)"
proof -
  have "config_calls p = Inr (plugin_calls pl)" "\<not> is_set_plugin p"
    using assms(2,3) by (simp_all add: config_calls_def is_set_plugin_def)
  with assms(1) show ?thesis
    by (simp add: built_from_def put_exec_def from_mono execs_from_update)
qed

lemma built_from_mono: "built_from ps st \<Longrightarrow> built_from (ps @ [p]) st"
  by (simp add: built_from_def from_mono)

lemma built_from_frame [simp]:
  "built_from ps (st\<lparr>bs_domains := d\<rparr>) = built_from ps st"
  "built_from ps (st\<lparr>bs_ips := i\<rparr>) = built_from ps st"
  "built_from ps (st\<lparr>bs_caches := c\<rparr>) = built_from ps st"
  by (simp_all add: built_from_def)

lemma put_leaf:
  "plugin_calls pl = [] \<Longrightarrow> \<exists>pl'. put_exec t pl st = put_exec t pl' st \<and> plugin_calls pl' = []"
  by blast

lemma built_from_step:
  assumes "built_from ps st" "build_plugin L pf st p = Inr st'"
  shows "built_from (ps @ [p]) st'"
proof -
  note mono = built_from_mono [OF assms(1), of p]
  consider "pc_ty p = ''sequence''" | "pc_ty p = ''fallback''"
    | "pc_ty p = ''domain_set''" | "pc_ty p = ''ip_set''" | "pc_ty p = ''cache''"
    | "pc_ty p \<notin> {''sequence'', ''fallback'', ''domain_set'', ''ip_set'', ''cache''}"
    by blast
  then show ?thesis
  proof cases
    case 1
    with assms(2) have "st' = st\<lparr>bs_seqs := bs_seqs st @ [(plugin_tag p, pc_args p)]\<rparr>"
      by (simp add: build_plugin_def Let_def)
    with 1 mono show ?thesis by (simp add: built_from_def seqs_from_def)
  next
    case 2
    with assms(2) obtain f where "fallback_from_args (plugin_tag p) (pc_args p) = Inr f"
        "st' = st\<lparr>bs_fallbacks := bs_fallbacks st @ [(plugin_tag p, f)]\<rparr>"
      by (auto simp: build_plugin_def Let_def)
    with 2 mono show ?thesis by (simp add: built_from_def fallbacks_from_def)
  next
    case 3
    with assms(2) mono show ?thesis by (auto simp: build_plugin_def Let_def)
  next
    case 4
    with assms(2) mono show ?thesis by (auto simp: build_plugin_def Let_def)
  next
    case 5
    then have "st' = put_exec (plugin_tag p) PlCache (st\<lparr>bs_caches :=
        AList.update (plugin_tag p) (cache_from_args (plugin_tag p) (pc_args p)) (bs_caches st)\<rparr>)"
      using assms(2) by (simp add: build_plugin_def Let_def)
    moreover have "built_from (ps @ [p]) \<dots>"
      by (rule built_from_put) (use assms(1) 5 in simp_all)
    ultimately show ?thesis by simp
  next
    case 6
    then have "\<exists>pl. st' = put_exec (plugin_tag p) pl st \<and> plugin_calls pl = []"
      using assms(2) by (auto simp: build_plugin_def Let_def intro!: put_leaf split: if_splits)
    then obtain pl where "plugin_calls pl = []" "st' = put_exec (plugin_tag p) pl st" by blast
    with built_from_put [OF assms(1), of p pl] 6 show ?thesis by simp
  qed
qed

lemma built_from_fold:
  "built_from ps st \<Longrightarrow> res_fold (build_plugin L pf) st qs = Inr st' \<Longrightarrow> built_from (ps @ qs) st'"
proof (induction qs arbitrary: ps st)
  case Nil
  then show ?case by simp
next
  case (Cons q qs)
  then obtain st1 where "build_plugin L pf st q = Inr st1" "res_fold (build_plugin L pf) st1 qs = Inr st'"
    by auto
  with Cons.IH [OF built_from_step [OF Cons.prems(1)]] show ?case by simp
qed

lemma compile_step_calls:
  assumes "compile_step L sets r = Inr s" "raw_step_calls r = Inr cs"
  shows "cs = step_calls s"
proof (cases "strip_prefix ''$'' (trim (rs_exec r))")
  case None
  then obtain b where "builtin_parse (trim (rs_exec r)) = Inr b" "st_exec s = ExBuiltin b"
    using assms(1) by (auto simp: compile_step_def parse_exec_def Let_def)
  with assms(2) None show ?thesis
    by (cases b) (auto simp: raw_step_calls_def Let_def step_calls_def)
next
  case (Some t)
  then have "st_exec s = ExPlugin t"
    using assms(1) by (auto simp: compile_step_def parse_exec_def Let_def)
  with assms(2) Some show ?thesis by (simp add: raw_step_calls_def Let_def step_calls_def)
qed

lemma compile_steps_calls:
  "res_map (compile_step L sets) raw = Inr ss \<Longrightarrow> res_map raw_step_calls raw = Inr css
     \<Longrightarrow> concat css = concat (map step_calls ss)"
  by (induction raw arbitrary: ss css) (auto dest: compile_step_calls)

lemma compile_sequence_calls:
  assumes "compile_sequence L sets (t, args) = Inr (t', pl)" "pc_ty p = ''sequence''" "pc_args p = args"
    and "config_calls p = Inr cs"
  shows "t' = t \<and> cs = plugin_calls pl"
  using assms
  by (auto simp: compile_sequence_def compile_steps_def config_calls_def dest: compile_steps_calls)

lemma insert_execs_lookup:
  "map_of (insert_execs new execs) t = Some pl \<Longrightarrow>
     (t, pl) \<in> set new \<or> map_of execs t = Some pl"
proof (induction new arbitrary: execs)
  case Nil
  then show ?case by (simp add: insert_execs_def)
next
  case (Cons x new)
  obtain a b where x: "x = (a, b)" by (cases x)
  with Cons.prems have "map_of (insert_execs new (AList.update a b execs)) t = Some pl"
    by (simp add: insert_execs_def)
  from Cons.IH [OF this] x show ?case by (auto simp: update_conv' split: if_splits)
qed

lemma registry_execs_from:
  assumes "built_from ps st" "build_registry L cfg st = Inr rt"
    and "\<And>p. p \<in> set ps \<Longrightarrow> \<not> is_set_plugin p \<Longrightarrow> \<exists>cs. config_calls p = Inr cs"
  shows "execs_from ps (rg_execs (rt_registry rt))"
proof -
  let ?sets = "\<lparr>rg_domains = bs_domains st, rg_ips = bs_ips st\<rparr>"
  obtain compiled where
    c: "res_map (compile_sequence L ?sets) (bs_seqs st) = Inr compiled" and
    rg: "rg_execs (rt_registry rt) = insert_execs (map (\<lambda>(t, f). (t, PlFallback f)) (bs_fallbacks st))
           (insert_execs compiled (bs_execs st))"
    using assms(2) by (auto simp: build_registry_def Let_def)
  have seq: "\<exists>p \<in> set ps. plugin_tag p = t \<and> \<not> is_set_plugin p \<and> config_calls p = Inr (plugin_calls pl)"
    if compiled_in: "(t, pl) \<in> set compiled" for t pl
  proof -
    from c compiled_in obtain t0 args where
      s: "(t0, args) \<in> set (bs_seqs st)" "compile_sequence L ?sets (t0, args) = Inr (t, pl)"
      by (auto simp: res_map_Inr_iff list_all2_conv_all_nth in_set_conv_nth) (metis prod.exhaust)
    with assms(1) obtain p where
      p: "p \<in> set ps" "plugin_tag p = t0" "pc_ty p = ''sequence''" "pc_args p = args"
      by (fastforce simp: built_from_def seqs_from_def)
    then have ns: "\<not> is_set_plugin p" by (simp add: is_set_plugin_def)
    then obtain cs where "config_calls p = Inr cs" using assms(3) p(1) by blast
    with compile_sequence_calls [OF s(2) p(3,4)] p ns show ?thesis by auto
  qed
  have fb: "\<exists>p \<in> set ps. plugin_tag p = t \<and> \<not> is_set_plugin p
      \<and> config_calls p = Inr (plugin_calls (PlFallback f))"
    if "(t, f) \<in> set (bs_fallbacks st)" for t f
    using that assms(1)
    by (fastforce simp: built_from_def fallbacks_from_def config_calls_def is_set_plugin_def)
  have ex: "execs_from ps (bs_execs st)" using assms(1) by (simp add: built_from_def)
  show ?thesis
    unfolding rg execs_from_def
    using seq fb ex by (fastforce simp: execs_from_def dest!: insert_execs_lookup)
qed

lemma edge_le_depth_le:
  assumes "\<forall>t pl. map_of (rg_execs reg) t = Some pl \<longrightarrow> map_of es t = Some (plugin_calls pl)"
  shows "edge_le es n t \<Longrightarrow> depth_le reg n t"
proof (induction n arbitrary: t)
  case 0
  then show ?case by simp
next
  case (Suc n)
  then show ?case
    by (auto simp: list_all_iff dest: assms [rule_format] split: option.splits)
qed

lemma build_execs_from:
  assumes "build L pf cfg0 = Inr rt"
  obtains ps es tags where "graph_edges ps = Inr es" "validate_edges es = Inr ()" "edges_of ps (tags, es)"
    "execs_from ps (rg_execs (rt_registry rt))"
proof -
  from assms obtain cfg st es where
    "normalize_entries cfg0 = Inr cfg" and
    es: "graph_edges (cf_plugins cfg) = Inr es" "validate_edges es = Inr ()" and
    st: "res_fold (build_plugin L pf) build_start (cf_plugins cfg) = Inr st" and
    rt: "build_registry L cfg st = Inr rt"
    by (auto simp: build_def validate_plugin_graph_def)
  let ?ps = "cf_plugins cfg"
  obtain tags where eo: "edges_of ?ps (tags, es)"
    using graph_edges_of [OF es(1)] by blast
  have "built_from [] build_start"
    by (simp add: built_from_def build_start_def execs_from_def seqs_from_def fallbacks_from_def)
  from built_from_fold [OF this st] have bf: "built_from ?ps st" by simp
  have "execs_from ?ps (rg_execs (rt_registry rt))"
    by (rule registry_execs_from [OF bf rt]) (use eo in \<open>auto simp: edges_of_def\<close>)
  with that es eo show thesis by blast
qed

lemma add_plugin_tags:
  "res_fold add_plugin acc ps = Inr acc' \<Longrightarrow> p \<in> set ps \<Longrightarrow> \<not> bad_tag (plugin_tag p)"
  by (induction ps arbitrary: acc) (auto simp: add_plugin_def Let_def split: if_splits)

lemma build_tags_clean:
  assumes "build L pf cfg0 = Inr rt" "map_of (rg_execs (rt_registry rt)) t = Some pl"
  shows "\<not> bad_tag t"
proof -
  obtain ps es tags where "graph_edges ps = Inr es" "execs_from ps (rg_execs (rt_registry rt))"
    using build_execs_from [OF assms(1)] by metis
  with assms(2) show ?thesis
    by (auto simp: execs_from_def graph_edges_def dest: add_plugin_tags)
qed

lemma build_depth:
  assumes "build L pf cfg0 = Inr rt"
  shows "map_of (rg_execs (rt_registry rt)) t = Some pl \<Longrightarrow> depth_le (rt_registry rt) call_depth t"
proof -
  obtain ps es tags where es: "graph_edges ps = Inr es" "validate_edges es = Inr ()"
    and eo: "edges_of ps (tags, es)" and ex: "execs_from ps (rg_execs (rt_registry rt))"
    using build_execs_from [OF assms] by metis
  have calls: "map_of es t = Some (plugin_calls pl)"
    if "map_of (rg_execs (rt_registry rt)) t = Some pl" for t pl
    using that eo ex by (fastforce simp: execs_from_def edges_of_def)
  assume t: "map_of (rg_execs (rt_registry rt)) t = Some pl"
  have "t \<in> fst ` set es" using map_of_SomeD [OF calls [OF t]] by force
  moreover have "alist_ok es" using eo by (simp add: edges_of_def)
  ultimately have "edge_le es max_pipeline_depth t"
    using es(2) validate_edges_iff by blast
  then have "depth_le (rt_registry rt) max_pipeline_depth t"
    using edge_le_depth_le [of "rt_registry rt" es] calls by blast
  then show ?thesis by (simp add: max_pipeline_depth_def call_depth_def)
qed

lemma depth_le_unknown: "map_of (rg_execs reg) t = None \<Longrightarrow> depth_le reg (Suc n) t"
  by simp

lemma build_depth_any:
  assumes "build L pf cfg0 = Inr rt"
  shows "depth_le (rt_registry rt) call_depth t"
proof (cases "map_of (rg_execs (rt_registry rt)) t")
  case None
  then have "depth_le (rt_registry rt) (Suc 63) t" by (rule depth_le_unknown)
  then show ?thesis by (simp only: call_depth_def) simp
next
  case (Some pl)
  with build_depth [OF assms] show ?thesis by blast
qed

end
