(* ===== verification/Server_Laws.thy ===== *)
theory Server_Laws
  imports Server Runtime_Laws
begin

text \<open>
  What a client can rely on, whatever the pipeline is made of: the reply is bound to the question,
  contains the alias chain of every rewrite, never carries a subnet the pipeline attached or
  took off, and a request on a runtime that was built always ends.
\<close>

section \<open>The context a request starts with\<close>

abbreviation start_ctx :: "u64 \<Rightarrow> instant \<Rightarrow> 'n message \<Rightarrow> ip option \<Rightarrow> client_proto \<Rightarrow> string \<Rightarrow> 'n ctx" where
  "start_ctx i now q cl pr entry \<equiv> begin_pipeline entry (ctx_new i now q cl pr)"

lemma questions_ok_refl: "questions_ok qs qs []"
  by (cases qs) (auto simp: questions_ok_def)

lemma ctx_ok_new [simp]: "ctx_ok (ctx_new i now q cl pr)"
  by (auto simp: ctx_ok_def ctx_new_def questions_ok_refl same_header_def subnet_ok_def)

lemma ctx_ok_begin [simp]: "ctx_ok (begin_pipeline e c) = ctx_ok c"
  by (simp add: begin_pipeline_def ctx_ok_def)

lemma original_begin [simp]:
  "c_original (begin_pipeline e c) = c_original c" "c_original (ctx_new i now q cl pr) = q"
  "c_query (begin_pipeline e c) = c_query c" "c_query (ctx_new i now q cl pr) = q"
  by (simp_all add: begin_pipeline_def ctx_new_def)

section \<open>The end of a request\<close>

lemma handle_cases:
  assumes "handle env entry (ctx_new i now q cl pr) timeout w = (Inr (Inr ()), c', w')"
    and "c_response c' \<noteq> None"
  obtains c1 w1 where "ctx_ok c1" "c_original c1 = q"
    "handle_finish env c1 w1 = (Inr (Inr ()), c', w')"
    "evolves (ctx_new i now q cl pr) c1 \<or> evolves (start_ctx i now q cl pr entry) c1"
proof -
  let ?c = "ctx_new i now q cl pr" and ?s = "start_ctx i now q cl pr entry"
  note finish = that
  have ok: thesis if "evolves ?c c1 \<or> evolves ?s c1" "handle_finish env c1 w1 = (Inr (Inr ()), c', w')"
    for c1 w1
  proof (rule finish [OF _ _ that(2)])
    show "ctx_ok c1" using that(1) by (auto simp: evolves_def)
    show "c_original c1 = q" using that(1) evolves_original by fastforce
    show "evolves ?c c1 \<or> evolves ?s c1" by (rule that(1))
  qed
  show thesis
  proof (cases "classify_incoming q")
    case Drop
    with assms show ?thesis by (auto simp: handle_def ctx_new_def)
  next
    case ReplyNotImp
    with assms(1) have "handle_finish env (reject NotImp ?c) w = (Inr (Inr ()), c', w')"
      by (simp add: handle_def)
    with ok evolves_reject show ?thesis by blast
  next
    case Process
    obtain p where p: "get_exec entry (en_reg env) = Inr p"
      by (cases "get_exec entry (en_reg env)")
        (use assms(1) Process in \<open>simp_all add: handle_def Let_def\<close>)
    obtain r c1 w1 where ex: "exec_tag call_depth env (w_now w + timeout) entry ?s w = (r, c1, w1)"
      by (metis prod.exhaust)
    then have ev: "evolves ?s c1" by (rule pipeline.evolves_call)
    have rej: "evolves ?s (reject ServFail c1)" using ev evolves_reject by (rule evolves_trans)
    show ?thesis
    proof (cases r)
      case (Inl st)
      with assms(1) Process p ex
      have "handle_finish env (reject ServFail c1) w1 = (Inr (Inr ()), c', w')"
        by (cases st) (simp_all add: handle_def)
      with ok rej show ?thesis by blast
    next
      case (Inr a)
      with assms(1) Process p ex
      have "handle_finish env (case a of Inl e \<Rightarrow> if has_resp c1 then c1 else reject ServFail c1 | Inr _ \<Rightarrow> c1) w1
          = (Inr (Inr ()), c', w')"
        by (cases a) (simp_all add: handle_def)
      moreover have "evolves ?s (case a of Inl e \<Rightarrow> if has_resp c1 then c1 else reject ServFail c1 | Inr _ \<Rightarrow> c1)"
        using ev rej by (simp split: sum.split)
      ultimately show ?thesis using ok by blast
    qed
  qed
qed

lemma handle_finish_ctx:
  "handle_finish env c w = (x, c', w') \<Longrightarrow>
     c' = c\<lparr>c_response := map_option (if c_strip c then remove_ecs else id)
              (response_for_query (en_lib env) (c_original c) 0 c)\<rparr>"
  by (cases "c_strip c")
    (simp_all add: handle_finish_def Let_def finalize_response_def option.map_id)

lemma handle_finish_response:
  assumes "handle_finish env c w = (x, c', w')"
  shows "c_response c' = map_option (if c_strip c then remove_ecs else id)
           (response_for_query (en_lib env) (c_original c) 0 c)"
    and "c_query c' = c_query c" "c_rewrites c' = c_rewrites c" "c_strip c' = c_strip c"
  using handle_finish_ctx [OF assms] by simp_all

lemma response_for_query_header:
  assumes "response_for_query L q n c = Some r"
  shows "m_id r = m_id q \<and> m_type r = MtResponse \<and> m_opcode r = m_opcode q \<and> m_rd r = m_rd q
    \<and> m_cd r = m_cd q \<and> m_queries r = m_queries q \<and> (m_edns q = None \<longrightarrow> m_edns r = None)"
  using assms
  by (auto simp: response_for_query_def rebind_response_def rebind_edns_def Let_def
      split: option.splits if_splits)

lemma message_remove_ecs [simp]:
  "m_edns (remove_ecs m) = None \<longleftrightarrow> m_edns m = None"
  by (simp add: remove_ecs_def)

lemma remove_ecs_header [simp]:
  "m_id (remove_ecs m) = m_id m" "m_type (remove_ecs m) = m_type m"
  "m_opcode (remove_ecs m) = m_opcode m" "m_rd (remove_ecs m) = m_rd m"
  "m_cd (remove_ecs m) = m_cd m" "m_queries (remove_ecs m) = m_queries m"
  "m_ad (remove_ecs m) = m_ad m"
  by (simp_all add: remove_ecs_def)

lemma handle_reply_header:
  assumes "handle env entry (ctx_new i now q cl pr) timeout w = (Inr (Inr ()), c', w')"
    and "c_response c' = Some r"
  shows "m_id r = m_id q \<and> m_type r = MtResponse \<and> m_opcode r = m_opcode q \<and> m_rd r = m_rd q
    \<and> m_cd r = m_cd q \<and> m_queries r = m_queries q \<and> (m_edns q = None \<longrightarrow> m_edns r = None)"
proof -
  from assms obtain c1 w1 where c1: "c_original c1 = q"
    "handle_finish env c1 w1 = (Inr (Inr ()), c', w')"
    by (auto elim: handle_cases)
  with assms(2) handle_finish_response(1) [OF c1(2)]
  obtain r0 where "response_for_query (en_lib env) q 0 c1 = Some r0"
    "r = (if c_strip c1 then remove_ecs r0 else r0)"
    by (auto split: if_splits)
  then show ?thesis using response_for_query_header [of "en_lib env" q 0 c1 r0] by simp
qed

text \<open>
  C1. Every reply \<open>handle\<close> leaves in a fresh context is bound to the client's message: its
  identifier, opcode, question section and the flags a client expects back; and a client that did
  not speak EDNS gets none.
\<close>
theorem reply_bound_to_client:
  assumes "handle env entry (ctx_new i now q cl pr) timeout w = (Inr (Inr ()), c', w')"
    and "c_response c' = Some r"
  shows "m_id r = m_id q \<and> m_type r = MtResponse \<and> m_opcode r = m_opcode q \<and> m_rd r = m_rd q
    \<and> m_cd r = m_cd q \<and> m_queries r = m_queries q \<and> (m_edns q = None \<longrightarrow> m_edns r = None)"
  using handle_reply_header [OF assms] .



section \<open>Rewritten names\<close>

lemma ecs_answers [simp]: "m_answers (remove_ecs m) = m_answers m" "m_rcode (remove_ecs m) = m_rcode m"
  by (simp_all add: remove_ecs_def)

lemma alias_record_present:
  "(\<And>n. nm_eq L n n) \<Longrightarrow> alias_present L (map (alias_record q t) ps @ rs) p \<longleftrightarrow>
     alias_present L (map (alias_record q t) ps) p \<or> alias_present L rs p"
  by (simp add: alias_present_def)

lemma alias_present_own:
  assumes "\<And>n. nm_eq L n n" "p \<in> set ps"
  shows "alias_present L (map (alias_record q t) ps) p"
proof -
  have "rr_name (alias_record q t p) = fst p \<and> rr_data (alias_record q t p) = RdCNAME (snd p)"
    by (simp add: alias_record_def record_cname_def Let_def split: list.split)
  with assms show ?thesis by (auto simp: alias_present_def list_ex_iff intro!: bexI [OF _ assms(2)])
qed

lemma response_aliases:
  assumes refl: "\<And>n. nm_eq L n n" and r: "response_for_query L q 0 c = Some r"
    and r0: "c_response c = Some r0" "m_rcode r0 \<in> {NoError, NXDomain}"
  shows "(\<forall>p \<in> set (c_rewrites c). alias_present L (m_answers r) p) \<and> suffix (m_answers r0) (m_answers r)
    \<and> m_rcode r = m_rcode r0 \<and> (c_rewrites c \<noteq> [] \<longrightarrow> \<not> m_ad r)"
proof (cases "c_rewrites c = []")
  case True
  with r r0 show ?thesis by (auto simp: response_for_query_def Let_def rebind_response_def)
next
  case False
  let ?b = "rebind_response r0 q"
  have b: "m_answers ?b = m_answers r0" "m_rcode ?b = m_rcode r0" by (simp_all add: rebind_response_def)
  have an: "m_answers r = map (alias_record q (min_ttl ?b))
      (filter (\<lambda>p. \<not> alias_present L (m_answers ?b) p) (c_rewrites c)) @ m_answers ?b"
    "m_rcode r = m_rcode r0" "\<not> m_ad r"
    using r r0 False b by (auto simp: response_for_query_def Let_def)
  have "alias_present L (m_answers r) p" if "p \<in> set (c_rewrites c)" for p
  proof (cases "alias_present L (m_answers ?b) p")
    case True
    then show ?thesis by (simp add: an(1) alias_present_def)
  next
    case False
    then show ?thesis
      using that alias_present_own [OF refl, of p "filter (\<lambda>p. \<not> alias_present L (m_answers ?b) p) (c_rewrites c)"]
      by (simp add: an(1) alias_present_def)
  qed
  then show ?thesis using an b by (auto simp: suffix_def)
qed

text \<open>
  C14. When the pipeline rewrote the name, the rewrites lead from the name the client asked for to
  the name that was resolved, and a reply that is an answer or a denial contains a CNAME record
  for every one of them and is not marked as authenticated.
\<close>
theorem reply_has_alias_chain:
  assumes refl: "\<And>n. nm_eq (en_lib env) n n"
    and h: "handle env entry (ctx_new i now q cl pr) timeout w = (Inr (Inr ()), c', w')"
    and r: "c_response c' = Some r" "m_rcode r = NoError \<or> m_rcode r = NXDomain"
    and q: "m_queries q = q0 # qs"
  shows "\<exists>q1. m_queries (c_query c') = q1 # qs \<and> alias_path (q_name q0) (c_rewrites c') (q_name q1)
    \<and> q_type q1 = q_type q0 \<and> list_all (alias_present (en_lib env) (m_answers r)) (c_rewrites c')
    \<and> (c_rewrites c' \<noteq> [] \<longrightarrow> \<not> m_ad r)"
proof -
  from h r(1) obtain c1 w1 where c1: "ctx_ok c1" "c_original c1 = q"
    "handle_finish env c1 w1 = (Inr (Inr ()), c', w')"
    by (auto elim: handle_cases)
  note fin = handle_finish_response [OF c1(3)]
  from r(1) fin(1) c1(2) obtain r1 where
    r1: "response_for_query (en_lib env) q 0 c1 = Some r1" "r = (if c_strip c1 then remove_ecs r1 else r1)"
    by (auto split: if_splits)
  then obtain r0 where r0: "c_response c1 = Some r0"
    by (auto simp: response_for_query_def split: option.splits)
  have "m_rcode r1 = m_rcode r0"
    using r1(1) r0 by (auto simp: response_for_query_def Let_def rebind_response_def split: if_splits)
  with r(2) r1(2) have rc: "m_rcode r0 \<in> {NoError, NXDomain}" by (auto split: if_splits)
  from response_aliases [OF refl r1(1) r0 rc] r1(2)
  have a: "list_all (alias_present (en_lib env) (m_answers r)) (c_rewrites c1)"
    "c_rewrites c1 \<noteq> [] \<longrightarrow> \<not> m_ad r"
    by (auto simp: list_all_iff)
  have "questions_ok (q0 # qs) (m_queries (c_query c1)) (c_rewrites c1)"
    using c1(1,2) q by (simp add: ctx_ok_def)
  then obtain q1 where "m_queries (c_query c1) = q1 # qs" "q_type q1 = q_type q0"
    "alias_path (q_name q0) (c_rewrites c1) (q_name q1)"
    by (auto simp: questions_ok_def split: list.splits)
  with a fin(2,3) show ?thesis by simp
qed

section \<open>Requests end\<close>

lemma handle_ends:
  assumes "build L pf cfg = Inr rt" "en_reg env = rt_registry rt"
    and "calm env T" "safe_world env T w" "w_now w + timeout \<le> T"
  shows "\<exists>r c' w'. handle env entry c timeout w = (Inr r, c', w')
    \<and> (get_exec entry (en_reg env) \<noteq> Inl (UnknownTag entry) \<longrightarrow> r = Inr ()) \<and> safe_world env T w'"
proof -
  have fin: "\<exists>c' w'. handle_finish env c1 w1 = (Inr (Inr ()), c', w') \<and> safe_world env T w'"
    if "safe_world env T w1" for c1 w1
    using that by (simp add: handle_finish_def Let_def)
  show ?thesis
  proof (cases "classify_incoming (c_query c)")
    case Drop
    with assms(4) show ?thesis by (simp add: handle_def)
  next
    case ReplyNotImp
    with fin [OF assms(4), of "reject NotImp c"] show ?thesis by (auto simp: handle_def)
  next
    case Process
    let ?s = "begin_pipeline entry c"
    obtain r c1 w1 where ex: "exec_tag call_depth env (w_now w + timeout) entry ?s w = (r, c1, w1)"
      by (metis prod.exhaust)
    have "depth_le (en_reg env) call_depth entry"
      using build_depth_any [OF assms(1)] assms(2) by simp
    then have "r \<noteq> Inl Overflow"
      using deep_pipeline.call_deep [of env call_depth entry "w_now w + timeout" ?s w] ex by simp
    moreover have "r \<noteq> Inl Crash" "safe_world env T w1"
      using safe_pipeline.call_safe' [OF assms(3,5,4) ex] by auto
    ultimately show ?thesis
      using Process ex fin [of w1 c1] fin [of w1 "reject ServFail c1"] assms(4)
      by (cases r rule: sum.exhaust; cases "projl r"; cases "projr r")
        (auto simp: handle_def Let_def get_exec_def ok_or_def split: option.splits)
  qed
qed

text \<open>
  C4. On a runtime that was built, a request neither exhausts the call stack nor panics, whatever
  the plugins, the network and the other requests do, and ends in a result; the caches keep their
  invariant. The instants of the request and of the caches must be representable.
\<close>
theorem handle_total:
  assumes "build L pf cfg = Inr rt" "en_reg env = rt_registry rt"
    and "calm env T" "safe_world env T w" "w_now w + timeout \<le> T"
  shows "\<exists>r c' w'. handle env entry c timeout w = (Inr r, c', w')
    \<and> (get_exec entry (en_reg env) \<noteq> Inl (UnknownTag entry) \<longrightarrow> r = Inr ()) \<and> safe_world env T w'"
  by (rule handle_ends [OF assms])

lemma res_map_member: "res_map f xs = Inr ys \<Longrightarrow> x \<in> set xs \<Longrightarrow> \<exists>y. f x = Inr y"
  by (induction xs arbitrary: ys) auto

lemma build_servers:
  assumes "build L pf cfg = Inr rt" "s \<in> set (cf_servers (rt_config rt))"
  shows "\<exists>p. get_exec (sv_exec s) (rt_registry rt) = Inr p"
proof -
  obtain cfg1 st where r: "build_registry L cfg1 st = Inr rt"
    using assms(1) by (auto simp: build_def)
  then obtain ss where "res_map (\<lambda>s. get_exec (sv_exec s) (rt_registry rt)) (cf_servers (rt_config rt)) = Inr ss"
    by (auto simp: build_registry_def Let_def)
  from res_map_member [OF this assms(2)] show ?thesis .
qed

text \<open>
  Once a runtime was built, every request to a configured server is taken to its end: the entry
  resolves, the pipeline ends, and what it leaves is the outcome of the request.
\<close>
theorem configured_entry_served:
  assumes "build L pf cfg = Inr rt" "en_reg env = rt_registry rt" "s \<in> set (cf_servers (rt_config rt))"
    and "calm env T" "safe_world env T w" "w_now w + timeout \<le> T"
  shows "\<exists>c' w'. handle env (sv_exec s) c timeout w = (Inr (Inr ()), c', w') \<and> safe_world env T w'"
proof -
  have "get_exec (sv_exec s) (en_reg env) \<noteq> Inl (UnknownTag (sv_exec s))"
    using build_servers [OF assms(1,3)] assms(2) by auto
  with handle_ends [OF assms(1,2,4,5,6), of "sv_exec s" c] show ?thesis by blast
qed

text \<open>
  C25. A request whose pipeline does not finish within the timeout is answered all the same: with
  SERVFAIL, bound to the client's question.
\<close>
theorem timeout_servfail:
  assumes "classify_incoming q = Process" "get_exec entry (en_reg env) = Inr p"
    and "exec_tag call_depth env (w_now w + timeout) entry (start_ctx i now q cl pr entry) w
           = (Inl Cancelled, c1, w1)"
    and "handle env entry (ctx_new i now q cl pr) timeout w = (x, c', w')"
  shows "x = Inr (Inr ()) \<and> (\<exists>r. c_response c' = Some r \<and> m_rcode r = ServFail \<and> m_id r = m_id q
    \<and> m_queries r = m_queries q)"
proof -
  have ev: "evolves (start_ctx i now q cl pr entry) c1"
    using assms(3) by (rule pipeline.evolves_call)
  have o: "c_original c1 = q" using evolves_original [OF ev] by simp
  have f: "handle_finish env (reject ServFail c1) w1 = (x, c', w')"
    using assms by (simp add: handle_def Let_def)
  have "c_original (reject ServFail c1) = q" using o by (simp add: reject_def set_response_def)
  moreover have "c_response (reject ServFail c1) =
      Some ((reply_skeleton (c_query c1) ServFail)\<lparr>m_id := m_id (c_query c1), m_type := MtResponse\<rparr>)"
    by (simp add: reject_def set_response_def make_response_def)
  ultimately have "\<exists>r. response_for_query (en_lib env) (c_original (reject ServFail c1)) 0 (reject ServFail c1)
      = Some r \<and> m_rcode r = ServFail \<and> m_id r = m_id q \<and> m_queries r = m_queries q"
    by (simp add: response_for_query_def Let_def rebind_response_def reply_skeleton_def)
  moreover have "x = Inr (Inr ())" using f by (auto simp: handle_finish_def Let_def)
  ultimately show ?thesis using handle_finish_response(1) [OF f] by auto
qed

section \<open>Background refresh\<close>

text \<open>
  C24. A refresh restarts the client's request: however far the pipeline has come, and whatever it
  did to the name, the marks and the subnet, the context of the background job is the one the
  request entered the pipeline with, except that it skips the caches.
\<close>
theorem refresh_restarts_request:
  assumes "evolves (start_ctx i now q cl pr entry) c"
  shows "clone_for_lazy j t c = (start_ctx j t q cl pr entry)\<lparr>c_skip_cache := True\<rparr>"
proof -
  from assms have f: "c_client c = cl" "c_proto c = pr" "c_original c = q"
    "c_entry_state c = Some \<lparr>es_query = q, es_marks = {}, es_strip = False\<rparr>"
    "c_pipeline_entry c = Some entry"
    by (simp_all add: evolves_def same_request_def begin_pipeline_def ctx_new_def)
  show ?thesis
    by (simp add: clone_for_lazy_def f) (simp add: begin_pipeline_def ctx_new_def)
qed

section \<open>The size of a datagram\<close>

text \<open>
  The limit \<open>udp_loop\<close> uses is that of the query after the pipeline, not of the client's
  message: when the \<open>ecs\<close> plugin attaches a subnet to a query without EDNS, replies of up to 1232
  bytes are sent to a client that accepts 512.
\<close>
theorem udp_limit_after_ecs:
  assumes "m_edns (c_query c) = None" "ecs_pick p c = Some x"
  shows "udp_payload_max (c_query (ecs_exec L now p c)) = 1232 \<and> udp_payload_max (c_query c) = 512"
proof -
  have "ecs_of (c_query c) = None" using assms(1) by (simp add: ecs_of_def)
  with assms show ?thesis
    by (simp add: ecs_exec_def Let_def case_prod_beta udp_payload_max_def set_ecs_def
        opt_insert_def opt_remove_def edns_new_def)
qed

end
