(* ===== verification/Exchange_Laws.thy ===== *)
theory Exchange_Laws
  imports Exchange
begin

text \<open>
  What an exchange with an upstream guarantees on every network: a reply that answers the query, and
  an end within the time limit.
\<close>

section \<open>What a computation returns\<close>

definition io_post :: "('h, 'w, 'a) io \<Rightarrow> ('a \<Rightarrow> bool) \<Rightarrow> bool" where
  \<comment> \<open>every successful result satisfies the predicate\<close>
  "io_post m Q \<longleftrightarrow> (\<forall>dl now s x t s'. m dl now s = (Done (Inr x), t, s') \<longrightarrow> Q x)"

lemma io_postI:
  "(\<And>dl now s x t s'. m dl now s = (Done (Inr x), t, s') \<Longrightarrow> Q x) \<Longrightarrow> io_post m Q"
  unfolding io_post_def by blast

lemma io_postD: "io_post m Q \<Longrightarrow> m dl now s = (Done (Inr x), t, s') \<Longrightarrow> Q x"
  unfolding io_post_def by blast

lemma io_post_res [simp]: "io_post (io_res r) Q \<longleftrightarrow> (\<forall>x. r = Inr x \<longrightarrow> Q x)"
  by (auto simp: io_post_def io_res_def)

lemma io_bind_Done:
  "io_bind m f dl now s = (Done (Inr y), t, s') \<longleftrightarrow>
     (\<exists>x t1 s1. m dl now s = (Done (Inr x), t1, s1) \<and> f x dl t1 s1 = (Done (Inr y), t, s'))"
  by (auto simp: io_bind_def split: prod.splits outcome.splits sum.splits)

lemma io_post_bind: "(\<And>x. io_post (f x) Q) \<Longrightarrow> io_post (io_bind m f) Q"
  by (rule io_postI) (auto simp: io_bind_Done dest: io_postD)

lemma io_post_bind_post:
  "io_post m P \<Longrightarrow> (\<And>x. P x \<Longrightarrow> io_post (f x) Q) \<Longrightarrow> io_post (io_bind m f) Q"
  by (rule io_postI) (auto simp: io_bind_Done dest: io_postD)

lemma io_map_err_Done:
  "io_map_err g m dl now s = (Done (Inr x), t, s') \<longleftrightarrow> m dl now s = (Done (Inr x), t, s')"
  by (auto simp: io_map_err_def split: prod.splits outcome.splits sum.splits)

lemma io_post_map_err [simp]: "io_post (io_map_err g m) Q = io_post m Q"
  by (simp add: io_post_def io_map_err_Done)

lemma io_attempt_Done:
  "io_attempt m dl now s = (Done (Inr r), t, s') \<longleftrightarrow> m dl now s = (Done r, t, s')"
  by (auto simp: io_attempt_def split: prod.splits outcome.splits)

lemma io_post_attempt: "io_post m Q \<Longrightarrow> io_post (io_attempt m) (\<lambda>r. \<forall>x. r = Inr x \<longrightarrow> Q x)"
  by (rule io_postI) (auto simp: io_attempt_Done dest: io_postD)

lemma io_timeout_Some:
  "io_timeout l m dl now s = (Done (Inr (Some x)), t, s') \<longleftrightarrow>
     m (min dl (now + l)) now s = (Done (Inr x), t, s')"
  by (auto simp: io_timeout_def split: prod.splits outcome.splits sum.splits)

lemma io_post_timeout: "io_post m Q \<Longrightarrow> io_post (io_timeout l m) (\<lambda>r. \<forall>x. r = Some x \<longrightarrow> Q x)"
  by (rule io_postI) (auto simp: io_timeout_Some dest: io_postD)

section \<open>Replies match the query\<close>

definition answers_query :: "'n lib \<Rightarrow> 'n message \<Rightarrow> 'n message \<Rightarrow> bool" where
  "answers_query L q r \<longleftrightarrow> m_type r = MtResponse \<and> m_id r = m_id q \<and> m_opcode r = m_opcode q
     \<and> queries_eq L (m_queries r) (m_queries q)"

lemma framed_exchange_post: "io_post (framed_exchange L N h q) (answers_query L q)"
  unfolding framed_exchange_def
  by (intro io_post_bind) (auto simp: take_response_Inr_iff answers_query_def)

lemma exchange_pooled_post: "io_post (exchange_pooled L N fresh q) (answers_query L q)"
proof -
  note f = framed_exchange_post [of L N _ q]
  have r: "io_post (reuse_stream L N h q) (\<lambda>x. \<forall>m. x = Some m \<longrightarrow> answers_query L q m)" for h
    unfolding reuse_stream_def
    by (rule io_post_bind_post [OF io_post_attempt [OF f]])
      (auto split: sum.split intro: io_post_bind)
  have new: "io_post (io_bind fresh (\<lambda>h. io_bind (framed_exchange L N h q) (\<lambda>msg.
      io_bind (io_pool_put h) (\<lambda>_. io_ret msg)))) (answers_query L q)"
    by (intro io_post_bind io_post_bind_post [OF f]) simp
  show ?thesis
    unfolding exchange_pooled_def
  proof (rule io_post_bind)
    fix x
    have "io_post (case x of None \<Rightarrow> io_ret None | Some h \<Rightarrow> reuse_stream L N h q)
        (\<lambda>x. \<forall>m. x = Some m \<longrightarrow> answers_query L q m)"
      by (cases x) (simp_all add: r)
    then show "io_post (io_bind (case x of None \<Rightarrow> io_ret None | Some h \<Rightarrow> reuse_stream L N h q) (\<lambda>r.
        case r of Some msg \<Rightarrow> io_ret msg | None \<Rightarrow> io_bind fresh (\<lambda>h.
        io_bind (framed_exchange L N h q) (\<lambda>msg. io_bind (io_pool_put h) (\<lambda>_. io_ret msg)))))
        (answers_query L q)"
      by (rule io_post_bind_post) (auto simp: new split: option.split)
  qed
qed

lemma udp_accept_post:
  assumes "answers_query L q r"
  shows "io_post (udp_accept L N dest q r) (\<lambda>x. answers_query L q x \<and> \<not> m_tc x)"
  using assms unfolding udp_accept_def
  by (auto intro!: io_post_bind io_post_bind_post [OF framed_exchange_post])

lemma udp_recv_loop_post:
  "io_post (udp_recv_loop L N sock dest q n) (\<lambda>x. answers_query L q x \<and> \<not> m_tc x)"
proof (induction n)
  case 0
  then show ?case by simp
next
  case (Suc n)
  have "io_post (udp_accept L N dest q r) (\<lambda>x. answers_query L q x \<and> \<not> m_tc x)"
    if "take_response L q r0 = Inr r" for r0 r
    using that by (intro udp_accept_post) (auto simp: take_response_Inr_iff answers_query_def)
  with Suc show ?case
    by (auto intro!: io_post_bind split: sum.split)
qed

lemma udp_exchange_addr_post:
  "io_post (udp_exchange_addr L N dest q) (\<lambda>x. answers_query L q x \<and> \<not> m_tc x)"
  unfolding udp_exchange_addr_def by (intro io_post_bind udp_recv_loop_post)

lemma doh_exchange_post: "io_post (doh_exchange L N url q) (answers_query L q)"
  unfolding doh_exchange_def
  by (auto intro!: io_post_bind simp: take_response_Inr_iff answers_query_def)

lemma exchange_inner_post:
  "io_post (exchange_inner L N up q limit) (\<lambda>x. answers_query L q x
     \<and> ((\<exists>target. up_kind up = KUdp target) \<longrightarrow> \<not> m_tc x))"
proof -
  note pooled = exchange_pooled_post [of L N _ q]
  show ?thesis
    unfolding exchange_inner_def Let_def
    by (cases "up_kind up")
      (auto intro!: io_post_bind simp: tcp_exchange_pooled_def tls_exchange_pooled_def
        intro: pooled doh_exchange_post udp_exchange_addr_post)
qed

lemma upstream_exchange_post:
  "io_post (upstream_exchange L N up q limit) (\<lambda>x. answers_query L q x
     \<and> ((\<exists>target. up_kind up = KUdp target) \<longrightarrow> \<not> m_tc x))"
  unfolding upstream_exchange_def
  by (rule io_post_bind_post [OF io_post_timeout [OF exchange_inner_post]])
    (auto split: option.split)

text \<open>
  C9. A message an upstream exchange returns answers the query it was given: a response with its
  identifier, its opcode and its question, whatever the network sends; and a reply over UDP is
  never a truncated one.
\<close>
theorem exchange_reply_matches:
  assumes "upstream_exchange L N up q limit dl now s = (Done (Inr r), t, s')"
  shows "m_type r = MtResponse \<and> m_id r = m_id q \<and> m_opcode r = m_opcode q
    \<and> queries_eq L (m_queries r) (m_queries q)
    \<and> ((\<exists>target. up_kind up = KUdp target) \<longrightarrow> \<not> m_tc r)"
  using io_postD [OF upstream_exchange_post assms] by (simp add: answers_query_def)

section \<open>An exchange ends in time\<close>

named_theorems timely

definition io_timely :: "('h, 'w, 'a) io \<Rightarrow> bool" where
  \<comment> \<open>it ends by the deadline, and a cancelled computation at the deadline\<close>
  "io_timely m \<longleftrightarrow> (\<forall>dl now s x t s'. m dl now s = (x, t, s') \<longrightarrow> now \<le> dl \<longrightarrow>
     now \<le> t \<and> t \<le> dl \<and> (x = Late \<longrightarrow> t = dl))"

lemma io_timelyI:
  "(\<And>dl now s x t s'. m dl now s = (x, t, s') \<Longrightarrow> now \<le> dl \<Longrightarrow>
     now \<le> t \<and> t \<le> dl \<and> (x = Late \<longrightarrow> t = dl)) \<Longrightarrow> io_timely m"
  unfolding io_timely_def by blast

lemma io_timelyD:
  "io_timely m \<Longrightarrow> m dl now s = (x, t, s') \<Longrightarrow> now \<le> dl \<Longrightarrow>
     now \<le> t \<and> t \<le> dl \<and> (x = Late \<longrightarrow> t = dl)"
  unfolding io_timely_def by blast

lemma timely_basic [timely]:
  "io_timely (io_res r)" "io_timely (io_await N f)" "io_timely (io_random N)"
  "io_timely io_pool_take" "io_timely (io_pool_put h)" "io_timely (cache_get host)"
  "io_timely (cache_set host addrs)" "io_timely (get_or_init d)" "io_timely (expect_pool what)"
  "io_timely (expect_part b what)"
  by (auto intro!: io_timelyI simp: io_res_def io_await_def io_random_def io_pool_take_def
      io_pool_put_def cache_get_def cache_set_def get_or_init_def expect_pool_def expect_part_def
      Let_def split: prod.splits option.splits if_splits)

lemma timely_bind [timely]:
  assumes "io_timely m" "\<And>x. io_timely (f x)"
  shows "io_timely (io_bind m f)"
proof (rule io_timelyI)
  fix dl now s x t s'
  assume b: "io_bind m f dl now s = (x, t, s')" "now \<le> dl"
  obtain y u s1 where m: "m dl now s = (y, u, s1)" by (cases "m dl now s")
  note d = io_timelyD [OF assms(1) m b(2)]
  show "now \<le> t \<and> t \<le> dl \<and> (x = Late \<longrightarrow> t = dl)"
  proof (cases "\<exists>v. y = Done (Inr v)")
    case True
    then obtain v where "f v dl u s1 = (x, t, s')"
      using b(1) m by (auto simp: io_bind_def)
    from io_timelyD [OF assms(2) this] d show ?thesis by auto
  next
    case False
    then have "t = u" "x = Late \<longleftrightarrow> y = Late"
      using b(1) m by (auto simp: io_bind_def split: outcome.splits sum.splits)
    with d show ?thesis by simp
  qed
qed

lemma timely_map_err [timely]: "io_timely m \<Longrightarrow> io_timely (io_map_err g m)"
  by (rule io_timelyI)
    (auto simp: io_map_err_def dest: io_timelyD split: prod.splits outcome.splits sum.splits)

lemma timely_attempt [timely]: "io_timely m \<Longrightarrow> io_timely (io_attempt m)"
  by (rule io_timelyI) (auto simp: io_attempt_def dest: io_timelyD split: prod.splits outcome.splits)

lemma timely_timeout [timely]:
  assumes "io_timely m"
  shows "io_timely (io_timeout l m)"
proof (rule io_timelyI)
  fix dl now s x t s'
  assume b: "io_timeout l m dl now s = (x, t, s')" "now \<le> dl"
  obtain y u s1 where m: "m (min dl (now + l)) now s = (y, u, s1)" by (cases "m (min dl (now + l)) now s")
  from io_timelyD [OF assms m] b show "now \<le> t \<and> t \<le> dl \<and> (x = Late \<longrightarrow> t = dl)"
    by (auto simp: io_timeout_def m split: outcome.splits sum.splits if_splits)
qed

lemma timely_cases [timely]:
  "(\<And>x. r = Inr x \<Longrightarrow> io_timely (f x)) \<Longrightarrow> (\<And>e. r = Inl e \<Longrightarrow> io_timely (g e))
    \<Longrightarrow> io_timely (case r of Inl e \<Rightarrow> g e | Inr x \<Rightarrow> f x)"
  "(\<And>x. z = Some x \<Longrightarrow> io_timely (h x)) \<Longrightarrow> io_timely k \<Longrightarrow> io_timely (case z of None \<Rightarrow> k | Some x \<Rightarrow> h x)"
  "io_timely a \<Longrightarrow> io_timely b \<Longrightarrow> io_timely (if c then a else b)"
  "(\<And>x y. io_timely (j x y)) \<Longrightarrow> io_timely (case p of (x, y) \<Rightarrow> j x y)"
  by (auto split: sum.split option.split prod.split)

lemma timely_framed [timely]: "io_timely (framed_exchange L N h q)"
  unfolding framed_exchange_def write_framed_def read_framed_def Let_def by (intro timely)

lemma timely_fresh [timely]: "io_timely (tcp_fresh N dest)" "io_timely (tls_fresh N dest sni)"
  unfolding tls_fresh_def tcp_fresh_def by (intro timely)+

lemma timely_pooled [timely]: "io_timely fresh \<Longrightarrow> io_timely (exchange_pooled L N fresh q)"
  unfolding exchange_pooled_def reuse_stream_def by (intro timely)

lemma timely_udp_loop [timely]: "io_timely (udp_recv_loop L N sock dest q n)"
  by (induction n) (auto simp: udp_accept_def intro!: timely)

lemma timely_udp [timely]: "io_timely (udp_exchange_addr L N dest q)"
  unfolding udp_exchange_addr_def by (intro timely)

lemma timely_lookup [timely]: "io_timely (bootstrap_lookup L N boot host budget qt)"
  unfolding bootstrap_lookup_def bootstrap_query_def Let_def by (intro timely)

lemma timely_bootstrap [timely]: "io_timely (bootstrap_ips L N boot host budget)"
proof (rule io_timelyI)
  fix dl now s x t s'
  assume b: "bootstrap_ips L N boot host budget dl now s = (x, t, s')" "now \<le> dl"
  show "now \<le> t \<and> t \<le> dl \<and> (x = Late \<longrightarrow> t = dl)"
  proof (cases "bootstrap_socket boot")
    case (Inl e)
    with b show ?thesis by (auto simp: bootstrap_ips_def)
  next
    case (Inr a)
    let ?l = "bootstrap_lookup L N a (trim_end_matches CHR ''.'' host) budget"
    obtain xa ta sa where la: "?l RtA dl now s = (xa, ta, sa)" by (cases "?l RtA dl now s")
    obtain xb tb sb where lb: "?l RtAAAA dl now sa = (xb, tb, sb)" by (cases "?l RtAAAA dl now sa")
    note d = io_timelyD [OF timely_lookup la b(2)] io_timelyD [OF timely_lookup lb b(2)]
    from b(1) d show ?thesis
      by (auto simp: bootstrap_ips_def Inr la lb Let_def split: outcome.splits sum.splits)
  qed
qed

lemma timely_dest [timely]:
  "io_timely (resolve_spec L N sp target budget)" "io_timely (resolve_host L N r host budget)"
  unfolding resolve_spec_def resolve_host_def resolve_target_def Let_def by (intro timely)+

lemma timely_cached_dest [timely]: "io_timely (cached_dest L N sp target budget)"
proof -
  have b: "io_timely (io_bind (resolve_spec L N sp target budget) get_or_init)" by (intro timely)
  show ?thesis
    by (rule io_timelyI) (auto simp: cached_dest_def dest: io_timelyD [OF b] split: option.splits)
qed

lemma timely_inner [timely]: "io_timely (exchange_inner L N up q limit)"
  unfolding exchange_inner_def Let_def doh_exchange_def tcp_exchange_pooled_def tls_exchange_pooled_def
  by (cases "up_kind up") (auto intro!: timely)

lemma upstream_exchange_ends:
  assumes "now + limit \<le> dl"
  shows "\<exists>r t s'. upstream_exchange L N up q limit dl now s = (Done r, t, s') \<and> now \<le> t \<and> t \<le> now + limit"
proof -
  let ?m = "exchange_inner L N up q limit"
  obtain x t s' where m: "?m (now + limit) now s = (x, t, s')"
    by (cases "?m (now + limit) now s")
  from io_timelyD [OF timely_inner m] have "now \<le> t \<and> t \<le> now + limit" by simp
  moreover have "min dl (now + limit) = now + limit" using assms by simp
  ultimately show ?thesis
    using assms
    by (cases x) (auto simp: upstream_exchange_def io_bind_def io_timeout_def io_res_def m split: sum.split)
qed

text \<open>
  C15. An exchange always comes back within its time limit, whatever the network does and however
  long bootstrap lookups, connections and replies take: with a reply or an error by then.
\<close>
theorem exchange_in_time:
  assumes "now + limit \<le> dl"
  shows "\<exists>r t s'. upstream_exchange L N up q limit dl now s = (Done r, t, s') \<and> now \<le> t \<and> t \<le> now + limit"
  by (rule upstream_exchange_ends [OF assms])

end
