(* ===== verification/Network.thy ===== *)
theory Network
  imports Server_Laws Exchange_Laws
begin

text \<open>
  The \<open>forward\<close> plugin with the exchanges of \<^verbatim>\<open>src/upstream.rs\<close> (\<open>forward.rs\<close> calls
  \<open>Upstream::exchange\<close> for each upstream it races), and what that means for the answers of the
  whole program: a reply is made of a message that answered the client's question, or one of the
  questions the pipeline turned it into.

  The state an upstream is in when an exchange starts is arbitrary (\<open>ustates\<close>), since other
  requests share its pool and its destination.
\<close>

section \<open>The exchanges of an environment\<close>

type_synonym ('h, 'w) ustates = "nat \<Rightarrow> string \<Rightarrow> nat \<Rightarrow> ('h, 'w) ustate"

definition forward_limit :: "forward \<Rightarrow> nat" where
  "forward_limit f = fw_timeout_ms f * 1000000"

definition upstream_outcome ::
    "'n lib \<Rightarrow> ('h, 'w) netops \<Rightarrow> ('h, 'w) ustate \<Rightarrow> upstream \<Rightarrow> nat \<Rightarrow> instant \<Rightarrow> 'n message
      \<Rightarrow> instant \<times> 'n message res" where
  \<comment> \<open>\<open>exchange\<close> without a deadline of the caller, who is cancelled from outside\<close>
  "upstream_outcome L N s up limit now q =
     (case upstream_exchange L N up q limit (now + limit) now s of
        (Done r, t, _) \<Rightarrow> (t, r)
      | (Late, t, _) \<Rightarrow> (t, Inl (UpstreamErr (us_addr (up_spec up)) ''timeout'')))"

definition net_exchange ::
    "'n lib \<Rightarrow> 'n registry \<Rightarrow> ('h, 'w) netops \<Rightarrow> ('h, 'w) ustates
      \<Rightarrow> nat \<Rightarrow> instant \<Rightarrow> string \<Rightarrow> 'n message \<Rightarrow> 'n exchange" where
  "net_exchange L reg N st tick now tag q i =
     (case get_exec tag reg of
        Inr (PlForward f) \<Rightarrow>
          upstream_outcome L N (st tick tag i) (fw_upstreams f ! i) (forward_limit f) now q
      | _ \<Rightarrow> (now, Inl (UnknownTag tag)))"

definition networked :: "'n env \<Rightarrow> ('h, 'w) netops \<Rightarrow> ('h, 'w) ustates \<Rightarrow> bool" where
  "networked env N st \<longleftrightarrow> en_exchange env = net_exchange (en_lib env) (en_reg env) N st"

lemma upstream_outcome_cases:
  obtains t r where "upstream_outcome L N s up limit now q = (t, r)" "now \<le> t" "t \<le> now + limit"
    "\<And>m. r = Inr m \<Longrightarrow> answers_query L q m"
proof -
  obtain r t s' where x: "upstream_exchange L N up q limit (now + limit) now s = (Done r, t, s')"
    "now \<le> t" "t \<le> now + limit"
    using upstream_exchange_ends [of now limit "now + limit" L N up q s] by blast
  moreover have "answers_query L q m" if "r = Inr m" for m
    using io_postD [OF upstream_exchange_post x(1) [unfolded that]] by simp
  ultimately show thesis using that by (simp add: upstream_outcome_def)
qed

section \<open>What a forward step leaves\<close>

lemma push_trace_frame [simp]:
  "c_original (push_trace now p e d c) = c_original c" "c_rewrites (push_trace now p e d c) = c_rewrites c"
  "c_strip (push_trace now p e d c) = c_strip c"
  by (simp_all add: push_trace_def)

lemma set_response_frame [simp]:
  "c_original (set_response m c) = c_original c" "c_rewrites (set_response m c) = c_rewrites c"
  "c_query (set_response m c) = c_query c" "c_strip (set_response m c) = c_strip c"
  by (simp_all add: set_response_def)

definition same_question :: "'n ctx \<Rightarrow> 'n ctx \<Rightarrow> bool" where
  "same_question c c' \<longleftrightarrow> c_original c' = c_original c \<and> c_rewrites c' = c_rewrites c
     \<and> c_query c' = c_query c \<and> c_strip c' = c_strip c"

lemma same_question_race: "same_question c (fr_ctx (race_loop p d le lu xs now c mx))"
  by (induction p d le lu xs now c mx rule: race_loop.induct)
    (auto simp: same_question_def Let_def split: sum.splits option.splits)

lemma same_question_forward: "same_question c (fr_ctx (forward_exec p d now ans c mx))"
proof (cases "race_width p = 1")
  case True
  then show ?thesis
    by (auto simp: forward_exec_def forward_single_def same_question_def Let_def split: prod.split sum.split)
next
  case False
  then show ?thesis by (simp add: forward_exec_def same_question_race)
qed

lemma race_winner_mem:
  "race_winner d lu xs = Some w \<Longrightarrow>
     (case w of Some m \<Rightarrow> lu = Some m \<or> (\<exists>i t. (i, t, Inr m) \<in> set xs)
      | None \<Rightarrow> lu = None \<and> (\<forall>i t r. (i, t, r) \<in> set xs \<longrightarrow> (\<exists>e. r = Inl e)))"
proof (induction xs arbitrary: lu)
  case Nil
  then show ?case by (auto split: option.split)
next
  case (Cons x xs)
  obtain i t r where x: "x = (i, t, r)" by (cases x)
  show ?case
  proof (cases r)
    case (Inl e)
    with Cons.prems x have "race_winner d lu xs = Some w"
      by (auto simp: usable_arrival_def unusable_arrival_def split: if_splits)
    from Cons.IH [OF this] x Inl show ?thesis by (fastforce split: option.splits)
  next
    case (Inr m)
    show ?thesis
    proof (cases "is_usable_response m")
      case True
      with Cons.prems x Inr have "w = Some m" by (auto simp: usable_arrival_def split: if_splits)
      with x Inr show ?thesis by fastforce
    next
      case False
      with Cons.prems x Inr have "race_winner d (Some m) xs = Some w"
        by (auto simp: usable_arrival_def unusable_arrival_def split: if_splits)
      from Cons.IH [OF this] x Inr show ?thesis by (fastforce split: option.splits)
    qed
  qed
qed

lemma race_winner_in_time:
  "\<forall>x \<in> set xs. fst (snd x) \<le> d \<Longrightarrow> race_winner d lu xs \<noteq> None"
  by (induction xs arbitrary: lu) (auto split: option.split)

lemma set_arrivals_iff: "(i, t, r) \<in> set (arrivals n ans) \<longleftrightarrow> i < n \<and> ans i = (t, r)"
  by (auto simp: arrivals_def)

definition took_reply :: "nat \<Rightarrow> 'n exchange \<Rightarrow> 'n ctx \<Rightarrow> 'n ctx \<Rightarrow> bool" where
  \<comment> \<open>the response is that of one of the upstreams, or was there before and none of them replied\<close>
  "took_reply n ans c c' \<longleftrightarrow>
     c_response c' = c_response c \<and> (\<forall>i < n. \<exists>e. snd (ans i) = Inl e)
     \<or> (\<exists>i < n. \<exists>t m. ans i = (t, Inr m)
          \<and> c_response c' = Some (m\<lparr>m_id := m_id (c_query c), m_type := MtResponse\<rparr>))"

lemma forward_cases:
  "(let r = forward_exec p d now ans c mx in
     fr_cancelled r \<and> fr_ctx r = c \<or> \<not> fr_cancelled r \<and> took_reply (race_width p) ans c (fr_ctx r))"
proof (cases "race_width p = 1")
  case True
  obtain t r where a: "ans 0 = (t, r)" by (cases "ans 0")
  have "took_reply 1 ans c c'" if "r = Inr m"
    "c_response c' = Some (m\<lparr>m_id := m_id (c_query c), m_type := MtResponse\<rparr>)" for m c'
    using that a by (auto simp: took_reply_def)
  with True a show ?thesis
    by (auto simp: forward_exec_def forward_single_def Let_def set_response_def took_reply_def split: sum.split)
next
  case False
  let ?xs = "arrivals (race_width p) ans" and ?r = "forward_exec p d now ans c mx"
  have r: "race_result c (race_winner d None ?xs) ?r"
    using False race_loop_winner [of c d None ?xs p None now mx] by (simp add: forward_exec_def)
  show ?thesis
  proof (cases "race_winner d None ?xs")
    case None
    with r show ?thesis by (simp add: race_result_def Let_def)
  next
    case (Some w)
    have "took_reply (race_width p) ans c (fr_ctx ?r)"
    proof (cases w)
      case None
      with race_winner_mem [OF Some] have "\<forall>i < race_width p. \<exists>e. snd (ans i) = Inl e"
        by (simp add: set_arrivals_iff) (metis prod.collapse)
      with r Some None show ?thesis by (simp add: took_reply_def race_result_def response_from_def)
    next
      case (Some m)
      with race_winner_mem [OF \<open>race_winner d None ?xs = Some w\<close>] r \<open>race_winner d None ?xs = Some w\<close>
      show ?thesis by (auto simp: took_reply_def race_result_def response_from_def set_arrivals_iff)
    qed
    with r Some show ?thesis by (simp add: race_result_def Let_def)
  qed
qed

lemma race_loop_within:
  "\<forall>x \<in> set xs. fst (snd x) \<le> u \<Longrightarrow> now \<le> u \<Longrightarrow> u \<le> d \<Longrightarrow>
     \<not> fr_cancelled (race_loop p d le lu xs now c mx) \<and> fr_now (race_loop p d le lu xs now c mx) \<le> u"
proof (induction xs arbitrary: le lu now mx)
  case (Cons x xs)
  obtain i t r where "x = (i, t, r)" by (cases x)
  with Cons show ?case by (auto simp: Let_def split: sum.split)
qed (simp add: Let_def)

lemma forward_within:
  assumes "\<forall>i < race_width p. fst (ans i) \<le> u" "now \<le> u" "u \<le> d"
  shows "\<not> fr_cancelled (forward_exec p d now ans c mx) \<and> fr_now (forward_exec p d now ans c mx) \<le> u"
proof (cases "race_width p = 1")
  case True
  with assms show ?thesis
    by (auto simp: forward_exec_def forward_single_def Let_def split: prod.split sum.split)
next
  case False
  have "\<forall>x \<in> set (arrivals (race_width p) ans). fst (snd x) \<le> u"
    using assms(1) by (auto simp: set_arrivals_iff)
  from race_loop_within [OF this assms(2,3)] False show ?thesis by (simp add: forward_exec_def)
qed

end
