(* ===== verification/Cache_Laws.thy ===== *)
theory Cache_Laws
  imports Cache
begin

text \<open>
  What a cache hit guarantees: its records carry the stored time to live less the time they have been
  stored, or the lazy reply time inside the lazy window, and it comes from a message that may be stored.
\<close>

section \<open>Freshness\<close>

definition record_ttls :: "'n rr list \<Rightarrow> nat list" where
  \<comment> \<open>the times to live of a section; an OPT record has none\<close>
  "record_ttls rs = map (\<lambda>r. unat (rr_ttl r)) (filter (\<lambda>r. rr_type r \<noteq> RtOPT) rs)"

definition section_ttls :: "'n message \<Rightarrow> nat list list" where
  \<comment> \<open>specification: the times to live of the answers, the authority and the additionals\<close>
  "section_ttls m = map record_ttls [m_answers m, m_name_servers m, m_additionals m]"

definition proper_ttls :: "'n message \<Rightarrow> nat list" where
  \<comment> \<open>the times to live that decide how long a message may be kept, those of answers and authority\<close>
  "proper_ttls m = record_ttls (m_answers m @ m_name_servers m)"

definition wire_keeps_ttls :: "'n lib \<Rightarrow> bool" where
  \<comment> \<open>a law of the wire format: parsing what was written gives the records' times to live back\<close>
  "wire_keeps_ttls L \<longleftrightarrow> (\<forall>m b m'. wire_encode L m = Some b \<longrightarrow> wire_decode L b = Some m'
     \<longrightarrow> section_ttls m' = section_ttls m)"

lemma record_ttls_append [simp]: "record_ttls (a @ b) = record_ttls a @ record_ttls b"
  by (simp add: record_ttls_def)

lemma record_ttls_age: "record_ttls (map (age_rr e) rs) = map (\<lambda>t. t - unat e) (record_ttls rs)"
  by (auto simp: record_ttls_def filter_map comp_def age_rr_unat)

lemma record_ttls_const:
  "record_ttls (map (\<lambda>r. r\<lparr>rr_ttl := t\<rparr>) rs) = map (\<lambda>_. unat t) (record_ttls rs)"
  by (simp add: record_ttls_def filter_map comp_def)

lemma section_ttls_subtract:
  "section_ttls (subtract_ttl e m) = map (map (\<lambda>t. t - unat e)) (section_ttls m)"
  by (simp add: section_ttls_def subtract_ttl_def record_ttls_age)

definition lazy_ttls :: "nat \<Rightarrow> nat list list \<Rightarrow> nat list list" where
  \<comment> \<open>specification: one time to live for the first two sections, the third as it is\<close>
  "lazy_ttls t ts = map (map (\<lambda>_. t)) (take 2 ts) @ drop 2 ts"

lemma section_ttls_set_all: "section_ttls (set_all_ttl t m) = lazy_ttls (unat t) (section_ttls m)"
  by (simp add: section_ttls_def set_all_ttl_def record_ttls_const lazy_ttls_def)

lemma proper_section: "proper_ttls m = concat (take 2 (section_ttls m))"
  by (simp add: proper_ttls_def section_ttls_def)

lemma section_ttls_rebind [simp]: "section_ttls (rebind_response r q) = section_ttls r"
  by (simp add: section_ttls_def rebind_response_def)

lemma section_ttls_hit [simp]:
  "section_ttls (m\<lparr>m_id := x, m_type := y\<rparr>) = section_ttls m"
  by (simp add: section_ttls_def)

lemma proper_ttls_min: "t \<in> set (proper_ttls m) \<Longrightarrow> unat (min_ttl m) \<le> t"
  by (auto simp: proper_ttls_def record_ttls_def word_le_nat_alt [symmetric] intro: min_ttl_le)

lemma aged_ttls:
  assumes "now < stored + nanos (unat (min_ttl m))" "min_ttl m \<noteq> 0"
  defines "s \<equiv> (now - stored) div 1000000000"
  shows "unat (of_nat s :: u32) = s" "\<forall>t \<in> set (proper_ttls m). s < t"
proof -
  have lt: "s < unat (min_ttl m)"
  proof -
    have "now - stored < nanos (unat (min_ttl m))"
      using assms(1,2) unat_gt_0 [of "min_ttl m"] by linarith
    then show ?thesis unfolding s_def by (rule less_mult_imp_div_less)
  qed
  moreover have "unat (min_ttl m) < 2 ^ LENGTH(32)"
    by (rule unsigned_less)
  ultimately have "s < 2 ^ 32" by simp
  then show "unat (of_nat s :: u32) = s"
    by (simp add: unsigned_of_nat take_bit_nat_eq_self)
  show "\<forall>t \<in> set (proper_ttls m). s < t"
    using proper_ttls_min lt by fastforce
qed

text \<open>
  C7. A reply served from the cache comes from an entry made of a message worth storing. Before the
  entry's deadline every record of the reply, in all three sections, carries its original time to live
  less the whole seconds since it was stored, down to zero, and no record of the answers or the
  authority has expired. After the deadline the reply exists only when lazy caching is on, inside the
  lazy window; every record of the answers and the authority carries the configured reply time and the
  additionals keep the time to live they were stored with. (An OPT record has no time to live.)
\<close>
theorem cache_hit_fresh:
  assumes "cache_ok L ca" "wire_keeps_ttls L"
    and "cache_exec L clk i c ca mx = (c', ca', mx', job)"
    and "c_from_cache c'" "\<not> c_from_cache c"
  shows "\<exists>k m e r. key_of L (ca_everything ca) c = Some k \<and> cache_peek k ca = Some e
    \<and> entry_for L (ca_lazy_ttl ca) m e \<and> c_response c' = Some r \<and> clk 0 < e_expire e
    \<and> (if clk 0 < e_ttl_deadline e
       then clk 1 < e_ttl_deadline e \<longrightarrow>
         section_ttls r = map (map (\<lambda>t. t - (clk 1 - e_stored e) div 1000000000)) (section_ttls m)
           \<and> (\<forall>t \<in> set (proper_ttls r). 0 < t)
       else 0 < ca_lazy_ttl ca \<and> clk 0 < e_stored e + ca_lazy_ttl ca
         \<and> section_ttls r = lazy_ttls (unat (ca_lazy_reply ca)) (section_ttls m))"
proof -
  have entry: "\<exists>m. entry_for L (ca_lazy_ttl ca) m e \<and> section_ttls m' = section_ttls m
      \<and> cache_peek k ca = Some e \<and> clk 0 < e_expire e"
    if "cache_decoded L (clk 0) k ca = Some (m', e)" for k m' e
  proof -
    have d: "cache_peek k ca = Some e" "clk 0 < e_expire e" "wire_decode L (e_wire e) = Some m'"
      using that by (simp_all add: cache_decoded_Some)
    with assms(1) obtain m where m: "entry_for L (ca_lazy_ttl ca) m e"
      by (auto simp: cache_ok_def)
    moreover have "wire_encode L m = Some (e_wire e)" using m by (simp add: entry_for_def)
    with assms(2) d(3) have "section_ttls m' = section_ttls m"
      by (auto simp: wire_keeps_ttls_def)
    ultimately show ?thesis using d by blast
  qed
  show ?thesis
    using assms(3)
  proof (cases rule: cache_exec_cases)
    case (lazy k m' e c1)
    obtain m where m: "entry_for L (ca_lazy_ttl ca) m e" "section_ttls m' = section_ttls m"
        "cache_peek k ca = Some e" "clk 0 < e_expire e"
      using entry [OF lazy(3)] by blast
    moreover have "c_response c' = Some (rebind_response (set_all_ttl (ca_lazy_reply ca) m') (c_query c1)
        \<lparr>m_id := m_id (c_query c1), m_type := MtResponse\<rparr>)"
      by (simp add: lazy(8) set_response_def)
    moreover have "clk 0 < e_stored e + ca_lazy_ttl ca" "\<not> clk 0 < e_ttl_deadline e" "0 < ca_lazy_ttl ca"
      using lazy(4) m(1,4) by (auto simp: is_lazy_def entry_for_def)
    ultimately show ?thesis using lazy(1) by (auto simp: section_ttls_set_all)
  next
    case (fresh k m' e c1)
    obtain m where m: "entry_for L (ca_lazy_ttl ca) m e" "section_ttls m' = section_ttls m"
        "cache_peek k ca = Some e" "clk 0 < e_expire e"
      using entry [OF fresh(3)] by blast
    let ?s = "(clk 1 - e_stored e) div 1000000000"
    have "clk 0 < e_ttl_deadline e"
      using fresh(4) m(1,4) by (auto simp: is_lazy_def entry_for_def)
    moreover have "section_ttls (subtract_ttl (of_nat ?s) m') = map (map (\<lambda>t. t - ?s)) (section_ttls m)
        \<and> (\<forall>t \<in> set (concat (take 2 (map (map (\<lambda>t. t - ?s)) (section_ttls m)))). 0 < t)"
      if "clk 1 < e_ttl_deadline e"
    proof -
      have "clk 1 < e_stored e + nanos (unat (min_ttl m))" "min_ttl m \<noteq> 0"
        using that m(1) by (simp_all add: entry_for_def storable_def)
      from aged_ttls [OF this] show ?thesis
        using m(2) by (auto simp: section_ttls_subtract proper_section take_map map_concat [symmetric])
    qed
    ultimately show ?thesis
      using fresh(1) m by (auto simp: fresh(8) set_response_def proper_section)
  qed (use assms(4,5) in \<open>auto simp: push_trace_def split: if_splits\<close>)
qed

text \<open>A concrete cache with one entry, for witnesses.\<close>

definition demo_question :: "string message" where
  "demo_question = message_new\<lparr>m_id := 7, m_rd := True,
     m_queries := [\<lparr>q_name = ''a.test.'', q_type = RtA, q_class = ClassIN\<rparr>]\<rparr>"

definition demo_reply :: "string message" where
  "demo_reply = (reply_skeleton demo_question NoError)\<lparr>m_answers := [record_a ''a.test.'' 60 1],
     m_additionals := [record_a ''n.test.'' 30 2]\<rparr>"

definition demo_wire_lib :: "string lib" where
  "demo_wire_lib = demo_lib\<lparr>
     wire_encode := (\<lambda>m. if m = demo_reply then Some [1] else None),
     wire_decode := (\<lambda>b. if b = [1] then Some demo_reply else None)\<rparr>"

definition demo_ctx :: "string ctx" where
  "demo_ctx = ctx_new 0 0 demo_question None PUdp"

definition demo_key :: string where
  "demo_key = question_key demo_wire_lib demo_question (hd (m_queries demo_question))"

definition demo_entry :: entry where
  "demo_entry = \<lparr>e_wire = [1], e_stored = 0, e_ttl_deadline = nanos 60, e_expire = nanos 60\<rparr>"

definition demo_cache :: cache where
  "demo_cache = cache_put demo_key demo_entry (cache_from_args ''cache'' YNull)"

lemma demo_reply_min_ttl: "min_ttl demo_reply = 60"
  by (simp add: min_ttl_def demo_reply_def reply_skeleton_def message_new_def record_a_def)

lemma demo_entry_for: "entry_for demo_wire_lib 0 demo_reply demo_entry"
  by (simp add: entry_for_def storable_def demo_reply_min_ttl demo_entry_def demo_wire_lib_def)
    (simp add: demo_reply_def reply_skeleton_def demo_question_def message_new_def cacheable_edns_def)

lemma demo_cache_lazy: "ca_lazy_ttl (cache_from_args tag YNull) = 0"
  by (simp add: cache_from_args_def)

lemma demo_cache_ok: "cache_ok demo_wire_lib demo_cache"
  unfolding demo_cache_def
  by (rule cache_ok_put [where m = demo_reply, OF cache_ok_new])
    (simp add: demo_cache_lazy demo_entry_for)

lemma demo_cache_peek: "cache_peek demo_key demo_cache = Some demo_entry"
  by (simp add: demo_cache_def cache_entries.peek_put_same)

lemma demo_key_of: "key_of demo_wire_lib False demo_ctx = Some demo_key"
  by (simp add: key_of_def demo_ctx_def ctx_new_def demo_question_def message_new_def
      cacheable_edns_def simple_query_def demo_key_def)

lemma demo_ctx_flags: "\<not> c_skip_cache demo_ctx" "\<not> c_from_cache demo_ctx"
  by (simp_all add: demo_ctx_def ctx_new_def)

lemma demo_cache_everything: "ca_everything demo_cache = False"
  by (simp add: demo_cache_def cache_put_def cache_from_args_def)

lemma demo_wire_law: "wire_keeps_ttls demo_wire_lib"
  by (simp add: wire_keeps_ttls_def demo_wire_lib_def)

lemma demo_decoded:
  "now < nanos 60 \<Longrightarrow> cache_decoded demo_wire_lib now demo_key demo_cache = Some (demo_reply, demo_entry)"
  by (simp add: cache_decoded_def demo_cache_peek) (simp add: demo_entry_def demo_wire_lib_def)

lemma demo_reply_ttls: "section_ttls demo_reply = [[60], [], [30]]"
  by (simp add: section_ttls_def record_ttls_def demo_reply_def reply_skeleton_def message_new_def record_a_def)

lemma cache_hit_fresh_witness:
  "\<exists>r. c_response (fst (cache_exec demo_wire_lib (\<lambda>_. nanos 5) 0 demo_ctx demo_cache (metrics_new 0)))
     = Some r \<and> section_ttls r = [[55], [], [25]]"
proof -
  obtain c' ca' mx' job where
    ex: "cache_exec demo_wire_lib (\<lambda>_. nanos 5) 0 demo_ctx demo_cache (metrics_new 0)
      = (c', ca', mx', job)"
    by (metis prod_cases4)
  have nl: "\<not> is_lazy (nanos 5) demo_cache demo_entry"
    by (simp add: is_lazy_def demo_entry_def)
  have "c_from_cache c'"
    using ex nl demo_decoded [of "nanos 5"]
    by (auto simp: cache_exec_eq demo_cache_everything demo_key_of demo_ctx_flags Let_def)
  moreover have "\<not> c_from_cache demo_ctx" by (rule demo_ctx_flags)
  ultimately obtain k m e r where
    h: "key_of demo_wire_lib (ca_everything demo_cache) demo_ctx = Some k"
       "cache_peek k demo_cache = Some e"
       "entry_for demo_wire_lib (ca_lazy_ttl demo_cache) m e" "c_response c' = Some r"
       "nanos 5 < e_ttl_deadline e \<Longrightarrow>
          section_ttls r = map (map (\<lambda>t. t - (nanos 5 - e_stored e) div 1000000000)) (section_ttls m)"
    using cache_hit_fresh [OF demo_cache_ok demo_wire_law ex] by (auto split: if_splits)
  have e: "e = demo_entry"
    using h(1,2) by (simp add: demo_cache_everything demo_key_of demo_cache_peek)
  moreover have "m = demo_reply"
    using h(3) e by (auto simp: entry_for_def demo_wire_lib_def split: if_splits)
  ultimately have "section_ttls r = [[55], [], [25]]"
    using h(5) by (simp add: demo_entry_def demo_reply_ttls)
  with h(4) ex show ?thesis by simp
qed

end
