(* ===== verification/Numbers.thy ===== *)
theory Numbers
  imports Net
begin

text \<open>
  Decimal and hexadecimal numbers as text: the digits \<open>Display\<close> writes are read back as the same
  number, so distinct numbers have distinct texts, and no text of a number holds a separator.
\<close>

definition radix_char :: "nat \<Rightarrow> char" where
  "radix_char d = char_of (if d < 10 then 48 + d else 87 + d)"

lemma digit_val_radix_char: "d < radix \<Longrightarrow> radix \<le> 16 \<Longrightarrow> digit_val radix (radix_char d) = Some d"
  by (auto simp: digit_val_def radix_char_def Let_def)

lemma digits_val_snoc:
  "digits_val radix acc (cs @ [c]) =
     Option.bind (digits_val radix acc cs) (\<lambda>n. map_option (\<lambda>d. n * radix + d) (digit_val radix c))"
  by (induction radix acc cs rule: digits_val.induct) (auto split: option.split)

lemma digits_val_show_radix:
  assumes "2 \<le> radix" "radix \<le> 16" "n < f"
  shows "digits_val radix 0 (show_radix f radix n) = Some n"
  using assms(3)
proof (induction f arbitrary: n)
  case 0
  then show ?case by simp
next
  case (Suc f)
  let ?d = "n mod radix"
  have d: "digit_val radix (radix_char ?d) = Some ?d"
    by (rule digit_val_radix_char) (use assms(1,2) in auto)
  have e: "show_radix (Suc f) radix n =
      (if n < radix then [radix_char ?d] else show_radix f radix (n div radix) @ [radix_char ?d])"
    by (simp add: radix_char_def Let_def)
  show ?case
  proof (cases "n < radix")
    case True
    with d e show ?thesis by simp
  next
    case False
    then have "n div radix < n" using assms(1) by (intro div_less_dividend) auto
    with Suc.prems have "n div radix < f" by simp
    from Suc.IH [OF this] d e False show ?thesis by (simp add: digits_val_snoc)
  qed
qed

lemma show_nat_inj: "show_nat a = show_nat b \<Longrightarrow> a = b"
  using digits_val_show_radix [of 10 a "Suc a"] digits_val_show_radix [of 10 b "Suc b"]
  by (simp add: show_nat_def)

lemma show_hex_inj: "show_hex a = show_hex b \<Longrightarrow> a = b"
  using digits_val_show_radix [of 16 a "Suc a"] digits_val_show_radix [of 16 b "Suc b"]
  by (simp add: show_hex_def)

lemma show_word_inj: "show_word a = show_word b \<Longrightarrow> a = b"
  unfolding show_word_def by (drule show_nat_inj) (rule unsigned_word_eqI)

lemma radix_char_code: "d < 16 \<Longrightarrow> of_char (radix_char d) = (if d < 10 then 48 + d else 87 + d)"
  by (simp add: radix_char_def)

lemma show_radix_free:
  assumes "2 \<le> radix" "radix \<le> 16" "\<And>d. d < 16 \<Longrightarrow> radix_char d \<noteq> c"
  shows "c \<notin> set (show_radix f radix n)"
proof (induction f arbitrary: n)
  case (Suc f)
  have "n mod radix < 16" using assms(1,2) by (meson less_le_trans mod_less_divisor order_less_le_trans zero_less_numeral)
  then have "radix_char (n mod radix) \<noteq> c" by (rule assms(3))
  with Suc show ?case by (auto simp: radix_char_def Let_def)
qed simp

end
