(* ===== verification/Address_Text.thy ===== *)
theory Address_Text
  imports Numbers
begin

text \<open>
  The text of an address names the address: \<open>Display\<close> of \<open>IpAddr\<close> is injective, over dotted
  decimals, IPv4-mapped addresses and the compressed form of IPv6, in which one run of zero groups
  is left out.
\<close>

section \<open>Joined fields\<close>

lemma split_char_join:
  "ps \<noteq> [] \<Longrightarrow> (\<And>p. p \<in> set ps \<Longrightarrow> c \<notin> set p) \<Longrightarrow> split_char c (join [c] ps) = ps"
  by (induction "[c]" ps rule: join.induct) (simp_all add: split_char_absent split_char_at)

section \<open>Characters of a number\<close>

lemma radix_char_alnum:
  assumes "d < 16"
  shows "radix_char d \<noteq> CHR ''.''" "radix_char d \<noteq> CHR '':''" "radix_char d \<noteq> CHR ''/''"
proof -
  have "of_char (radix_char d) \<noteq> (46 :: nat) \<and> of_char (radix_char d) \<noteq> (58 :: nat)
      \<and> of_char (radix_char d) \<noteq> (47 :: nat)"
    using assms by (simp add: radix_char_code)
  then show "radix_char d \<noteq> CHR ''.''" "radix_char d \<noteq> CHR '':''" "radix_char d \<noteq> CHR ''/''"
    by auto
qed

lemma show_hex_seps [simp]:
  "CHR ''.'' \<notin> set (show_hex n)" "CHR '':'' \<notin> set (show_hex n)" "CHR ''/'' \<notin> set (show_hex n)"
  unfolding show_hex_def by (rule show_radix_free; simp add: radix_char_alnum)+

lemma show_word_seps [simp]:
  "CHR ''.'' \<notin> set (show_word w)" "CHR '':'' \<notin> set (show_word w)" "CHR ''/'' \<notin> set (show_word w)"
  unfolding show_word_def show_nat_def by (rule show_radix_free; simp add: radix_char_alnum)+

lemma show_hex_nonempty [simp]: "show_hex n \<noteq> []"
  by (simp add: show_hex_def Let_def)

section \<open>Dotted decimals\<close>

lemma word_parts_inj:
  fixes a b :: "'a::len word"
  assumes "0 < k" "\<And>j. j < n \<Longrightarrow> (ucast (drop_bit (k * j) a) :: 'b::len word) = ucast (drop_bit (k * j) b)"
    "LENGTH('b) = k" "LENGTH('a) = k * n"
  shows "a = b"
proof (rule bit_word_eqI)
  fix i assume i: "i < LENGTH('a)"
  have j: "i div k < n" using i assms(1,4) by (simp add: less_mult_imp_div_less mult.commute)
  have r: "i mod k < LENGTH('b)" using assms(1,3) by simp
  from assms(2) [OF j] have
    "bit (ucast (drop_bit (k * (i div k)) a) :: 'b word) (i mod k)
      = bit (ucast (drop_bit (k * (i div k)) b) :: 'b word) (i mod k)" by simp
  with r show "bit a i = bit b i" by (simp add: bit_ucast_iff bit_drop_bit_eq)
qed

lemma octets_inj: assumes "octets a = octets b" shows "a = b"
proof (rule word_parts_inj [where k = 8 and n = 4 and 'b = 8])
  fix j :: nat assume "j < 4"
  then have "8 * j \<in> {24, 16, 8, 0}" by auto
  moreover have "(ucast (drop_bit k a) :: u8) = ucast (drop_bit k b)" if "k \<in> {24, 16, 8, 0}" for k
    using assms that unfolding octets_def by auto
  ultimately show "(ucast (drop_bit (8 * j) a) :: u8) = ucast (drop_bit (8 * j) b)" by blast
qed simp_all

lemma segments_inj: assumes "segments a = segments b" shows "a = b"
proof (rule word_parts_inj [where k = 16 and n = 8 and 'b = 16])
  fix j :: nat assume "j < 8"
  then have "16 * j \<in> {112, 96, 80, 64, 48, 32, 16, 0}" by auto
  moreover have "(ucast (drop_bit k a) :: u16) = ucast (drop_bit k b)"
    if "k \<in> {112, 96, 80, 64, 48, 32, 16, 0}" for k
    using assms that unfolding segments_def by auto
  ultimately show "(ucast (drop_bit (16 * j) a) :: u16) = ucast (drop_bit (16 * j) b)" by blast
qed simp_all

lemma inj_show_word: "inj (show_word :: 'a::len word \<Rightarrow> string)"
  by (rule injI) (rule show_word_inj)

lemma show_ipv4_fields: "split_char (CHR ''.'') (show_ipv4 a) = map show_word (octets a)"
  unfolding show_ipv4_def by (rule split_char_join) (auto simp: octets_def)

lemma show_ipv4_inj: "show_ipv4 a = show_ipv4 b \<Longrightarrow> a = b"
  using show_ipv4_fields [of a] show_ipv4_fields [of b]
  by (auto simp: inj_map_eq_map [OF inj_show_word] intro: octets_inj)

lemma set_join: "set (join sep ps) = \<Union> (set ` set ps) \<union> (if 2 \<le> length ps then set sep else {})"
  by (induction sep ps rule: join.induct) auto

lemma show_ipv4_chars:
  "CHR ''.'' \<in> set (show_ipv4 a)" "CHR '':'' \<notin> set (show_ipv4 a)" "CHR ''/'' \<notin> set (show_ipv4 a)"
  by (auto simp: show_ipv4_def set_join)

section \<open>The left out run of zero groups\<close>

definition zero_run :: "u16 list \<Rightarrow> nat \<times> nat \<Rightarrow> bool" where
  "zero_run ss r \<longleftrightarrow> fst r + snd r \<le> length ss \<and> (\<forall>k < snd r. ss ! (fst r + k) = 0)"

lemma zero_run_none [simp]: "zero_run ss (0, 0)"
  by (simp add: zero_run_def)

lemma zero_span_run:
  "ss = pre @ ts \<Longrightarrow> zero_run ss cur \<Longrightarrow> (0 < snd cur \<longrightarrow> fst cur + snd cur = length pre)
     \<Longrightarrow> zero_run ss best \<Longrightarrow> zero_run ss (zero_span ts (length pre) cur best)"
proof (induction ts arbitrary: pre cur best)
  case Nil
  then show ?case by (cases cur) simp
next
  case (Cons s ts)
  obtain st n where cur: "cur = (st, n)" by (cases cur)
  let ?cur = "if n = 0 then (length pre, 1) else (st, Suc n)"
  show ?case
  proof (cases "s = 0")
    case True
    have r: "zero_run ss ?cur"
      using Cons.prems cur True by (auto simp: zero_run_def nth_append less_Suc_eq)
    have e: "fst ?cur + snd ?cur = length (pre @ [s])" using Cons.prems cur by auto
    have "zero_run ss (zero_span ts (length (pre @ [s])) ?cur (if snd best < snd ?cur then ?cur else best))"
      by (rule Cons.IH) (use Cons.prems r e in auto)
    then show ?thesis using True cur by (simp add: Let_def)
  next
    case False
    have "zero_run ss (zero_span ts (length (pre @ [s])) (0, 0) best)"
      by (rule Cons.IH) (use Cons.prems in auto)
    then show ?thesis using False cur by simp
  qed
qed

lemma zero_run_split:
  assumes "zero_run ss (st, n)"
  shows "ss = take st ss @ replicate n 0 @ drop (st + n) ss" "st + n \<le> length ss"
proof -
  from assms show l: "st + n \<le> length ss" by (simp add: zero_run_def)
  have "take n (drop st ss) = replicate n 0"
    using assms l by (intro nth_equalityI) (simp_all add: zero_run_def)
  then show "ss = take st ss @ replicate n 0 @ drop (st + n) ss"
    by (metis append_take_drop_id drop_drop add.commute)
qed

section \<open>Compressed addresses\<close>

definition hex_fields :: "u16 list \<Rightarrow> string list" where
  "hex_fields ss = map (\<lambda>s. show_hex (unat s)) ss"

lemma hex_fields_append: "hex_fields (a @ b) = hex_fields a @ hex_fields b"
  by (simp add: hex_fields_def)

lemma hex_fields_inj: "hex_fields a = hex_fields b \<Longrightarrow> a = b"
proof -
  have "inj (\<lambda>s :: u16. show_hex (unat s))"
    by (rule injI) (auto dest: show_hex_inj intro: unsigned_word_eqI)
  then show "hex_fields a = hex_fields b \<Longrightarrow> a = b"
    by (simp add: hex_fields_def inj_map_eq_map)
qed

lemma hex_fields_full: "takeWhile (\<lambda>p. p \<noteq> []) (hex_fields ss @ r) = hex_fields ss @ takeWhile (\<lambda>p. p \<noteq> []) r"
  "filter (\<lambda>p. p \<noteq> []) (hex_fields ss) = hex_fields ss"
  by (induction ss) (simp_all add: hex_fields_def)

lemma show_segments_fields:
  "split_char (CHR '':'') (show_segments ss) = (if ss = [] then [[]] else hex_fields ss)"
  unfolding show_segments_def hex_fields_def by (auto intro!: split_char_join)

lemma show_segments_chars:
  "CHR ''.'' \<notin> set (show_segments ss)" "CHR ''/'' \<notin> set (show_segments ss)"
  by (auto simp: show_segments_def set_join)

definition groups_text :: "u16 list \<Rightarrow> string" where
  \<comment> \<open>the text of an address without a mapped IPv4 address in it\<close>
  "groups_text ss = (case zero_span ss 0 (0, 0) (0, 0) of (st, n) \<Rightarrow>
     if 1 < n then show_segments (take st ss) @ ''::'' @ show_segments (drop (st + n) ss)
     else show_segments ss)"

lemma groups_text_decode:
  assumes "length ss = 8"
  obtains a b where
    "takeWhile (\<lambda>p. p \<noteq> []) (split_char (CHR '':'') (groups_text ss)) = hex_fields a"
    "filter (\<lambda>p. p \<noteq> []) (split_char (CHR '':'') (groups_text ss)) = hex_fields (a @ b)"
    "ss = a @ replicate (8 - length (a @ b)) 0 @ b"
proof -
  obtain st n where z: "zero_span ss 0 (0, 0) (0, 0) = (st, n)"
    by (cases "zero_span ss 0 (0, 0) (0, 0)")
  have "zero_run ss (st, n)"
    using zero_span_run [of ss "[]" ss "(0, 0)" "(0, 0)"] z by simp
  note run = zero_run_split [OF this]
  show thesis
  proof (cases "1 < n")
    case True
    let ?a = "take st ss" and ?b = "drop (st + n) ss"
    have "split_char (CHR '':'') (groups_text ss)
        = split_char (CHR '':'') (show_segments ?a) @ [] # split_char (CHR '':'') (show_segments ?b)"
      using True z by (simp add: groups_text_def split_char_sep)
    moreover have "8 - length (?a @ ?b) = n" using run(2) assms by simp
    ultimately show thesis
      using run(1) that [of ?a ?b] hex_fields_full [of ?a] hex_fields_full(2) [of ?b]
      by (auto simp: show_segments_fields hex_fields_append hex_fields_def)
  next
    case False
    then have "split_char (CHR '':'') (groups_text ss) = hex_fields ss"
      using z assms by (auto simp: groups_text_def show_segments_fields)
    then show thesis
      using that [of ss "[]"] hex_fields_full(1) [of ss "[]"] hex_fields_full(2) [of ss] assms by simp
  qed
qed

lemma groups_text_inj:
  assumes "groups_text x = groups_text y" "length x = 8" "length y = 8"
  shows "x = y"
proof -
  obtain a b where x: "takeWhile (\<lambda>p. p \<noteq> []) (split_char (CHR '':'') (groups_text x)) = hex_fields a"
    "filter (\<lambda>p. p \<noteq> []) (split_char (CHR '':'') (groups_text x)) = hex_fields (a @ b)"
    "x = a @ replicate (8 - length (a @ b)) 0 @ b"
    using groups_text_decode [OF assms(2)] .
  obtain c d where y: "takeWhile (\<lambda>p. p \<noteq> []) (split_char (CHR '':'') (groups_text y)) = hex_fields c"
    "filter (\<lambda>p. p \<noteq> []) (split_char (CHR '':'') (groups_text y)) = hex_fields (c @ d)"
    "y = c @ replicate (8 - length (c @ d)) 0 @ d"
    using groups_text_decode [OF assms(3)] .
  have "a = c" "a @ b = c @ d"
    using x(1,2) y(1,2) assms(1) by (simp_all add: hex_fields_inj)
  then show ?thesis using x(3) y(3) by simp
qed

lemma groups_text_chars:
  assumes "length ss = 8"
  shows "CHR ''.'' \<notin> set (groups_text ss)" "CHR ''/'' \<notin> set (groups_text ss)"
    "CHR '':'' \<in> set (groups_text ss)"
proof -
  show "CHR ''.'' \<notin> set (groups_text ss)" "CHR ''/'' \<notin> set (groups_text ss)"
    by (auto simp: groups_text_def show_segments_chars split: prod.split)
  show "CHR '':'' \<in> set (groups_text ss)"
    using assms by (cases "zero_span ss 0 (0, 0) (0, 0)") (auto simp: groups_text_def show_segments_def set_join)
qed

section \<open>Addresses\<close>

lemma show_ipv6_cases:
  obtains (mapped) v where "to_ipv4_mapped a = Some v" "show_ipv6 a = ''::ffff:'' @ show_ipv4 v"
    | (groups) "to_ipv4_mapped a = None" "show_ipv6 a = groups_text (segments a)"
  by (cases "to_ipv4_mapped a") (simp_all add: show_ipv6_def groups_text_def Let_def)

lemma to_ipv4_mapped_inj:
  assumes "to_ipv4_mapped a = Some v" "to_ipv4_mapped b = Some v"
  shows "a = b"
proof (rule segments_inj)
  have s: "take 6 (segments a) = take 6 (segments b)" and
    l: "(ucast a :: ipv4) = v" "(ucast b :: ipv4) = v"
    using assms by (auto simp: to_ipv4_mapped_def split: if_splits)
  have low: "drop 6 (segments x) = [ucast (drop_bit 16 (ucast x :: ipv4)), ucast (ucast x :: ipv4)]" for x
    unfolding segments_def by (auto intro!: bit_word_eqI simp: bit_ucast_iff bit_drop_bit_eq)
  show "segments a = segments b"
    using s low [of a] low [of b] l by (metis append_take_drop_id)
qed

lemma show_ipv6_inj: assumes "show_ipv6 a = show_ipv6 b" shows "a = b"
proof (cases a rule: show_ipv6_cases)
  case (mapped v)
  note a = this
  show ?thesis
  proof (cases b rule: show_ipv6_cases)
    case (mapped w)
    with a assms have "v = w" by (auto dest: show_ipv4_inj)
    with a mapped to_ipv4_mapped_inj show ?thesis by blast
  next
    case groups
    with a assms show ?thesis
      using show_ipv4_chars(1) [of v] groups_text_chars(1) [of "segments b"] by (metis Un_iff segments_length set_append)
  qed
next
  case groups
  note a = this
  show ?thesis
  proof (cases b rule: show_ipv6_cases)
    case (mapped w)
    with a assms show ?thesis
      using show_ipv4_chars(1) [of w] groups_text_chars(1) [of "segments a"] by (metis Un_iff segments_length set_append)
  next
    case groups
    with a assms have "segments a = segments b" by (auto intro: groups_text_inj)
    then show ?thesis by (rule segments_inj)
  qed
qed

lemma show_ipv6_chars: "CHR '':'' \<in> set (show_ipv6 a)" "CHR ''/'' \<notin> set (show_ipv6 a)"
  by (cases a rule: show_ipv6_cases; simp add: groups_text_chars show_ipv4_chars)+

lemma show_ip_inj: "show_ip x = show_ip y \<Longrightarrow> x = y"
  by (cases x; cases y)
    (auto dest: show_ipv4_inj show_ipv6_inj simp: show_ipv6_chars show_ipv4_chars,
     (metis show_ipv4_chars(2) show_ipv6_chars(1))+)

lemma show_ip_slash [simp]: "CHR ''/'' \<notin> set (show_ip a)"
  by (cases a) (simp_all add: show_ipv4_chars show_ipv6_chars)

end
