(* ===== verification/Cache_Keys.thy ===== *)
theory Cache_Keys
  imports Cache_Laws Address_Text
begin

text \<open>
  A cache key tells apart every question whose answers may differ: equal keys come from equal
  question names up to case, equal type, class, subnet, flags and EDNS mode, or, for a message with
  more in it, from the same wire form.
\<close>

section \<open>Text without a separator\<close>

definition plain_text :: "string \<Rightarrow> bool" where
  \<comment> \<open>no separator of a key inside\<close>
  "plain_text s \<longleftrightarrow> CHR ''|'' \<notin> set s"

lemma plain_simps [simp]:
  "plain_text []" "plain_text (c # s) \<longleftrightarrow> c \<noteq> CHR ''|'' \<and> plain_text s"
  "plain_text (a @ b) \<longleftrightarrow> plain_text a \<and> plain_text b"
  by (auto simp: plain_text_def)

lemma plain_radix_char: "d < 16 \<Longrightarrow> radix_char d \<noteq> CHR ''|''"
proof
  assume d: "d < 16" "radix_char d = CHR ''|''"
  then have "of_char (radix_char d) = (124 :: nat)" by simp
  with d(1) show False by (simp add: radix_char_code split: if_splits)
qed

lemma comma_radix_char: "d < 16 \<Longrightarrow> radix_char d \<noteq> CHR '',''"
proof
  assume d: "d < 16" "radix_char d = CHR '',''"
  then have "of_char (radix_char d) = (44 :: nat)" by simp
  with d(1) show False by (simp add: radix_char_code split: if_splits)
qed

lemma plain_show_radix: "2 \<le> radix \<Longrightarrow> radix \<le> 16 \<Longrightarrow> plain_text (show_radix f radix n)"
  unfolding plain_text_def by (rule show_radix_free) (auto dest: plain_radix_char)

lemma comma_show_word: "CHR '','' \<notin> set (show_word w)"
  unfolding show_word_def show_nat_def by (rule show_radix_free) (auto dest: comma_radix_char)

lemma plain_show_nat [simp]: "plain_text (show_nat n)"
  unfolding show_nat_def by (rule plain_show_radix) simp_all

lemma plain_show_hex [simp]: "plain_text (show_hex n)"
  unfolding show_hex_def by (rule plain_show_radix) simp_all

lemma plain_show_word [simp]: "plain_text (show_word w)"
  by (simp add: show_word_def)

lemma plain_show_bool [simp]: "plain_text (show_bool b)"
  by (simp add: show_bool_def)

lemma plain_join: "plain_text sep \<Longrightarrow> (\<And>p. p \<in> set ps \<Longrightarrow> plain_text p) \<Longrightarrow> plain_text (join sep ps)"
  by (induction sep ps rule: join.induct) auto

lemma plain_show_ipv4 [simp]: "plain_text (show_ipv4 a)"
  unfolding show_ipv4_def by (rule plain_join) auto

lemma plain_show_segments [simp]: "plain_text (show_segments ss)"
  unfolding show_segments_def by (rule plain_join) auto

lemma plain_show_ip [simp]: "plain_text (show_ip a)"
  by (cases a) (simp_all add: show_ipv6_def Let_def split: option.split prod.split)

lemma plain_ecs_key [simp]: "plain_text (ecs_cache_key m)"
  by (simp add: ecs_cache_key_def split: option.split)

lemma plain_edns_key [simp]: "plain_text (edns_key x)"
  by (simp add: edns_key_def split: option.split)

section \<open>Keys of simple queries\<close>

definition debug_names :: "'n lib \<Rightarrow> bool" where
  \<comment> \<open>a law of \<open>Debug\<close> for record types and classes: distinct names without a bar\<close>
  "debug_names L \<longleftrightarrow>
     inj (rt_debug L) \<and> (\<forall>t. plain_text (rt_debug L t))
       \<and> inj (class_debug L) \<and> (\<forall>c. plain_text (class_debug L c))"

definition key_name :: "'n lib \<Rightarrow> 'n query \<Rightarrow> string" where
  "key_name L q = to_ascii_lowercase (trim_end_matches (CHR ''.'') (name_ascii L (q_name q)))"

lemma bar_split:
  assumes "a @ CHR ''|'' # b = a' @ CHR ''|'' # b'" "plain_text b" "plain_text b'"
  shows "a = a' \<and> b = b'"
proof -
  from assms(1) obtain us where
    "a = a' @ us \<and> us @ CHR ''|'' # b = CHR ''|'' # b' \<or> a @ us = a' \<and> CHR ''|'' # b = us @ CHR ''|'' # b'"
    by (auto simp: append_eq_append_conv2)
  with assms(2,3) show ?thesis by (cases us) (auto simp: plain_text_def)
qed

lemma show_bool_inj [simp]: "show_bool a = show_bool b \<longleftrightarrow> a = b"
  by (simp add: show_bool_def)

lemma sep_split:
  assumes "a @ c # b = a' @ c # b'" "c \<notin> set a" "c \<notin> set a'"
  shows "a = a' \<and> b = b'"
proof -
  from assms(1) obtain us where
    "a = a' @ us \<and> us @ c # b = c # b' \<or> a @ us = a' \<and> c # b = us @ c # b'"
    by (auto simp: append_eq_append_conv2)
  with assms(2,3) show ?thesis by (cases us) auto
qed

lemma edns_key_inj:
  assumes "edns_key x = edns_key y"
  shows "map_option (\<lambda>e. (ed_version e, ed_do e)) x = map_option (\<lambda>e. (ed_version e, ed_do e)) y"
proof -
  have "ed_version a = ed_version b \<and> ed_do a = ed_do b"
    if h: "show_word (ed_version a) @ '', '' @ show_bool (ed_do a) @ ''))''
      = show_word (ed_version b) @ '', '' @ show_bool (ed_do b) @ ''))''" for a b :: edns
    using sep_split [OF h [simplified] comma_show_word comma_show_word]
    by (auto dest: show_word_inj)
  with assms show ?thesis by (auto simp: edns_key_def split: option.splits)
qed

definition client_net :: "'n message \<Rightarrow> (ip \<times> u8) option" where
  \<comment> \<open>specification: the subnet a message asks for, its address and prefix length\<close>
  "client_net m = map_option (\<lambda>cs. (cs_addr cs, cs_source cs)) (ecs_of m)"

lemma ecs_cache_key_eq_iff: "ecs_cache_key m = ecs_cache_key m' \<longleftrightarrow> client_net m = client_net m'"
proof -
  have "cs_addr a = cs_addr b \<and> cs_source a = cs_source b"
    if h: "show_ip (cs_addr a) @ CHR ''/'' # show_word (cs_source a)
      = show_ip (cs_addr b) @ CHR ''/'' # show_word (cs_source b)" for a b
    using sep_split [OF h show_ip_slash show_ip_slash] by (auto dest: show_ip_inj show_word_inj)
  moreover have "''-'' \<noteq> show_ip (cs_addr a) @ CHR ''/'' # show_word (cs_source a)" for a
  proof
    assume "''-'' = show_ip (cs_addr a) @ CHR ''/'' # show_word (cs_source a)"
    then have "CHR ''/'' \<in> set ''-''" by (metis in_set_conv_decomp)
    then show False by simp
  qed
  ultimately show ?thesis
    by (auto simp: ecs_cache_key_def client_net_def eq_commute [of _ "''-''"] split: option.splits)
qed

definition bars :: "string \<Rightarrow> string list \<Rightarrow> string" where
  "bars a ps = a @ concat (map (\<lambda>p. CHR ''|'' # p) ps)"

lemma bars_snoc: "bars a (ps @ [p]) = bars a ps @ CHR ''|'' # p"
  by (simp add: bars_def)

lemma bars_inj:
  "bars a ps = bars a' ps' \<Longrightarrow> length ps = length ps' \<Longrightarrow> list_all plain_text ps
     \<Longrightarrow> list_all plain_text ps' \<Longrightarrow> a = a' \<and> ps = ps'"
proof (induction ps arbitrary: ps' rule: rev_induct)
  case Nil
  then show ?case by (simp add: bars_def)
next
  case (snoc p ps)
  from snoc.prems(2) obtain qs q where q: "ps' = qs @ [q]" by (cases ps' rule: rev_cases) auto
  from bar_split [of "bars a ps" p "bars a' qs" q] snoc.prems q
  have "bars a ps = bars a' qs \<and> p = q" by (simp add: bars_snoc)
  with snoc.IH [of qs] snoc.prems q show ?case by simp
qed

lemma question_key_bars:
  "question_key L q q0 = bars (key_name L q0)
     [rt_debug L (q_type q0), class_debug L (q_class q0), ecs_cache_key q,
      ''rd='' @ show_bool (m_rd q), ''cd='' @ show_bool (m_cd q), ''ad='' @ show_bool (m_ad q),
      ''edns='' @ edns_key (m_edns q)]"
  by (simp add: question_key_def bars_def key_name_def)

definition same_dimensions :: "'n lib \<Rightarrow> 'n message \<Rightarrow> 'n query \<Rightarrow> 'n message \<Rightarrow> 'n query \<Rightarrow> bool" where
  \<comment> \<open>everything a cached answer may depend on\<close>
  "same_dimensions L m q m' q' \<longleftrightarrow>
     key_name L q = key_name L q' \<and> q_type q = q_type q' \<and> q_class q = q_class q'
       \<and> client_net m = client_net m' \<and> m_rd m = m_rd m' \<and> m_cd m = m_cd m' \<and> m_ad m = m_ad m'
       \<and> map_option (\<lambda>e. (ed_version e, ed_do e)) (m_edns m)
         = map_option (\<lambda>e. (ed_version e, ed_do e)) (m_edns m')"

lemma question_key_eq_iff:
  assumes "debug_names L"
  shows "question_key L m q = question_key L m' q' \<longleftrightarrow> same_dimensions L m q m' q'"
proof
  have plain: "list_all plain_text
     [rt_debug L (q_type q0), class_debug L (q_class q0), ecs_cache_key x,
      ''rd='' @ show_bool (m_rd x), ''cd='' @ show_bool (m_cd x), ''ad='' @ show_bool (m_ad x),
      ''edns='' @ edns_key (m_edns x)]" for q0 x
    using assms by (simp add: debug_names_def)
  assume "question_key L m q = question_key L m' q'"
  from bars_inj [OF this [unfolded question_key_bars] _ plain plain]
  show "same_dimensions L m q m' q'"
    using assms
    by (auto simp: same_dimensions_def debug_names_def ecs_cache_key_eq_iff [symmetric] dest: injD edns_key_inj)
next
  assume h: "same_dimensions L m q m' q'"
  then have "edns_key (m_edns m) = edns_key (m_edns m')"
    unfolding same_dimensions_def
    by (cases "m_edns m"; cases "m_edns m'") (simp_all add: edns_key_def)
  moreover from h have "ecs_cache_key m = ecs_cache_key m'"
    by (simp add: same_dimensions_def ecs_cache_key_eq_iff)
  ultimately show "question_key L m q = question_key L m' q'"
    using h by (simp add: question_key_bars same_dimensions_def)
qed

section \<open>Keys of other messages\<close>

lemma hex_byte_inj: "hex_byte a = hex_byte b \<Longrightarrow> a = b"
proof -
  have v: "digits_val 16 0 (hex_byte w) = Some (unat w)" for w :: u8
    using digits_val_show_radix [of 16 "unat w" "Suc (unat w)"]
    by (simp add: hex_byte_def Let_def show_hex_def digit_val_def)
  assume "hex_byte a = hex_byte b"
  with v [of a] v [of b] have "unat a = unat b" by simp
  then show "a = b" by (rule unsigned_word_eqI)
qed

lemma length_hex_byte [simp]: "length (hex_byte b) = 2"
proof -
  have b: "unat b < 256"
    using unsigned_less [of b] by (simp add: word_less_nat_alt)
  have "length (show_hex n) = (if n < 16 then 1 else 2)" if "n < 256" for n
  proof (cases "n < 16")
    case True
    then show ?thesis by (simp add: show_hex_def Let_def)
  next
    case False
    then obtain f where f: "n = Suc f" by (cases n) auto
    have "n div 16 < 16" using that by (simp add: less_mult_imp_div_less)
    then have "length (show_radix n 16 (n div 16)) = 1" unfolding f by (simp add: Let_def)
    with False show ?thesis by (simp add: show_hex_def Let_def)
  qed
  from this [OF b] show ?thesis by (auto simp: hex_byte_def Let_def)
qed

lemma plain_hex_byte [simp]: "plain_text (hex_byte b)"
  by (simp add: hex_byte_def Let_def)

lemma plain_wire_key: "plain_text (wire_key w)"
  by (cases w) (auto simp: wire_key_def plain_text_def plain_hex_byte [unfolded plain_text_def])

lemma hex_tail_inj:
  "concat (map (\<lambda>b. '', '' @ hex_byte b) v) = concat (map (\<lambda>b. '', '' @ hex_byte b) w) \<Longrightarrow> v = w"
proof (induction v arbitrary: w)
  case Nil
  then show ?case by (cases w) auto
next
  case (Cons b v)
  from Cons.prems obtain c u where w: "w = c # u" by (cases w) auto
  with Cons.prems have "hex_byte b = hex_byte c"
    "concat (map (\<lambda>b. '', '' @ hex_byte b) v) = concat (map (\<lambda>b. '', '' @ hex_byte b) u)"
    by (simp_all add: append_eq_append_conv)
  with Cons.IH w hex_byte_inj show ?case by blast
qed

lemma wire_key_tail: "w \<noteq> [] \<Longrightarrow> '', '' @ drop 6 (wire_key w) =
    concat (map (\<lambda>b. '', '' @ hex_byte b) w) @ '']''"
  by (cases w) (simp_all add: wire_key_def comp_def)

lemma wire_key_Nil_iff: "wire_key w = wire_key [] \<longleftrightarrow> w = []"
proof (cases w)
  case (Cons b v)
  have "length (wire_key w) \<noteq> length (wire_key [])"
    using Cons by (simp add: wire_key_def)
  then show ?thesis using Cons by auto
qed simp

lemma wire_key_inj: "wire_key v = wire_key w \<Longrightarrow> v = w"
proof (cases "v = [] \<or> w = []")
  case True
  assume "wire_key v = wire_key w"
  with True wire_key_Nil_iff [of v] wire_key_Nil_iff [of w] show ?thesis by auto
next
  case False
  assume "wire_key v = wire_key w"
  with False wire_key_tail [of v] wire_key_tail [of w] show ?thesis by (auto intro: hex_tail_inj)
qed

lemma bar_in_question_key: "\<not> plain_text (question_key L m q)"
  by (simp add: question_key_bars bars_def)

section \<open>Separation\<close>

lemma key_of_cases:
  assumes "key_of L ev c = Some k"
  obtains (simple) q qs where "simple_query (c_query c)" "m_queries (c_query c) = q # qs"
      "k = question_key L (c_query c) q"
    | (wire) w where "\<not> simple_query (c_query c)"
      "dns_encode L ((c_query c)\<lparr>m_id := 0\<rparr>) = Inr w" "k = wire_key w"
  using assms by (auto simp: key_of_def Let_def split: if_splits sum.splits list.splits)

text \<open>C6. Two requests get the same cache key only if both are simple queries that agree on
  everything a cached answer depends on (name up to case and a final dot, type, class, the address
  and the prefix length of the client subnet, the RD, CD and AD flags, EDNS version and DO bit), or
  both are other messages with one and the same wire form up to the message id. In particular an
  answer is never shared between clients of different subnets or with different DNSSEC requests.\<close>

theorem cache_key_separates:
  assumes "debug_names L" "key_of L ev c = Some k" "key_of L ev' c' = Some k"
  shows "(\<exists>q q'. simple_query (c_query c) \<and> simple_query (c_query c')
            \<and> m_queries (c_query c) = [q] \<and> m_queries (c_query c') = [q']
            \<and> same_dimensions L (c_query c) q (c_query c') q')
      \<or> (\<exists>w. dns_encode L ((c_query c)\<lparr>m_id := 0\<rparr>) = Inr w
            \<and> dns_encode L ((c_query c')\<lparr>m_id := 0\<rparr>) = Inr w)"
proof -
  have single: "qs = []" if "simple_query m" "m_queries m = q # qs" for m :: "'a message" and q qs
    using that by (simp add: simple_query_def)
  show ?thesis
    using assms(2)
  proof (cases rule: key_of_cases)
    case (simple q qs)
    note s = this
    from assms(3) show ?thesis
    proof (cases rule: key_of_cases)
      case (simple q' qs')
      with s question_key_eq_iff [OF assms(1)] single show ?thesis by blast
    next
      case (wire w)
      with s bar_in_question_key plain_wire_key show ?thesis by metis
    qed
  next
    case (wire w)
    note s = this
    from assms(3) show ?thesis
    proof (cases rule: key_of_cases)
      case (simple q' qs')
      with s bar_in_question_key plain_wire_key show ?thesis by metis
    next
      case (wire w')
      with s show ?thesis using wire_key_inj by blast
    qed
  qed
qed

text \<open>The same question in upper case gets the same key.\<close>

definition shouted_ctx :: "string ctx" where
  "shouted_ctx = ctx_new 1 5 (demo_question\<lparr>m_id := 9,
     m_queries := [\<lparr>q_name = ''A.TEST'', q_type = RtA, q_class = ClassIN\<rparr>]\<rparr>) None PTcp"

lemma debug_names_demo: "debug_names demo_wire_lib"
  by (auto simp: debug_names_def demo_wire_lib_def demo_lib_def inj_def dest: show_word_inj)

lemma shouted_key: "key_of demo_wire_lib False shouted_ctx = Some demo_key"
proof -
  have "key_name demo_wire_lib \<lparr>q_name = ''A.TEST'', q_type = RtA, q_class = ClassIN\<rparr>
      = key_name demo_wire_lib (hd (m_queries demo_question))"
    by (simp add: key_name_def demo_wire_lib_def demo_lib_def name_ascii_def demo_question_def
        trim_end_matches_def trim_end_by_def to_ascii_lowercase_def ascii_lower_def char_of_def bit_0)
  then have "same_dimensions demo_wire_lib (c_query shouted_ctx) (hd (m_queries (c_query shouted_ctx)))
      demo_question (hd (m_queries demo_question))"
    by (simp add: same_dimensions_def shouted_ctx_def ctx_new_def demo_question_def message_new_def
        client_net_def ecs_of_def)
  then have "question_key demo_wire_lib (c_query shouted_ctx) (hd (m_queries (c_query shouted_ctx)))
      = demo_key"
    unfolding demo_key_def by (simp add: question_key_eq_iff [OF debug_names_demo])
  then show ?thesis
    by (simp add: key_of_def shouted_ctx_def ctx_new_def demo_question_def message_new_def
        cacheable_edns_def simple_query_def)
qed

lemma cache_key_separates_witness:
  "(\<exists>q q'. simple_query (c_query demo_ctx) \<and> simple_query (c_query shouted_ctx)
      \<and> m_queries (c_query demo_ctx) = [q] \<and> m_queries (c_query shouted_ctx) = [q']
      \<and> same_dimensions demo_wire_lib (c_query demo_ctx) q (c_query shouted_ctx) q')
    \<or> (\<exists>w. dns_encode demo_wire_lib ((c_query demo_ctx)\<lparr>m_id := 0\<rparr>) = Inr w
        \<and> dns_encode demo_wire_lib ((c_query shouted_ctx)\<lparr>m_id := 0\<rparr>) = Inr w)"
  by (rule cache_key_separates [OF debug_names_demo demo_key_of shouted_key])

end
