(* ===== verification/Provenance.thy ===== *)
theory Provenance
  imports Network Cache_Keys
begin

text \<open>
  Where the records of a reply come from, in each of its sections. \<open>sourced env qs r\<close> says that the record \<open>r\<close> may answer
  the question \<open>qs\<close>: an upstream sent it in reply to this question, the hosts table has it for the
  name, it is the alias of a redirect of the name, or it may answer the question a redirect makes of
  this one, or one that a cache does not tell from it; and what may answer keeps doing so with
  another TTL.

  Every operation of the pipeline and of the caches keeps answers sourced, with whatever other
  requests do in between, unless a redirect runs when there is a response already: then the response
  of one question ends up under another.
\<close>

section \<open>Sources\<close>

definition records :: "'n message \<Rightarrow> 'n rr list" where
  \<comment> \<open>every record of a message: answers, authority and additionals\<close>
  "records m = m_answers m @ m_name_servers m @ m_additionals m"

definition asked_name :: "'n lib \<Rightarrow> 'n query list \<Rightarrow> string" where
  "asked_name L qs = (case qs of [] \<Rightarrow> ''.'' | q # _ \<Rightarrow> nm_ascii L (q_name q))"

definition asked_type :: "'n query list \<Rightarrow> record_type" where
  "asked_type qs = (case qs of [] \<Rightarrow> RtA | q # _ \<Rightarrow> q_type q)"

definition redirects :: "'n env \<Rightarrow> 'n query \<Rightarrow> 'n \<Rightarrow> bool" where
  \<comment> \<open>specification: a redirect of the registry has a rule that turns the name into another\<close>
  "redirects env q n \<longleftrightarrow> (\<exists>tag rules f t. get_exec tag (en_reg env) = Inr (PlRedirect rules)
     \<and> (f, t) \<in> set rules \<and> n = nm_set_fqdn (en_lib env) t
     \<and> redirect_matches (to_ascii_lowercase (trim_end_matches (CHR ''.'') (nm_ascii (en_lib env) (q_name q)))) f)"

definition same_ask :: "'n lib \<Rightarrow> 'n message \<Rightarrow> 'n message \<Rightarrow> bool" where
  \<comment> \<open>specification: two queries that agree in everything an answer may depend on, or in their wire form\<close>
  "same_ask L m m' \<longleftrightarrow> (\<exists>q q'. m_queries m = [q] \<and> m_queries m' = [q'] \<and> same_dimensions L m q m' q')
     \<or> (\<exists>w. dns_encode L (m\<lparr>m_id := 0\<rparr>) = Inr w \<and> dns_encode L (m'\<lparr>m_id := 0\<rparr>) = Inr w)"

inductive sourced :: "'n env \<Rightarrow> 'n query list \<Rightarrow> 'n rr \<Rightarrow> bool" for env where
  upstream: "get_exec tag (en_reg env) = Inr (PlForward f) \<Longrightarrow> i < race_width f \<Longrightarrow>
    en_exchange env k t tag q i = (u, Inr m) \<Longrightarrow> r \<in> set (records m) \<Longrightarrow> sourced env (m_queries q) r"
| hosts: "get_exec tag (en_reg env) = Inr (PlHosts h) \<Longrightarrow>
    r \<in> set (hosts_lookup (en_lib env) h (asked_name (en_lib env) qs) (asked_type qs)) \<Longrightarrow> sourced env qs r"
| redirect: "redirects env q n \<Longrightarrow>
    sourced env (q # qs) ((record_cname (q_name q) ttl n)\<lparr>rr_class := q_class q\<rparr>)"
| rewritten: "redirects env q n \<Longrightarrow> sourced env (q\<lparr>q_name := n\<rparr> # qs) r \<Longrightarrow> sourced env (q # qs) r"
| cached: "same_ask (en_lib env) m m' \<Longrightarrow> sourced env (m_queries m) r \<Longrightarrow> sourced env (m_queries m') r"
| ttl: "sourced env qs r \<Longrightarrow> sourced env qs (r\<lparr>rr_ttl := t\<rparr>)"

lemma same_key_same_ask:
  assumes "debug_names L" "key_of L ev c = Some k" "key_of L ev' c' = Some k"
  shows "same_ask L (c_query c) (c_query c')"
  using assms(2)
proof (cases rule: key_of_cases)
  case (simple q qs)
  note s = this
  from assms(3) show ?thesis
  proof (cases rule: key_of_cases)
    case (simple q' qs')
    with s question_key_eq_iff [OF assms(1)] have "same_dimensions L (c_query c) q (c_query c') q'" by metis
    with s simple show ?thesis by (auto simp: same_ask_def simple_query_def)
  next
    case (wire w)
    with s bar_in_question_key plain_wire_key show ?thesis by metis
  qed
next
  case (wire w)
  note s = this
  from assms(3) show ?thesis
  proof (cases rule: key_of_cases)
    case (simple q' qs')
    with s bar_in_question_key plain_wire_key show ?thesis by metis
  next
    case (wire w')
    with s show ?thesis using wire_key_inj [of w w'] by (auto simp: same_ask_def)
  qed
qed

section \<open>Rewrites lead from question to question\<close>

fun route :: "'n env \<Rightarrow> 'n query list \<Rightarrow> ('n \<times> 'n) list \<Rightarrow> 'n query list \<Rightarrow> bool" where
  "route env qs [] qs' \<longleftrightarrow> qs' = qs"
| "route env [] (p # ps) qs' \<longleftrightarrow> False"
| "route env (q # qs) ((f, n) # ps) qs' \<longleftrightarrow>
     f = q_name q \<and> redirects env q n \<and> route env (q\<lparr>q_name := n\<rparr> # qs) ps qs'"

lemma route_append:
  "route env a ps b \<Longrightarrow> route env b ps' c \<Longrightarrow> route env a (ps @ ps') c"
  by (induction env a ps b rule: route.induct) auto

lemma route_sourced: "route env a ps b \<Longrightarrow> sourced env b r \<Longrightarrow> sourced env a r"
  by (induction env a ps b rule: route.induct) (auto intro: sourced.rewritten)

lemma route_class:
  "route env a ps b \<Longrightarrow> ps \<noteq> [] \<Longrightarrow> \<exists>q qs. a = q # qs"
  by (cases "(env, a, ps, b)" rule: route.cases) auto

lemma route_alias:
  "route env (q # qs) ps b \<Longrightarrow> (f, n) \<in> set ps \<Longrightarrow>
     sourced env (q # qs) ((record_cname f ttl n)\<lparr>rr_class := q_class q\<rparr>)"
proof (induction ps arbitrary: q)
  case (Cons p ps)
  obtain f0 n0 where p: "p = (f0, n0)" by (cases p)
  with Cons.prems(1) have *: "f0 = q_name q" "redirects env q n0" "route env (q\<lparr>q_name := n0\<rparr> # qs) ps b"
    by simp_all
  show ?case
  proof (cases "(f, n) = p")
    case True
    with p * show ?thesis by (auto intro: sourced.redirect)
  next
    case False
    with Cons.prems(2) have "(f, n) \<in> set ps" by simp
    from Cons.IH [OF *(3) this] show ?thesis by (auto intro: sourced.rewritten [OF *(2)])
  qed
qed simp

definition follows :: "'n env \<Rightarrow> 'n ctx \<Rightarrow> 'n ctx \<Rightarrow> bool" where
  "follows env c c' \<longleftrightarrow> (\<exists>ps. c_rewrites c' = c_rewrites c @ ps
     \<and> route env (m_queries (c_query c)) ps (m_queries (c_query c')))"

definition sound :: "'n env \<Rightarrow> 'n ctx \<Rightarrow> bool" where
  \<comment> \<open>the records of the response may answer the question as it is now\<close>
  "sound env c \<longleftrightarrow> (\<forall>m r. c_response c = Some m \<longrightarrow> r \<in> set (records m) \<longrightarrow>
     sourced env (m_queries (c_query c)) r)"

definition fair :: "'n env \<Rightarrow> 'n ctx \<Rightarrow> 'n ctx \<Rightarrow> bool" where
  "fair env c c' \<longleftrightarrow> follows env c c' \<and> sound env c'"

lemma follows_same:
  "c_rewrites c' = c_rewrites c \<Longrightarrow> m_queries (c_query c') = m_queries (c_query c) \<Longrightarrow> follows env c c'"
  by (auto simp: follows_def intro: exI [of _ "[]"])

lemma follows_trans: "follows env a b \<Longrightarrow> follows env b c \<Longrightarrow> follows env a c"
  by (auto simp: follows_def intro: route_append)

lemma fair_refl: "sound env c \<Longrightarrow> fair env c c"
  by (simp add: fair_def follows_same)

lemma fair_trans: "fair env a b \<Longrightarrow> fair env b c \<Longrightarrow> fair env a c"
  by (auto simp: fair_def intro: follows_trans)

lemma fair_sound: "fair env c c' \<Longrightarrow> sound env c'"
  by (simp add: fair_def)

lemma fair_silent: "c_response c' = None \<Longrightarrow> follows env c c' \<Longrightarrow> fair env c c'"
  by (simp add: fair_def sound_def)

lemma fair_keep:
  assumes "sound env c" "c_rewrites c' = c_rewrites c" "m_queries (c_query c') = m_queries (c_query c)"
    and "\<And>m' r. c_response c' = Some m' \<Longrightarrow> r \<in> set (records m') \<Longrightarrow>
      \<exists>m r0 t. c_response c = Some m \<and> r0 \<in> set (records m) \<and> r = r0\<lparr>rr_ttl := t\<rparr>"
  shows "fair env c c'"
  using assms by (fastforce simp: fair_def sound_def intro: follows_same sourced.ttl)

lemma ttl_same: "r\<lparr>rr_ttl := rr_ttl r\<rparr> = r"
  by simp

lemma fair_frame:
  assumes "sound env c" "c_rewrites c' = c_rewrites c" "m_queries (c_query c') = m_queries (c_query c)"
    and "c_response c' = c_response c"
  shows "fair env c c'"
  by (rule fair_keep [OF assms(1-3)]) (metis assms(4) ttl_same)

lemma fair_answer:
  assumes "c_rewrites c' = c_rewrites c" "m_queries (c_query c') = m_queries (c_query c)"
    and "\<And>m r. c_response c' = Some m \<Longrightarrow> r \<in> set (records m) \<Longrightarrow> sourced env (m_queries (c_query c)) r"
  shows "fair env c c'"
  using assms by (simp add: fair_def sound_def follows_same)

section \<open>Every plugin is fair\<close>

lemma push_trace_query [simp]:
  "c_query (push_trace now p e d c) = c_query c" "c_response (push_trace now p e d c) = c_response c"
  by (simp_all add: push_trace_def)

lemma fair_trace: "sound env c \<Longrightarrow> fair env c (push_trace now p e d c)"
  by (rule fair_frame) simp_all

lemma fair_reject: "fair env c (reject rc c)"
  by (rule fair_answer)
    (auto simp: reject_def set_response_def make_response_def reply_skeleton_def message_new_def records_def)

lemma res_map_clamped:
  "res_map (clamp_rr lo hi) rs = Inr rs' \<Longrightarrow> r \<in> set rs' \<Longrightarrow> \<exists>r0 \<in> set rs. \<exists>t. r = r0\<lparr>rr_ttl := t\<rparr>"
  by (induction rs arbitrary: rs') (fastforce simp: clamp_rr_def split: option.splits)+

lemma fair_ttl_clamp: "sound env c \<Longrightarrow> apply_ttl_clamp lo hi c = Inr c' \<Longrightarrow> fair env c c'"
proof (cases "c_response c")
  case None
  assume "sound env c" "apply_ttl_clamp lo hi c = Inr c'"
  with None show ?thesis by (simp add: apply_ttl_clamp_def fair_refl)
next
  case (Some m)
  assume s: "sound env c" and "apply_ttl_clamp lo hi c = Inr c'"
  with Some obtain an ns where an: "res_map (clamp_rr lo hi) (m_answers m) = Inr an"
    "res_map (clamp_rr lo hi) (m_name_servers m) = Inr ns"
    "c' = c\<lparr>c_response := Some (m\<lparr>m_answers := an, m_name_servers := ns\<rparr>)\<rparr>"
    by (auto simp: apply_ttl_clamp_def)
  show ?thesis
  proof (rule fair_keep [OF s])
    fix m' r
    assume "c_response c' = Some m'" "r \<in> set (records m')"
    then have "r \<in> set an \<or> r \<in> set ns \<or> r \<in> set (m_additionals m)" by (auto simp: an(3) records_def)
    then have "\<exists>r0 \<in> set (records m). \<exists>t. r = r0\<lparr>rr_ttl := t\<rparr>"
    proof (elim disjE)
      assume "r \<in> set an"
      from res_map_clamped [OF an(1) this] show ?thesis by (auto simp: records_def)
    next
      assume "r \<in> set ns"
      from res_map_clamped [OF an(2) this] show ?thesis by (auto simp: records_def)
    next
      assume "r \<in> set (m_additionals m)"
      then have "r \<in> set (records m)" by (simp add: records_def)
      with ttl_same [of r] show ?thesis by metis
    qed
    with Some show "\<exists>m r0 t. c_response c = Some m \<and> r0 \<in> set (records m) \<and> r = r0\<lparr>rr_ttl := t\<rparr>" by blast
  qed (simp_all add: an(3))
qed

lemma fair_filter: "sound env c \<Longrightarrow> fair env c (filter_answers keep c)"
proof (cases "c_response c")
  case (Some m)
  assume s: "sound env c"
  show ?thesis
    by (rule fair_answer) (use s Some in \<open>auto simp: filter_answers_def sound_def records_def\<close>)
qed (simp add: filter_answers_def fair_refl)

lemma fair_builtin:
  assumes "sound env c" "builtin_apply b c = (a, c')"
  shows "fair env c c'"
proof (cases b)
  case (BTtl lo hi)
  with assms show ?thesis
    by (auto simp: fair_refl split: if_splits sum.splits intro: fair_ttl_clamp)
next
  case BDropResp
  with assms show ?thesis by (auto simp: drop_response_def intro!: fair_silent follows_same)
next
  case (BMark m)
  with assms show ?thesis by (auto simp: add_mark_def intro: fair_frame [OF assms(1)])
next
  case BNoEcs
  with assms show ?thesis by (auto simp: remove_ecs_def intro: fair_frame [OF assms(1)])
qed (use assms in \<open>auto simp: fair_refl fair_reject prefer_ipv4_def prefer_ipv6_def fair_filter\<close>)

lemma find_SomeD: "find P xs = Some x \<Longrightarrow> x \<in> set xs \<and> P x"
  by (induction xs) (auto split: if_splits)

lemma fair_redirect:
  assumes "get_exec tag (en_reg env) = Inr (PlRedirect rules)" "c_response c = None"
  shows "fair env c (redirect_exec (en_lib env) now rules c)"
proof -
  let ?L = "en_lib env"
  let ?qn = "to_ascii_lowercase (trim_end_matches (CHR ''.'') (qname_str ?L c))"
  have "follows env c (rewrite_name ?L t c)" if "(f, t) \<in> set rules" "redirect_matches ?qn f" for f t
  proof (cases "m_queries (c_query c)")
    case Nil
    then show ?thesis by (simp add: rewrite_name_def Let_def follows_same)
  next
    case (Cons q qs)
    then have "redirects env q (nm_set_fqdn ?L t)"
      using assms(1) that by (auto simp: redirects_def qname_str_def ctx_qname_def)
    with Cons have "route env (m_queries (c_query c)) [(q_name q, nm_set_fqdn ?L t)]
        (q\<lparr>q_name := nm_set_fqdn ?L t\<rparr> # qs)" by simp
    with Cons show ?thesis
      by (auto simp: rewrite_name_def Let_def follows_same) (auto simp: follows_def)
  qed
  moreover have "c_response (rewrite_name ?L t c) = None" for t
    using assms(2) by (simp add: rewrite_name_def Let_def split: list.split)
  moreover have "c_rewrites (push_trace now p e d x) = c_rewrites x" for p e d and x :: "'a ctx" by simp
  ultimately show ?thesis
    using assms(2) fair_silent [OF assms(2) follows_same [OF refl refl]]
    by (auto simp: redirect_exec_def Let_def follows_def dest!: find_SomeD intro!: fair_silent split: option.split)
qed

lemma fair_hosts:
  assumes "get_exec tag (en_reg env) = Inr (PlHosts h)" "sound env c"
  shows "fair env c (hosts_exec (en_lib env) now h c)"
proof -
  let ?L = "en_lib env" and ?qs = "m_queries (c_query c)"
  have n: "asked_name ?L ?qs = qname_str ?L c" "asked_type ?qs = ctx_qtype c"
    by (simp_all add: asked_name_def asked_type_def qname_str_def ctx_qname_def ctx_qtype_def split: list.split)
  have r: "sourced env ?qs r" if "r \<in> set (hosts_lookup ?L h (qname_str ?L c) (ctx_qtype c))" for r
    using sourced.hosts [OF assms(1), of r ?qs] that n by simp
  have set: "fair env c (set_response (build_hosts_response (c_query c) rs) (push_trace now p e d c))"
    if "\<And>r. r \<in> set rs \<Longrightarrow> sourced env ?qs r" for rs p e d
    by (rule fair_answer) (use that in \<open>auto simp: set_response_def build_hosts_response_def reply_skeleton_def message_new_def records_def\<close>)
  show ?thesis
    using set [OF r] set [of "[]"] fair_refl [OF assms(2)] by (simp add: hosts_exec_def Let_def)
qed

lemma ecs_queries [simp]: "m_queries (set_ecs cs m) = m_queries m" "m_queries (remove_ecs m) = m_queries m"
  by (simp_all add: set_ecs_def remove_ecs_def Let_def)

lemma fair_ecs: "sound env c \<Longrightarrow> fair env c (ecs_exec L now p c)"
  by (rule fair_frame) (auto simp: ecs_exec_def Let_def split: option.split prod.split)

lemma fair_no_ecs: "sound env c \<Longrightarrow> fair env c (no_ecs_exec now t c)"
  by (rule fair_frame) (auto simp: no_ecs_exec_def)

lemma fair_forward:
  assumes "get_exec tag (en_reg env) = Inr (PlForward f)" "sound env c"
  shows "fair env c (run_ctx (run_forward env f d tag c w))"
proof -
  let ?ans = "en_exchange env (w_tick w) (w_now w) tag (c_query c)"
  let ?r = "forward_exec f d (w_now w) ?ans c (w_metrics w)"
  have s: "same_question c (fr_ctx ?r)" by (rule same_question_forward)
  have "fair env c (fr_ctx ?r)"
  proof (cases "c_response (fr_ctx ?r) = c_response c")
    case True
    with s show ?thesis by (auto simp: same_question_def intro: fair_frame [OF assms(2)])
  next
    case False
    then have "took_reply (race_width f) ?ans c (fr_ctx ?r)"
      using forward_cases [of f d "w_now w" ?ans c "w_metrics w"] by (auto simp: Let_def)
    with False obtain i t m where m: "i < race_width f" "?ans i = (t, Inr m)"
      "c_response (fr_ctx ?r) = Some (m\<lparr>m_id := m_id (c_query c), m_type := MtResponse\<rparr>)"
      by (auto simp: took_reply_def)
    show ?thesis
      by (rule fair_answer)
        (use s m sourced.upstream [OF assms(1) m(1,2)] in \<open>auto simp: same_question_def records_def\<close>)
  qed
  then show ?thesis by (simp add: run_forward_def Let_def)
qed

section \<open>Caches\<close>

definition cache_sound :: "'n env \<Rightarrow> cache \<Rightarrow> bool" where
  \<comment> \<open>what can be read for a question may answer it\<close>
  "cache_sound env ca \<longleftrightarrow> cache_inv ca \<and> (\<forall>k e m ev c r. cache_peek k ca = Some e \<longrightarrow>
     wire_decode (en_lib env) (e_wire e) = Some m \<longrightarrow> key_of (en_lib env) ev c = Some k \<longrightarrow>
     r \<in> set (records m) \<longrightarrow> sourced env (m_queries (c_query c)) r)"

definition caches_sound :: "'n env \<Rightarrow> 'n world \<Rightarrow> bool" where
  "caches_sound env w \<longleftrightarrow> (\<forall>(t, ca) \<in> set (w_caches w). cache_sound env ca)"

definition wire_faithful :: "'n lib \<Rightarrow> bool" where
  \<comment> \<open>a law of the wire format: a message that was encoded is read with the same records\<close>
  "wire_faithful L \<longleftrightarrow> (\<forall>m w m'. wire_encode L m = Some w \<longrightarrow> wire_decode L w = Some m' \<longrightarrow>
     records m' = records m)"

lemma cache_sound_touch: "cache_sound env ca \<Longrightarrow> cache_sound env (cache_touch k ca)"
  by (simp add: cache_sound_def cache_entries.inv_touch cache_entries.peek_touch)

lemma cache_sound_kick: "cache_sound env ca \<Longrightarrow> cache_sound env (snd (kick_refresh i now c key ca))"
  by (simp add: kick_refresh_def cache_sound_def split: option.split)

lemma aged_rr: "\<exists>t. age_rr s r = r\<lparr>rr_ttl := t\<rparr>"
  by (metis age_rr_def ttl_same)

lemma fair_cache:
  assumes "cache_exec (en_lib env) clk i c ca mx = (c', ca', mx', job)" "sound env c" "cache_sound env ca"
  shows "fair env c c' \<and> cache_sound env ca'"
proof -
  have hit: "fair env c ((set_response (rebind_response r (c_query c)) (push_trace now p ev d c))\<lparr>c_from_cache := True\<rparr>)"
    if "\<And>x. x \<in> set (records r) \<Longrightarrow> sourced env (m_queries (c_query c)) x" for r now p ev d
    by (rule fair_answer) (use that in \<open>auto simp: set_response_def rebind_response_def records_def\<close>)
  have read: "sourced env (m_queries (c_query c)) x"
    if "key_of (en_lib env) (ca_everything ca) c = Some k" "cache_decoded (en_lib env) (clk 0) k ca = Some (m, e)"
      "x \<in> set (records m)" for k m e x
    using assms(3) that unfolding cache_sound_def cache_decoded_Some by blast
  from assms(1) show ?thesis
  proof (cases rule: cache_exec_cases)
    case uncacheable
    with assms show ?thesis by (simp add: fair_refl)
  next
    case (skipped k)
    with assms show ?thesis by (simp add: fair_trace)
  next
    case (miss k)
    with assms show ?thesis by (simp add: fair_trace cache_sound_touch)
  next
    case (lazy k m e c1)
    have "sourced env (m_queries (c_query c)) x" if "x \<in> set (records (set_all_ttl (ca_lazy_reply ca) m))" for x
      using that read [OF lazy(1,3)] by (auto simp: set_all_ttl_def records_def intro: sourced.ttl)
    from hit [OF this] lazy show ?thesis
      using cache_sound_kick [OF cache_sound_touch [OF assms(3)]] by simp
  next
    case (fresh k m e c1)
    have "sourced env (m_queries (c_query c)) x" if "x \<in> set (records (subtract_ttl n m))" for x n
    proof -
      from that obtain y where y: "y \<in> set (records m)" "x = age_rr n y"
        by (auto simp: subtract_ttl_def records_def)
      obtain t where "age_rr n y = y\<lparr>rr_ttl := t\<rparr>" using aged_rr by blast
      with y sourced.ttl [OF read [OF fresh(1,3) y(1)], of t] show ?thesis by simp
    qed
    from hit [OF this] fresh show ?thesis
      using cache_sound_touch [OF assms(3)] by simp
  qed
qed

end
