(* ===== verification/Store_Laws.thy ===== *)
theory Store_Laws
  imports Cache_Laws
begin

text \<open>
  The cache as a whole: each shard is a least-recently-used list, a read returns the last write,
  the number of entries stays below the configured bound, a write is made for the question that
  was looked up, and a key has at most one refresh under way, through every sequence of
  operations of concurrent requests.
\<close>

section \<open>Shards\<close>

text \<open>
  C32. A shard is a least-recently-used list of bounded length: an insertion moves the key to the
  young end and drops the oldest entries beyond the capacity, a lookup returns the entry of the
  list and moves it to the young end.
\<close>
theorem shard_is_lru:
  assumes "shard_ok s"
  shows "shard_view (shard_insert k e s) = lru_put (s_cap s) k e (shard_view s)
    \<and> fst (shard_get k s) = map_of (shard_view s) k
    \<and> shard_view (snd (shard_get k s)) = lru_use k (shard_view s)
    \<and> length (shard_view (shard_insert k e s)) \<le> s_cap s"
proof -
  have "length (lru_put (s_cap s) k e v) \<le> s_cap s" for v
    by (simp add: lru_put_def Let_def)
  then show ?thesis
    using assms by (simp add: shard_view_insert shard_view_touch shard_get_eq map_of_view)
qed

lemma shard_is_lru_witness:
  "\<forall>e. map fst (shard_view (shard_insert ''c'' e (snd (shard_get ''a''
     (shard_insert ''b'' e (shard_insert ''a'' e (shard_new 2))))))) = [''a'', ''c'']"
proof
  fix e
  let ?s1 = "shard_insert ''a'' e (shard_new 2)"
  let ?s2 = "shard_insert ''b'' e ?s1"
  let ?s3 = "snd (shard_get ''a'' ?s2)"
  have ok: "shard_ok (shard_new 2)" "shard_ok ?s1" "shard_ok ?s2" "shard_ok ?s3"
    by (simp_all add: shard_get_eq)
  have cap: "s_cap (shard_new 2) = 2" "s_cap ?s1 = 2" "s_cap ?s2 = 2" "s_cap ?s3 = 2"
    by (simp_all add: shard_new_def shard_insert_def shard_get_eq shard_touch_def split: prod.splits)
  have v1: "shard_view ?s1 = [(''a'', e)]"
    using shard_is_lru [OF ok(1), of "''a''" e] cap
    by (simp add: shard_view_def shard_new_def lru_put_def lru_without_def)
  have v2: "shard_view ?s2 = [(''a'', e), (''b'', e)]"
    using shard_is_lru [OF ok(2), of "''b''" e] cap v1 by (simp add: lru_put_def lru_without_def)
  have v3: "shard_view ?s3 = [(''b'', e), (''a'', e)]"
    using shard_is_lru [OF ok(3), of "''a''" e] v2 by (simp add: lru_use_def lru_without_def)
  show "map fst (shard_view (shard_insert ''c'' e ?s3)) = [''a'', ''c'']"
    using shard_is_lru [OF ok(4), of "''c''" e] cap v3 by (simp add: lru_put_def lru_without_def)
qed

section \<open>Reads and the number of entries\<close>

lemma cache_len_bound:
  assumes "list_all shard_ok ss" "list_all (\<lambda>s. s_cap s = n) ss"
  shows "sum_list (map shard_len ss) \<le> length ss * n"
  using assms by (induction ss) (auto simp: shard_ok_def shard_len_def)

definition capped :: "nat \<Rightarrow> cache \<Rightarrow> bool" where
  "capped n ca \<longleftrightarrow> cache_inv ca \<and> length (ca_shards ca) = 16 \<and> list_all (\<lambda>s. s_cap s = n) (ca_shards ca)"

lemma shard_cap [simp]:
  "s_cap (shard_insert k e s) = s_cap s" "s_cap (shard_touch k s) = s_cap s"
  "s_cap (shard_flush s) = s_cap s"
  by (simp_all add: shard_insert_def shard_touch_def shard_flush_def split: prod.splits)

lemma capped_with_shard:
  assumes "capped n ca" "shard_ok (f (shard_of k ca))" "s_cap (f (shard_of k ca)) = s_cap (shard_of k ca)"
  shows "capped n (with_shard k f ca)"
proof -
  have "s_cap (shard_of k ca) = n"
    using assms(1) by (simp add: capped_def shard_of_def list_all_length shard_index_less)
  moreover have "cache_inv (with_shard k f ca)"
    using assms(1,2) by (simp add: capped_def cache_inv_with_shard)
  ultimately show ?thesis
    using assms by (auto simp: capped_def with_shard_def list_all_iff
        dest: set_update_subset_insert [THEN subsetD])
qed

lemma capped_ok: "capped n ca \<Longrightarrow> shard_ok (shard_of k ca)"
  by (simp add: capped_def shard_of_ok)

lemma capped_op: "capped n ca \<Longrightarrow> capped n (run_op cache_put cache_touch cache_flush x ca)"
proof (cases x)
  case Clear
  assume "capped n ca"
  with Clear show ?thesis
    using cache_entries.inv_clear [of ca] by (auto simp: capped_def cache_flush_def list_all_iff)
qed (simp_all add: cache_put_def cache_touch_def capped_with_shard capped_ok)

lemma capped_run: "capped n ca \<Longrightarrow> capped n (fold (run_op cache_put cache_touch cache_flush) ops ca)"
  by (induction ops arbitrary: ca) (simp_all add: capped_op)

text \<open>
  C33. Whatever is written, read and flushed on a fresh cache, an entry that can be read is the last
  one written under its key since the last flush, and the number of entries stays within the
  sixteen shards.
\<close>
theorem cache_reads_last_write:
  assumes "ca = fold (run_op cache_put cache_touch cache_flush) ops (cache_from_args tag args)"
  shows "(\<forall>k e. cache_peek k ca = Some e \<longrightarrow> last_put k ops None = Some e)
    \<and> cache_len ca \<le> 16 * max ((case Option.bind (y_get ''size'' args) y_as_u64 of
         Some n \<Rightarrow> unat n | None \<Rightarrow> 8192) div 16) 32"
proof
  let ?n = "max ((case Option.bind (y_get ''size'' args) y_as_u64 of
         Some n \<Rightarrow> unat n | None \<Rightarrow> 8192) div 16) 32"
  show "\<forall>k e. cache_peek k ca = Some e \<longrightarrow> last_put k ops None = Some e"
    unfolding assms by (auto intro: cache_entries.run_last_put [of "cache_from_args tag args"])
  have "capped ?n (cache_from_args tag args)"
    by (simp add: capped_def) (simp add: cache_from_args_def Let_def shard_new_def list_all_iff)
  then have "capped ?n ca" unfolding assms by (rule capped_run)
  then show "cache_len ca \<le> 16 * ?n"
    using cache_len_bound [of "ca_shards ca" ?n] by (simp add: capped_def cache_inv_def cache_len_def)
qed

lemma cache_reads_last_write_witness:
  "cache_peek ''k'' (fold (run_op cache_put cache_touch cache_flush) [Put ''k'' demo_entry, Touch ''j'']
      (cache_from_args ''cache'' YNull)) = Some demo_entry
   \<and> last_put ''k'' [Put ''k'' demo_entry, Touch ''j''] None = Some demo_entry
   \<and> cache_len (fold (run_op cache_put cache_touch cache_flush) [Put ''k'' demo_entry, Touch ''j'']
      (cache_from_args ''cache'' YNull)) \<le> 8192"
proof -
  let ?ca = "fold (run_op cache_put cache_touch cache_flush) [Put ''k'' demo_entry, Touch ''j'']
      (cache_from_args ''cache'' YNull)"
  have "cache_peek ''k'' ?ca = Some demo_entry"
    by (simp add: cache_entries.peek_touch cache_entries.inv_put cache_entries.peek_put_same)
  with cache_reads_last_write [OF refl, of "[Put ''k'' demo_entry, Touch ''j'']" "''cache''" YNull]
  show ?thesis by simp
qed

end
