(* ===== verification/Refresh_Laws.thy ===== *)
theory Refresh_Laws
  imports Store_Laws
begin

text \<open>
  Concurrent use of one cache as a step relation: plugin steps of many requests, their writes,
  flushes and the ends of refresh tasks, in any order. A key has at most one refresh under way,
  the cache keeps its invariant, and what is written answers the question that was looked up.
\<close>

section \<open>Steps of a shared cache\<close>

text \<open>
  The state is the cache with the keys of the refresh tasks that were spawned and have not ended.
  The plugin step of a request is one step, \<open>exec\<close>; as it takes the lock of a shard first and that of
  the keys being refreshed later, its two parts are steps of their own too, \<open>look\<close> and \<open>kick\<close>, between
  which those of other requests may come.
\<close>

inductive cache_step :: "'n lib \<Rightarrow> cache \<times> string list \<Rightarrow> cache \<times> string list \<Rightarrow> bool" for L where
  exec: "cache_exec L clk i c ca mx = (c', ca', mx', job) \<Longrightarrow>
    cache_step L (ca, js) (ca', js @ (case job of None \<Rightarrow> [] | Some j \<Rightarrow> [rj_key j]))"
| store: "cache_store_lookup L now c l ca = Some ca' \<Longrightarrow> cache_step L (ca, js) (ca', js)"
| flush: "cache_step L (ca, js) (cache_flush ca, js)"
| bind: "cache_step L (ca, js) (bind_refresh entry ca, js)"
| finish: "cache_step L (ca, js @ k # js') (refresh_done k ca, js @ js')"
| look: "cache_step L (ca, js) (snd (cache_lookup now k ca), js)"
| kick: "kick_refresh i now (c :: 'n ctx) k ca = (job, ca') \<Longrightarrow>
    cache_step L (ca, js) (ca', js @ (case job of None \<Rightarrow> [] | Some j \<Rightarrow> [rj_key j]))"

inductive cache_reach :: "'n lib \<Rightarrow> string \<Rightarrow> yaml \<Rightarrow> cache \<times> string list \<Rightarrow> bool" for L tag args where
  start: "cache_reach L tag args (cache_from_args tag args, [])"
| step: "cache_reach L tag args s \<Longrightarrow> cache_step L s s' \<Longrightarrow> cache_reach L tag args s'"

inductive_cases cache_stepE: "cache_step L (ca, js) s'"

definition single_flight :: "cache \<Rightarrow> string list \<Rightarrow> bool" where
  "single_flight ca js \<longleftrightarrow> distinct js \<and> set js = ca_inflight ca"

lemma inflight_store:
  "cache_store_lookup L now c l ca = Some ca' \<Longrightarrow> ca_inflight ca' = ca_inflight ca"
  by (auto simp: cache_store_lookup_def dest!: cache_store_cases [unfolded Let_def]
      split: if_splits option.splits)

lemma kick_refresh_flight:
  assumes "kick_refresh i now c k ca = (job, ca')"
  shows "case job of
      None \<Rightarrow> ca' = ca
    | Some j \<Rightarrow> rj_key j = k \<and> k \<notin> ca_inflight ca \<and> ca_inflight ca' = insert k (ca_inflight ca)"
  using assms by (auto simp: kick_refresh_def split: if_splits option.splits)

lemma kick_refresh_peek: "cache_peek k' (snd (kick_refresh i now c k ca)) = cache_peek k' ca"
  by (simp add: kick_refresh_def split: option.split)

lemma single_flight_kick:
  assumes "kick_refresh i now c k ca = (job, ca')" "single_flight ca js"
  shows "single_flight ca' (js @ (case job of None \<Rightarrow> [] | Some j \<Rightarrow> [rj_key j]))"
  using kick_refresh_flight [OF assms(1)] assms(2) by (cases job) (auto simp: single_flight_def)

lemma single_flight_exec:
  assumes "cache_exec L clk i c ca mx = (c', ca', mx', job)" "single_flight ca js"
  shows "single_flight ca' (js @ (case job of None \<Rightarrow> [] | Some j \<Rightarrow> [rj_key j]))"
  using assms(1)
proof (cases rule: cache_exec_cases)
  case (lazy k m e c1)
  obtain j ca2 where kick: "kick_refresh i (clk 3) c1 k (cache_touch k ca) = (j, ca2)" by (metis prod.exhaust)
  have "single_flight (cache_touch k ca) js" using assms(2) by (simp add: single_flight_def)
  from single_flight_kick [OF kick this] lazy kick show ?thesis by simp
qed (use assms(2) in \<open>simp_all add: single_flight_def\<close>)

lemma flight_step:
  "cache_step L (ca, js) (ca', js') \<Longrightarrow> single_flight ca js \<Longrightarrow> single_flight ca' js'"
proof (erule cache_stepE, goal_cases)
  case 1 then show ?case using single_flight_exec by fastforce
next
  case 2 then show ?case by (simp add: single_flight_def inflight_store)
next
  case 3 then show ?case by (simp add: single_flight_def cache_flush_def)
next
  case 4 then show ?case by (simp add: single_flight_def bind_refresh_def split: option.split)
next
  case 5 then show ?case by (auto simp: single_flight_def refresh_done_def)
next
  case 6 then show ?case by (simp add: single_flight_def cache_lookup_eq)
next
  case 7 then show ?case using single_flight_kick by fastforce
qed

lemma cache_ok_kicked: "cache_ok L ca \<Longrightarrow> kick_refresh i now c k ca = (job, ca') \<Longrightarrow> cache_ok L ca'"
  by (metis cache_ok_kick snd_conv)

lemma ok_step: "cache_step L (ca, js) (ca', js') \<Longrightarrow> cache_ok L ca \<Longrightarrow> cache_ok L ca'"
  by (erule cache_stepE) (auto intro: cache_steps cache_ok_kicked)

text \<open>
  C16. In every state a fresh cache can reach through steps of concurrent requests, whole plugin steps or
  their two locked parts with others in between, through writes, flushes and ends of refreshes, every readable
  entry was made of a storable message with the deadlines that message gives it, no key has two
  refresh tasks, and a key is marked as being refreshed exactly while its task is under way.
\<close>
theorem cache_reachable_ok:
  assumes "cache_reach L tag args (ca, js)"
  shows "cache_ok L ca \<and> distinct js \<and> ca_inflight ca = set js"
proof -
  have "cache_ok L ca \<and> single_flight ca js"
    using assms
  proof (induction "(ca, js)" arbitrary: ca js rule: cache_reach.induct)
    case start
    show ?case by (simp add: cache_ok_new) (simp add: single_flight_def cache_from_args_def Let_def)
  next
    case (step s)
    obtain ca0 js0 where s: "s = (ca0, js0)" by (cases s)
    have "cache_ok L ca0 \<and> single_flight ca0 js0" by (rule step.hyps(2) [OF s])
    with step.hyps(3) s show ?case by (simp add: ok_step flight_step)
  qed
  then show ?thesis by (simp add: single_flight_def)
qed

section \<open>Lazy hits\<close>

text \<open>
  C31. A hit in the lazy window is answered at once from the cache and starts a refresh, unless one
  for its key is under way or the cache is not bound to a runtime; the job skips the caches and
  enters the pipeline where the request did.
\<close>
theorem lazy_hit_refreshes:
  assumes "key_of L (ca_everything ca) c = Some k" "\<not> c_skip_cache c"
    and "cache_decoded L (clk 0) k ca = Some (m, e)" "is_lazy (clk 0) ca e"
    and "ca_refresh ca = Some entry"
    and "cache_exec L clk i c ca mx = (c', ca', mx', job)"
  shows "c_from_cache c' \<and> has_resp c' \<and> k \<in> ca_inflight ca'
    \<and> (if k \<in> ca_inflight ca then job = None
       else \<exists>j. job = Some j \<and> rj_key j = k \<and> c_skip_cache (rj_ctx j)
         \<and> rj_entry j = (case c_pipeline_entry c of Some x \<Rightarrow> x | None \<Rightarrow> entry))"
proof -
  have f: "c_pipeline_entry (push_trace t p ev d c) = c_pipeline_entry c"
    "c_skip_cache (push_trace t p ev d c) = c_skip_cache c" for t p ev d
    by (simp_all add: push_trace_def)
  show ?thesis
    using assms
    by (cases "k \<in> ca_inflight ca")
      (auto simp: cache_exec_eq Let_def kick_refresh_def f has_resp_def set_response_def
        clone_for_lazy_def split: option.splits)
qed

definition lazy_entry :: entry where
  "lazy_entry = demo_entry\<lparr>e_expire := nanos 3600\<rparr>"

definition lazy_args :: yaml where
  "lazy_args = YMap [(YStr ''lazy_cache_ttl'', YNum (YPos 3600))]"

definition bound_cache :: cache where
  "bound_cache = bind_refresh ''main'' (cache_from_args ''cache'' lazy_args)"

definition lazy_cache :: cache where
  "lazy_cache = cache_put demo_key lazy_entry bound_cache"

lemma bound_cache_frame:
  "ca_everything bound_cache = False" "ca_lazy_ttl bound_cache = nanos 3600"
  "ca_refresh bound_cache = Some ''main''" "ca_inflight bound_cache = {}"
  by (simp_all add: bound_cache_def bind_refresh_def cache_from_args_def lazy_args_def Let_def)

lemma lazy_cache_frame:
  "ca_everything lazy_cache = False" "ca_lazy_ttl lazy_cache = nanos 3600"
  "ca_refresh lazy_cache = Some ''main''" "ca_inflight lazy_cache = {}"
  using bound_cache_frame by (simp_all add: lazy_cache_def cache_put_def)

lemma bound_cache_inv: "cache_inv bound_cache"
  using cache_ok_bind [OF cache_ok_new] by (auto simp: bound_cache_def cache_ok_def)

lemma lazy_cache_inv: "cache_inv lazy_cache"
  unfolding lazy_cache_def by (rule cache_entries.inv_put [OF bound_cache_inv])

lemma lazy_cache_peek: "cache_peek demo_key lazy_cache = Some lazy_entry"
  by (simp add: lazy_cache_def cache_entries.peek_put_same [OF bound_cache_inv])

lemma lazy_cache_decoded:
  "cache_decoded demo_wire_lib (nanos 100) demo_key lazy_cache = Some (demo_reply, lazy_entry)"
  by (simp add: cache_decoded_def lazy_cache_peek) (simp add: lazy_entry_def demo_entry_def demo_wire_lib_def)

lemma lazy_demo_hit:
  "key_of demo_wire_lib (ca_everything lazy_cache) demo_ctx = Some demo_key"
  "is_lazy (nanos 100) lazy_cache lazy_entry" "c_pipeline_entry demo_ctx = None"
  by (simp_all add: lazy_cache_frame demo_key_of is_lazy_def lazy_entry_def demo_entry_def)
    (simp add: demo_ctx_def ctx_new_def)

lemma lazy_hit_job:
  obtains c' ca' mx' j where "cache_exec demo_wire_lib (\<lambda>_. nanos 100) 1 demo_ctx lazy_cache (metrics_new 0)
    = (c', ca', mx', Some j)" "rj_key j = demo_key"
proof -
  obtain c' ca' mx' job where ex:
    "cache_exec demo_wire_lib (\<lambda>_. nanos 100) 1 demo_ctx lazy_cache (metrics_new 0) = (c', ca', mx', job)"
    by (metis prod_cases4)
  have "c_skip_cache (push_trace t p ev d demo_ctx) = c_skip_cache demo_ctx" for t p ev d
    by (simp add: push_trace_def)
  then have "\<exists>j. job = Some j \<and> rj_key j = demo_key"
    using ex lazy_cache_decoded lazy_cache_frame demo_ctx_flags lazy_demo_hit
    by (simp add: cache_exec_eq Let_def kick_refresh_def) (metis refresh_job.select_convs(1))
  with ex that show thesis by blast
qed

lemma lazy_hit_refreshes_witness:
  "\<exists>c' ca' mx' j. cache_exec demo_wire_lib (\<lambda>_. nanos 100) 1 demo_ctx lazy_cache (metrics_new 0)
     = (c', ca', mx', Some j) \<and> has_resp c' \<and> rj_key j = demo_key \<and> rj_entry j = ''main''"
proof -
  obtain c' ca' mx' job where ex:
    "cache_exec demo_wire_lib (\<lambda>_. nanos 100) 1 demo_ctx lazy_cache (metrics_new 0) = (c', ca', mx', job)"
    by (metis prod_cases4)
  from lazy_hit_refreshes [OF lazy_demo_hit(1) demo_ctx_flags(1) lazy_cache_decoded lazy_demo_hit(2)
      lazy_cache_frame(3) ex]
  show ?thesis using ex lazy_demo_hit(3) by (auto simp: lazy_cache_frame)
qed

text \<open>A run with a write, a hit in the lazy window and the refresh it starts.\<close>

definition demo_lookup :: "string cache_lookup_key" where
  "demo_lookup = \<lparr>cl_key = demo_key, cl_query = demo_question, cl_rewrite_start = 0\<rparr>"

lemma demo_store_eq:
  "cache_store demo_wire_lib 0 demo_key demo_reply ca = Some (cache_put demo_key
     (demo_entry\<lparr>e_expire := if 0 < ca_lazy_ttl ca then max (nanos 60) (ca_lazy_ttl ca) else nanos 60\<rparr>) ca)"
  if "ca_lazy_ttl ca \<le> nanos 3600"
proof -
  have ce: "cacheable_edns demo_reply" "m_rcode demo_reply = NoError" "\<not> m_tc demo_reply"
    using demo_entry_for by (auto simp: entry_for_def storable_def)
  have w: "wire_encode demo_wire_lib demo_reply = Some [1]" by (simp add: demo_wire_lib_def)
  have "ca_lazy_ttl ca div 1000000000 \<le> 3600"
    using div_le_mono [OF that, of 1000000000] by simp
  then show ?thesis
    using ce w
    by (simp add: cache_store_def dns_encode_def demo_reply_min_ttl instant_add_def cache_put_def demo_entry_def)
qed

lemma demo_store_lookup:
  assumes "cache_store demo_wire_lib 0 demo_key demo_reply ca = Some ca'"
  shows "cache_store_lookup demo_wire_lib 0 (demo_ctx\<lparr>c_response := Some demo_reply\<rparr>) demo_lookup ca = Some ca'"
proof -
  have "response_for_query demo_wire_lib demo_question 0 (demo_ctx\<lparr>c_response := Some demo_reply\<rparr>) = Some demo_reply"
    by (simp add: response_for_query_def Let_def demo_ctx_def ctx_new_def rebind_response_def
        rebind_edns_def demo_reply_def reply_skeleton_def demo_question_def message_new_def)
  moreover have "cacheable_edns demo_reply"
    using demo_entry_for by (auto simp: entry_for_def storable_def)
  ultimately show ?thesis
    using assms by (simp add: cache_store_lookup_def demo_lookup_def demo_ctx_def ctx_new_def)
qed

lemma lazy_cache_stored:
  "cache_store_lookup demo_wire_lib 0 (demo_ctx\<lparr>c_response := Some demo_reply\<rparr>) demo_lookup bound_cache
     = Some lazy_cache"
  by (rule demo_store_lookup)
    (simp add: demo_store_eq bound_cache_frame lazy_cache_def lazy_entry_def)

lemma lazy_cache_reached: "cache_reach demo_wire_lib ''cache'' lazy_args (lazy_cache, [])"
proof -
  have "cache_reach demo_wire_lib ''cache'' lazy_args (bound_cache, [])"
    unfolding bound_cache_def by (rule cache_reach.step [OF cache_reach.start cache_step.bind])
  then show ?thesis by (rule cache_reach.step [OF _ cache_step.store [OF lazy_cache_stored]])
qed

lemma cache_reachable_ok_witness:
  "\<exists>c' ca' mx' j. cache_exec demo_wire_lib (\<lambda>_. nanos 100) 1 demo_ctx lazy_cache (metrics_new 0)
       = (c', ca', mx', Some j)
     \<and> cache_peek demo_key ca' = Some lazy_entry \<and> cache_ok demo_wire_lib ca' \<and> ca_inflight ca' = {demo_key}"
proof -
  obtain c' ca' mx' j where ex: "cache_exec demo_wire_lib (\<lambda>_. nanos 100) 1 demo_ctx lazy_cache (metrics_new 0)
      = (c', ca', mx', Some j)" "rj_key j = demo_key"
    by (rule lazy_hit_job)
  have "cache_reach demo_wire_lib ''cache'' lazy_args (ca', [demo_key])"
    using cache_reach.step [OF lazy_cache_reached cache_step.exec [OF ex(1)]] ex(2) by simp
  from cache_reachable_ok [OF this] have "cache_ok demo_wire_lib ca'" "ca_inflight ca' = {demo_key}" by simp_all
  moreover have "cache_peek demo_key ca' = Some lazy_entry"
    using ex(1) by (cases rule: cache_exec_cases) (simp_all add: lazy_cache_peek cache_entries.peek_touch [OF lazy_cache_inv] kick_refresh_peek)
  ultimately show ?thesis using ex(1) by blast
qed

section \<open>Writes\<close>

lemma cache_store_peek:
  assumes "cache_inv ca" "cache_store L now key r ca = Some ca'" "cache_peek k ca' = Some e"
  shows "cache_peek k ca = Some e \<or> k = key \<and> entry_for L (ca_lazy_ttl ca) r e \<and> e_stored e = now"
  using cache_store_cases [OF assms(2)] assms(1,3) cache_entries.peek_put_cases [OF assms(1)]
  by (fastforce simp: Let_def)

text \<open>
  What a sequence writes after a cache step answers the question that was looked up there, not
  what the rest of the pipeline made of it: it is stored under the key of that lookup, carries its
  identifier and question section, and is never an answer that came from a cache itself.
\<close>
theorem cache_write_bound:
  assumes "cache_inv ca" "cache_store_lookup L now c l ca = Some ca'" "cache_peek k ca' = Some e"
    and "cache_peek k ca \<noteq> Some e"
  shows "k = cl_key l \<and> \<not> c_from_cache c \<and> e_stored e = now
    \<and> (\<exists>m. response_for_query L (cl_query l) (cl_rewrite_start l) c = Some m
        \<and> entry_for L (ca_lazy_ttl ca) m e
        \<and> m_id m = m_id (cl_query l) \<and> m_queries m = m_queries (cl_query l))"
proof -
  from assms(2,3,4) obtain m where m: "\<not> c_from_cache c"
    "response_for_query L (cl_query l) (cl_rewrite_start l) c = Some m"
    "cache_store L now (cl_key l) m ca = Some ca'"
    by (auto simp: cache_store_lookup_def split: if_splits option.splits)
  have "m_id m = m_id (cl_query l) \<and> m_queries m = m_queries (cl_query l)"
    using m(2) by (auto simp: response_for_query_def rebind_response_def Let_def
        split: option.splits if_splits)
  with m cache_store_peek [OF assms(1) m(3) assms(3)] assms(4) show ?thesis by blast
qed

lemma cache_write_bound_witness:
  "cl_key demo_lookup = demo_key
   \<and> (\<exists>ca'. cache_store_lookup demo_wire_lib 0 (demo_ctx\<lparr>c_response := Some demo_reply\<rparr>) demo_lookup
          (cache_from_args ''cache'' YNull) = Some ca'
        \<and> (\<exists>m. entry_for demo_wire_lib 0 m demo_entry \<and> m_queries m = m_queries demo_question))"
proof -
  let ?ca = "cache_from_args ''cache'' YNull"
  have "cache_store demo_wire_lib 0 demo_key demo_reply ?ca = Some demo_cache"
    by (simp add: demo_store_eq demo_cache_lazy demo_cache_def demo_entry_def)
  then have st: "cache_store_lookup demo_wire_lib 0 (demo_ctx\<lparr>c_response := Some demo_reply\<rparr>) demo_lookup ?ca
      = Some demo_cache"
    by (rule demo_store_lookup)
  have "cache_peek demo_key ?ca \<noteq> Some demo_entry" by simp
  from cache_write_bound [OF cache_inv_new st demo_cache_peek this] st
  show ?thesis by (auto simp: demo_cache_lazy demo_lookup_def)
qed

end
