(* ===== verification/Provenance_Laws.thy ===== *)
theory Provenance_Laws
  imports Provenance Api Refresh_Laws
begin

text \<open>
  Answers stay with their questions through the whole program: what sequences write into caches, what
  nested calls and fallbacks hand back, and what \<open>handle\<close> finally sends. The locale \<open>fair_caller\<close> is
  the contract of a nested call.
\<close>

section \<open>Replies and writes\<close>

lemma sourced_reply:
  assumes "sound env c" "route env (m_queries q) (drop n (c_rewrites c)) (m_queries (c_query c))"
    and "n \<le> length (c_rewrites c)" "response_for_query L q n c = Some m" "r \<in> set (records m)"
  shows "sourced env (m_queries q) r"
proof -
  obtain m0 where m0: "c_response c = Some m0" using assms(4) by (cases "c_response c") (auto simp: response_for_query_def)
  have own: "sourced env (m_queries q) r" if "r \<in> set (records m0)"
    using route_sourced [OF assms(2)] assms(1) m0 that by (auto simp: sound_def)
  have added: "sourced env (m_queries q) (alias_record q t p)" if p: "p \<in> set (drop n (c_rewrites c))" for t p
  proof -
    have "drop n (c_rewrites c) \<noteq> []" using p by auto
    then obtain q0 qs where q0: "m_queries q = q0 # qs" using route_class [OF assms(2)] by blast
    with assms(2) have "route env (q0 # qs) (drop n (c_rewrites c)) (m_queries (c_query c))" by simp
    from route_alias [OF this, of "fst p" "snd p" t] p q0 show ?thesis by (simp add: alias_record_def Let_def)
  qed
  have rest: "m_name_servers m = m_name_servers m0 \<and> m_additionals m = m_additionals m0"
    using assms(4) m0 by (auto simp: response_for_query_def rebind_response_def Let_def split: if_splits)
  have "\<exists>t P. set (m_answers m) \<subseteq> alias_record q t ` set (filter P (drop n (c_rewrites c))) \<union> set (m_answers m0)"
  proof (cases "drop n (c_rewrites c) \<noteq> [] \<and> m_rcode m0 \<in> {NoError, NXDomain}")
    case True
    then have "m_answers m = map (alias_record q (min_ttl (rebind_response m0 q)))
        (filter (\<lambda>p. \<not> alias_present L (m_answers m0) p) (drop n (c_rewrites c))) @ m_answers m0"
      using assms(3,4) m0 by (auto simp: response_for_query_def rebind_response_def Let_def min_absorb1)
    then have "set (m_answers m) \<subseteq> alias_record q (min_ttl (rebind_response m0 q)) `
        set (filter (\<lambda>p. \<not> alias_present L (m_answers m0) p) (drop n (c_rewrites c))) \<union> set (m_answers m0)"
      by simp
    then show ?thesis by blast
  next
    case False
    then have "m_answers m = m_answers m0"
      using assms(3,4) m0 by (auto simp: response_for_query_def rebind_response_def Let_def min_absorb1)
    then show ?thesis by simp
  qed
  with own added assms(5) rest show ?thesis by (auto simp: records_def)
qed

definition pending :: "'n env \<Rightarrow> 'n ctx \<Rightarrow> 'n writes \<Rightarrow> bool" where
  \<comment> \<open>each lookup a sequence remembers has the key of its query, from which rewrites lead to the
      question as it is now\<close>
  "pending env c ws \<longleftrightarrow> (\<forall>(tag, l) \<in> set ws.
     (\<exists>ev c0. key_of (en_lib env) ev c0 = Some (cl_key l) \<and> cl_query l = c_query c0)
     \<and> cl_rewrite_start l \<le> length (c_rewrites c)
     \<and> route env (m_queries (cl_query l)) (drop (cl_rewrite_start l) (c_rewrites c)) (m_queries (c_query c)))"

lemma pending_Nil [simp]: "pending env c []"
  by (simp add: pending_def)

lemma pending_append [simp]: "pending env c (ws @ ws') \<longleftrightarrow> pending env c ws \<and> pending env c ws'"
  by (simp add: pending_def ball_Un)

lemma pending_follows: "pending env c ws \<Longrightarrow> follows env c c' \<Longrightarrow> pending env c' ws"
  by (fastforce simp: pending_def follows_def intro: route_append)

lemma pending_snapshot: "pending env c (snapshot_writes env t c w)"
proof (cases "map_of (w_caches w) t")
  case (Some ca)
  then show ?thesis
    by (cases "key_of (en_lib env) (ca_everything ca) c")
      (auto simp: pending_def snapshot_writes_def cache_snapshot_def rewrite_count_def)
qed (simp add: snapshot_writes_def)

definition trusted :: "'n env \<Rightarrow> bool" where
  \<comment> \<open>the laws of the foreign code, and other tasks that keep the caches as the program does\<close>
  "trusted env \<longleftrightarrow> debug_names (en_lib env) \<and> wire_faithful (en_lib env)
     \<and> (\<forall>n w. caches_sound env w \<longrightarrow> caches_sound env (en_other env n w))"

lemma cache_sound_store:
  assumes "trusted env" "cache_sound env ca" "sound env c" "pending env c [(tag, l)]"
    and "cache_store_lookup (en_lib env) now c l ca = Some ca'"
  shows "cache_sound env ca'"
proof -
  let ?L = "en_lib env"
  obtain ev0 c0 where k: "key_of ?L ev0 c0 = Some (cl_key l)" "cl_query l = c_query c0"
    and n: "cl_rewrite_start l \<le> length (c_rewrites c)"
      "route env (m_queries (cl_query l)) (drop (cl_rewrite_start l) (c_rewrites c)) (m_queries (c_query c))"
    using assms(4) by (auto simp: pending_def)
  have "ca' = ca \<or> (\<exists>m. response_for_query ?L (cl_query l) (cl_rewrite_start l) c = Some m
      \<and> cache_store ?L now (cl_key l) m ca = Some ca')"
    using assms(5) by (auto simp: cache_store_lookup_def split: if_splits option.splits)
  then show ?thesis
  proof (elim disjE exE conjE)
    fix m
    assume m: "response_for_query ?L (cl_query l) (cl_rewrite_start l) c = Some m"
      and st: "cache_store ?L now (cl_key l) m ca = Some ca'"
    from cache_store_cases [OF st] show ?thesis
    proof (elim disjE exE)
      fix w x
      let ?e = "\<lparr>e_wire = w, e_stored = now, e_ttl_deadline = now + nanos (unat (min_ttl m)), e_expire = x\<rparr>"
      assume "let e = ?e in entry_for ?L (ca_lazy_ttl ca) m e \<and> ca' = cache_put (cl_key l) e ca"
      then have e: "wire_encode ?L m = Some w" "ca' = cache_put (cl_key l) ?e ca"
        by (auto simp: entry_for_def Let_def)
      have inv: "cache_inv ca" using assms(2) by (simp add: cache_sound_def)
      have new: "sourced env (m_queries (c_query c1)) r"
        if "wire_decode ?L w = Some m1" "key_of ?L ev c1 = Some (cl_key l)" "r \<in> set (records m1)" for ev c1 m1 r
      proof -
        have "records m1 = records m"
          using assms(1) e(1) that(1) by (auto simp: trusted_def wire_faithful_def)
        with that(3) sourced_reply [OF assms(3) n(2,1) m] have "sourced env (m_queries (c_query c0)) r"
          by (simp add: k(2))
        moreover have "same_ask ?L (c_query c0) (c_query c1)"
          using assms(1) same_key_same_ask [OF _ k(1) that(2)] by (simp add: trusted_def)
        ultimately show ?thesis by (blast intro: sourced.cached)
      qed
      show ?thesis
        unfolding cache_sound_def e(2)
      proof (intro conjI allI impI)
        show "cache_inv (cache_put (cl_key l) ?e ca)" by (rule cache_entries.inv_put [OF inv])
        fix k e m1 ev c1 r
        assume "cache_peek k (cache_put (cl_key l) ?e ca) = Some e" "wire_decode ?L (e_wire e) = Some m1"
          "key_of ?L ev c1 = Some k" "r \<in> set (records m1)"
        with cache_entries.peek_put_cases [OF inv] new assms(2)
        show "sourced env (m_queries (c_query c1)) r" unfolding cache_sound_def by fastforce
      qed
    qed (simp add: assms(2))
  qed (simp add: assms(2))
qed

section \<open>Worlds\<close>

lemma caches_sound_frame [simp]:
  "caches_sound env (w\<lparr>w_metrics := mx\<rparr>) = caches_sound env w"
  "caches_sound env (w\<lparr>w_next_id := i\<rparr>) = caches_sound env w"
  "caches_sound env (w\<lparr>w_jobs := js\<rparr>) = caches_sound env w"
  "caches_sound env (w\<lparr>w_now := t\<rparr>) = caches_sound env w"
  "caches_sound env (w\<lparr>w_tick := n\<rparr>) = caches_sound env w"
  by (simp_all add: caches_sound_def)

lemma caches_sound_member: "caches_sound env w \<Longrightarrow> map_of (w_caches w) t = Some ca \<Longrightarrow> cache_sound env ca"
  by (auto simp: caches_sound_def dest!: map_of_SomeD)

lemma caches_sound_update:
  "caches_sound env w \<Longrightarrow> cache_sound env ca \<Longrightarrow>
     caches_sound env (w\<lparr>w_caches := AList.update t ca (w_caches w)\<rparr>)"
  using set_update_subset [of t ca "w_caches w"] by (fastforce simp: caches_sound_def)

lemma caches_sound_meet: "trusted env \<Longrightarrow> caches_sound env w \<Longrightarrow> caches_sound env (meet_others env w)"
  by (simp add: meet_others_def Let_def trusted_def)

lemma caches_sound_store:
  "trusted env \<Longrightarrow> sound env c \<Longrightarrow> pending env c ws \<Longrightarrow> caches_sound env w \<Longrightarrow>
     store_writes env c ws w = Some w' \<Longrightarrow> caches_sound env w'"
proof (induction env c ws w rule: store_writes.induct)
  case (1 env c w)
  then show ?case by simp
next
  case (2 env c tag l ws w)
  have p: "pending env c [(tag, l)]" "pending env c ws" using 2(5) by (simp_all add: pending_def)
  show ?case
  proof (cases "map_of (w_caches w) tag")
    case None
    with 2(7) have "store_writes env c ws w = Some w'" by simp
    from 2(1) [OF None 2(3,4) p(2) 2(6) this] show ?thesis .
  next
    case (Some ca)
    with 2(7) obtain ca' where ca': "cache_store_lookup (en_lib env) (w_now w) c l ca = Some ca'"
      "store_writes env c ws (w\<lparr>w_caches := AList.update tag ca' (w_caches w)\<rparr>) = Some w'"
      by (auto split: option.splits)
    have "cache_sound env ca'"
      by (rule cache_sound_store [OF 2(3) caches_sound_member [OF 2(6) Some] 2(4) p(1) ca'(1)])
    from 2(2) [OF Some ca'(1) 2(3,4) p(2) caches_sound_update [OF 2(6) this] ca'(2)] show ?thesis .
  qed
qed

lemma fair_run_cache:
  assumes "sound env c" "caches_sound env w"
  shows "fair env c (run_ctx (run_cache env tag c w)) \<and> caches_sound env (run_world (run_cache env tag c w))"
proof (cases "map_of (w_caches w) tag")
  case None
  with assms show ?thesis by (simp add: run_cache_def fair_refl)
next
  case (Some ca)
  obtain c' ca' mx job where x: "cache_exec (en_lib env) (\<lambda>_. w_now w) (w_next_id w) c ca (w_metrics w) = (c', ca', mx, job)"
    by (metis prod.exhaust)
  from fair_cache [OF x assms(1) caches_sound_member [OF assms(2) Some]]
  have f: "fair env c c'" "cache_sound env ca'" by auto
  have "caches_sound env (w\<lparr>w_caches := AList.update tag ca' (w_caches w), w_metrics := mx\<rparr>)"
    using caches_sound_update [OF assms(2) f(2), of tag] by simp
  with f(1) Some x show ?thesis by (simp add: run_cache_def Let_def split: option.split)
qed

section \<open>Nested calls\<close>

definition is_redirect :: "'n env \<Rightarrow> string \<Rightarrow> bool" where
  "is_redirect env t = (case get_exec t (en_reg env) of Inr (PlRedirect rules) \<Rightarrow> True | _ \<Rightarrow> False)"

definition quiet_tag :: "'n registry \<Rightarrow> string \<Rightarrow> bool" where
  \<comment> \<open>a plugin that makes no response\<close>
  "quiet_tag reg t = (case get_exec t reg of
     Inr (PlRedirect rules) \<Rightarrow> True | Inr (PlEcs e) \<Rightarrow> True | Inr (PlNoEcs x) \<Rightarrow> True | _ \<Rightarrow> False)"

fun quiet_target :: "'n registry \<Rightarrow> exec_target \<Rightarrow> bool" where
  "quiet_target reg (ExPlugin t) = quiet_tag reg t"
| "quiet_target reg (ExBuiltin b) = True"

fun clearing :: "exec_target \<Rightarrow> bool" where
  \<comment> \<open>a target after which the next step runs, if at all, without a response\<close>
  "clearing (ExBuiltin BAccept) = True"
| "clearing (ExBuiltin BReturn) = True"
| "clearing (ExBuiltin (BReject rc)) = True"
| "clearing (ExBuiltin (BGoto t)) = True"
| "clearing (ExBuiltin BDropResp) = True"
| "clearing _ = False"

definition silent_after :: "'n registry \<Rightarrow> bool \<Rightarrow> step \<Rightarrow> bool" where
  \<comment> \<open>there is no response behind the step: there was none and the step makes none, or the step takes
      every response out of the sequence, as \<open>has_resp\<close> with \<open>accept\<close> does\<close>
  "silent_after reg silent s \<longleftrightarrow> (silent \<and> quiet_target reg (st_exec s))
     \<or> (set (st_matchers s) \<subseteq> {MHasResp} \<and> clearing (st_exec s))"

fun guarded_steps :: "'n registry \<Rightarrow> (string \<Rightarrow> bool) \<Rightarrow> bool \<Rightarrow> step list \<Rightarrow> bool" where
  \<comment> \<open>a step calls a plugin of \<open>fresh\<close> only where there is no response, because none was made before
      it or because it asks for that\<close>
  "guarded_steps reg fresh silent [] = True"
| "guarded_steps reg fresh silent (s # ss) =
     ((silent \<or> MNeg MHasResp \<in> set (st_matchers s) \<or> list_all (\<lambda>t. \<not> fresh t) (step_calls s))
       \<and> guarded_steps reg fresh (silent_after reg silent s) ss)"

definition disciplined :: "'n registry \<Rightarrow> (string \<Rightarrow> bool) \<Rightarrow> bool" where
  \<comment> \<open>the plugins of \<open>fresh\<close>, every redirect among them, are called without a response only\<close>
  "disciplined reg fresh \<longleftrightarrow> list_all (\<lambda>(tag, p). case p of
       PlRedirect rules \<Rightarrow> fresh tag
     | PlSequence q \<Rightarrow> guarded_steps reg fresh (fresh tag) (sq_steps q)
     | _ \<Rightarrow> True) (rg_execs reg)"

definition guarded :: "'n registry \<Rightarrow> bool" where
  \<comment> \<open>no redirect of the configuration runs behind a response\<close>
  "guarded reg \<longleftrightarrow> (\<exists>fresh. disciplined reg fresh)"

definition ready :: "(string \<Rightarrow> bool) \<Rightarrow> string \<Rightarrow> 'n ctx \<Rightarrow> bool" where
  "ready fresh t c \<longleftrightarrow> (fresh t \<longrightarrow> c_response c = None)"

definition fair_run :: "'n env \<Rightarrow> 'n ctx \<Rightarrow> 'n run \<Rightarrow> bool" where
  "fair_run env c r \<longleftrightarrow> fair env c (run_ctx r) \<and> caches_sound env (run_world r)"

lemma fair_run_triple [simp]: "fair_run env c (r, c', w') \<longleftrightarrow> fair env c c' \<and> caches_sound env w'"
  by (simp add: fair_run_def)

lemma fair_run_trans: "fair env c c' \<Longrightarrow> fair_run env c' r \<Longrightarrow> fair_run env c r"
  by (auto simp: fair_run_def intro: fair_trans)

lemma disciplined_member:
  assumes "disciplined reg fresh"
  shows "get_exec t reg = Inr (PlSequence q) \<Longrightarrow> guarded_steps reg fresh (fresh t) (sq_steps q)"
    and "get_exec t reg = Inr (PlRedirect rules) \<Longrightarrow> fresh t"
  using assms
  by (auto simp: disciplined_def get_exec_def ok_or_def list_all_iff dest!: map_of_SomeD split: option.splits)

lemma pending_fair: "pending env c ws \<Longrightarrow> fair env c c' \<Longrightarrow> pending env c' ws"
  by (auto simp: fair_def intro: pending_follows)

lemma ready_step:
  assumes "guarded_steps (en_reg env) fresh silent (s # ss)" "list_all (matches L c) (st_matchers s)"
    and "t \<in> set (step_calls s)" "silent \<longrightarrow> c_response c = None" "c_response c' = c_response c"
  shows "ready fresh t c'"
  using assms by (auto simp: ready_def list_all_iff has_resp_def)

definition credible :: "'n env \<Rightarrow> (string \<Rightarrow> bool) \<Rightarrow> 'n ctx \<Rightarrow> 'n world \<Rightarrow> bool" where
  "credible env fresh c w \<longleftrightarrow> trusted env \<and> disciplined (en_reg env) fresh \<and> caches_sound env w \<and> sound env c"

lemma credible_next: "credible env fresh c w \<Longrightarrow> fair_run env c (r, c', w') \<Longrightarrow> credible env fresh c' w'"
  by (simp add: credible_def fair_def)

lemma credible_fair: "credible env fresh c w \<Longrightarrow> fair env c c' \<Longrightarrow> credible env fresh c' w"
  by (simp add: credible_def fair_def)

lemma credible_frame [simp]:
  "credible env fresh c (w\<lparr>w_next_id := i\<rparr>) = credible env fresh c w" "credible env fresh c (w\<lparr>w_now := t\<rparr>) = credible env fresh c w"
  by (simp_all add: credible_def)

lemma credible_refl: "credible env fresh c w \<Longrightarrow> fair_run env c (r, c, w)"
  by (simp add: credible_def fair_refl)

lemma credible_traced: "credible env fresh c w \<Longrightarrow> credible env fresh (push_trace n p e d c) w"
  by (rule credible_fair [OF _ fair_trace]) (simp_all add: credible_def)

lemma fair_finish:
  assumes "credible env fresh c w" "pending env c ws"
  shows "fair_run env c (seq_finish env ws a c w)"
  using assms caches_sound_store [of env c ws w]
  by (auto simp: seq_finish_def credible_def fair_refl split: option.split)

lemma ready_fork: "ready fresh t (fork i n c)"
  by (simp add: ready_def fork_def)

lemma credible_fork: "credible env fresh c w \<Longrightarrow> credible env fresh (fork i n c) w"
  by (simp add: credible_def sound_def fork_def)

lemma fair_absorb:
  assumes "fair env (fork i n c) c'"
  shows "fair env c (absorb c c')"
  using assms by (simp add: fair_def follows_def sound_def fork_def absorb_def)

lemma fair_absorb_traced:
  assumes "fair env (fork i n c) c'"
  shows "fair env c (absorb (push_trace m p e d c) c')"
  using assms by (simp add: fair_def follows_def sound_def fork_def absorb_def push_trace_def)

lemma redirect_silent: "c_response c = None \<Longrightarrow> c_response (redirect_exec L now rules c) = None"
  by (auto simp: redirect_exec_def rewrite_name_def Let_def split: option.split list.split)

lemma silent_exec_plugin:
  assumes "get_exec t (en_reg env) = Inr p" "quiet_tag (en_reg env) t" "c_response c = None"
  shows "c_response (run_ctx (exec_plugin env call d t p c w)) = None"
  using assms
  by (cases p) (auto simp: quiet_tag_def exec_plugin_def Let_def redirect_silent ecs_exec_def no_ecs_exec_def
      split: option.split prod.split)

lemma silent_builtin:
  "builtin_apply b c = (Inr Continue, c') \<Longrightarrow> c_response c = None \<Longrightarrow> c_response c' = None"
  by (cases b) (auto simp: drop_response_def apply_ttl_clamp_def prefer_ipv4_def prefer_ipv6_def
      filter_answers_def add_mark_def split: if_splits sum.splits)

lemma silent_cleared:
  "builtin_apply b c = (Inr Continue, c') \<Longrightarrow> clearing (ExBuiltin b) \<Longrightarrow> c_response c' = None"
  by (cases b) (auto simp: drop_response_def)

locale fair_caller = caller call for call :: "'n caller" +
  fixes env :: "'n env" and fresh :: "string \<Rightarrow> bool"
  assumes call_fair: "credible env fresh c w \<Longrightarrow> ready fresh t c \<Longrightarrow> fair_run env c (call d t c w)"
    and call_quiet: "quiet_tag (en_reg env) t \<Longrightarrow> c_response c = None \<Longrightarrow> c_response (run_ctx (call d t c w)) = None"
begin

lemma fair_goto:
  assumes "credible env fresh c w" "ready fresh t c" "pending env c ws"
  shows "fair_run env c (seq_goto env (call d) t ws c w)"
proof (cases "get_exec t (en_reg env)")
  case (Inl e)
  with assms(1) show ?thesis by (simp add: seq_goto_def credible_refl del: fair_run_triple)
next
  case (Inr p)
  obtain r c' w' where r: "call d t c w = (r, c', w')" by (cases "call d t c w")
  with call_fair [OF assms(1,2), of d] have f: "fair_run env c (r, c', w')" by simp
  then have "pending env c' (ws @ snapshot_writes env t c w)"
    using pending_fair [OF assms(3)] pending_fair [OF pending_snapshot, of env c c' t w] by simp
  from fair_run_trans [OF _ fair_finish [OF credible_next [OF assms(1) f] this]] f
  show ?thesis using Inr r by (auto simp: seq_goto_def split: sum.split)
qed

lemma fair_step:
  assumes "credible env fresh c w" "pending env c ws" "guarded_steps (en_reg env) fresh silent (s # ss)"
    "list_all (matches (en_lib env) c) (st_matchers s)" "silent \<longrightarrow> c_response c = None"
    "seq_step env (call d) tag s ws c w = ((r, c', w'), ws')"
  shows "fair_run env c (r, c', w') \<and> pending env c' ws' \<and> (\<forall>t. r = Inr (Inr (Goto t)) \<longrightarrow> ready fresh t c')"
proof (cases "st_exec s")
  case (ExPlugin t)
  show ?thesis
  proof (cases "get_exec t (en_reg env)")
    case (Inl e)
    with ExPlugin assms(6,2) credible_refl [OF assms(1)] show ?thesis by (auto simp: seq_step_def)
  next
    case (Inr p)
    let ?c = "push_trace (w_now w) tag ''exec'' t c"
    from Inr ExPlugin assms(6) have cl: "call d t ?c w = (r, c', w')" and
      ws: "ws' = ws @ snapshot_writes env t c w" by (simp_all add: seq_step_def)
    have "ready fresh t ?c"
      by (rule ready_step [OF assms(3,4) _ assms(5)]) (use ExPlugin in \<open>simp_all add: step_calls_def\<close>)
    from call_fair [OF credible_traced [OF assms(1)] this, of d] cl have "fair_run env ?c (r, c', w')" by simp
    moreover have "fair env c ?c" using assms(1) by (simp add: credible_def fair_trace)
    ultimately have f: "fair_run env c (r, c', w')" by (blast intro: fair_run_trans)
    then have "pending env c' ws'" using pending_fair [OF assms(2)] pending_fair [OF pending_snapshot, of env c c' t w]
      by (simp add: ws)
    with f action_call [of d t ?c w] cl show ?thesis by auto
  qed
next
  case (ExBuiltin b)
  let ?c = "push_trace (w_now w) tag ''builtin'' (builtin_label (en_lib env) b) c"
  from assms(6) ExBuiltin obtain a where b: "builtin_apply b ?c = (a, c')" "r = Inr a" "w' = w" "ws' = ws"
    by (auto simp: seq_step_def split: prod.splits)
  have s: "sound env ?c" using credible_traced [OF assms(1)] by (simp add: credible_def)
  have "fair env c c'"
    using fair_trans [OF fair_trace fair_builtin [OF s b(1)]] assms(1) by (simp add: credible_def)
  moreover have "ready fresh t c'" if "a = Inr (Goto t)" for t
  proof -
    from that b(1) have "b = BGoto t \<and> c' = ?c" by (cases b) (auto split: if_splits sum.splits)
    with ExBuiltin show ?thesis
      by (intro ready_step [OF assms(3,4) _ assms(5)]) (simp_all add: step_calls_def)
  qed
  ultimately show ?thesis using assms(1) b pending_fair [OF assms(2)] by (simp add: credible_def)
qed

lemma silent_step:
  assumes "seq_step env (call d) tag s ws c w = ((Inr (Inr Continue), c', w'), ws')"
    "silent \<longrightarrow> c_response c = None" "silent_after (en_reg env) silent s"
  shows "c_response c' = None"
proof (cases "st_exec s")
  case (ExPlugin t)
  let ?c = "push_trace (w_now w) tag ''exec'' t c"
  from assms(2,3) ExPlugin have q: "quiet_tag (en_reg env) t" "c_response ?c = None"
    by (auto simp: silent_after_def)
  from assms(1) ExPlugin have "call d t ?c w = (Inr (Inr Continue), c', w')"
    by (auto simp: seq_step_def split: sum.splits)
  with call_quiet [OF q, of d w] show ?thesis by simp
next
  case (ExBuiltin b)
  let ?c = "push_trace (w_now w) tag ''builtin'' (builtin_label (en_lib env) b) c"
  from assms(1) ExBuiltin have "builtin_apply b ?c = (Inr Continue, c')"
    by (auto simp: seq_step_def split: prod.splits)
  with silent_builtin [OF this] silent_cleared [OF this] assms(2,3) ExBuiltin show ?thesis
    by (auto simp: silent_after_def)
qed

lemma silent_skip:
  "\<not> list_all (matches L c) (st_matchers s) \<Longrightarrow> (silent \<longrightarrow> c_response c = None) \<Longrightarrow>
     silent_after (en_reg env) silent s \<Longrightarrow> c_response c = None"
  by (auto simp: silent_after_def list_all_iff has_resp_def dest!: subsetD)

lemma fair_seq_run:
  "credible env fresh c w \<Longrightarrow> pending env c ws \<Longrightarrow> guarded_steps (en_reg env) fresh silent ss \<Longrightarrow>
     (silent \<longrightarrow> c_response c = None) \<Longrightarrow> fair_run env c (seq_run env (call d) tag ss ws c w)"
proof (induction ss arbitrary: ws c w silent)
  case Nil
  then show ?case by (simp add: fair_finish)
next
  case (Cons s ss)
  have ss: "guarded_steps (en_reg env) fresh (silent_after (en_reg env) silent s) ss" using Cons.prems(3) by simp
  show ?case
  proof (cases "list_all (matches (en_lib env) c) (st_matchers s)")
    case False
    with Cons.IH [OF Cons.prems(1,2) ss] silent_skip [OF False Cons.prems(4)] show ?thesis by auto
  next
    case True
    obtain r c' w' ws' where st: "seq_step env (call d) tag s ws c w = ((r, c', w'), ws')"
      by (metis prod.exhaust)
    from fair_step [OF Cons.prems(1-3) True Cons.prems(4) st]
    have f: "fair_run env c (r, c', w')" and p: "pending env c' ws'"
      and g: "\<And>t. r = Inr (Inr (Goto t)) \<Longrightarrow> ready fresh t c'" by auto
    note s' = credible_next [OF Cons.prems(1) f]
    have fc: "fair env c c'" using f by simp
    have go: "fair_run env c (seq_run env (call d) tag ss ws' c' w')" if "r = Inr (Inr Continue)"
    proof (rule fair_run_trans [OF fc Cons.IH [OF s' p ss]])
      show "silent_after (en_reg env) silent s \<longrightarrow> c_response c' = None"
        using silent_step [OF st [unfolded that] Cons.prems(4)] by blast
    qed
    show ?thesis
      using f st True go fair_run_trans [OF fc fair_finish [OF s' p]] fair_run_trans [OF fc fair_goto [OF s' g p]]
      by (auto split: sum.split action.split)
  qed
qed

lemma fair_forked:
  assumes "credible env fresh c w0" "forked c w = (s, w1)" "call d t s w0 = (r, s', w')"
  shows "credible env fresh c w' \<and> fair env c (absorb c s') \<and> fair env c (absorb (push_trace m p e x c) s')"
proof -
  obtain i where f: "s = fork i (w_now w) c"
    using assms(2) by (auto simp: forked_def next_id_def)
  have "credible env fresh s w0" using assms(1) by (simp add: f credible_fork)
  from call_fair [OF this, of t d] assms(3) have "fair_run env s (r, s', w')"
    by (simp add: f ready_fork)
  with assms(1) show ?thesis
    by (auto simp: credible_def f intro: fair_absorb fair_absorb_traced)
qed

lemma credible_forked: "forked c w = (s, w1) \<Longrightarrow> credible env fresh c' w \<Longrightarrow> credible env fresh c' w1"
  by (auto simp: forked_def next_id_def)

lemma credible_run: "credible env fresh c w \<Longrightarrow> fair env c0 c \<Longrightarrow> fair_run env c0 (r, c, w)"
  by (simp add: credible_def)

lemma fair_fallback_second:
  assumes "credible env fresh c w"
  shows "fair_run env c (fallback_second call d f c w)"
proof -
  let ?c1 = "push_trace (w_now w) (fb_tag f) ''secondary'' ''fallback'' c"
  obtain s0 w0 where fk: "forked ?c1 w = (s0, w0)" by (cases "forked ?c1 w")
  obtain r s1 w1 where cl: "call d (fb_secondary f) s0 w0 = (r, s1, w1)" by (metis prod.exhaust)
  have t: "fair env c ?c1" using assms by (simp add: credible_def fair_trace)
  from fair_forked [OF credible_forked [OF fk credible_traced [OF assms]] fk cl]
  have "credible env fresh ?c1 w1" "fair env ?c1 (absorb ?c1 s1)" by auto
  then show ?thesis
    using t fair_trans [OF t, of "absorb ?c1 s1"]
    by (cases r) (simp_all add: fallback_second_def Let_def fk cl credible_def)
qed

lemma fair_fallback_serial:
  assumes "credible env fresh c w"
  shows "fair_run env c (fallback_serial call d f c w)"
proof -
  obtain p0 w0 where fk: "forked c w = (p0, w0)" by (cases "forked c w")
  obtain r p1 w1 where cl: "call (min d (w_now w + fb_threshold f)) (fb_primary f) p0 w0 = (r, p1, w1)"
    by (metis prod.exhaust)
  have s: "credible env fresh c w1" "fair env c (absorb (push_trace m p e x c) p1)" for m p e x
    using fair_forked [OF credible_forked [OF fk assms] fk cl] by auto
  have "caches_sound env w1" "fair env c c" using s(1) by (simp_all add: credible_def fair_refl)
  with fair_fallback_second [OF s(1), of d f] s(2) show ?thesis
    by (simp add: fallback_serial_def Let_def fk cl)
qed

lemma fair_fallback_standby:
  assumes "credible env fresh c w"
  shows "fair_run env c (fallback_standby call d f c w)"
proof -
  let ?limit = "w_now w + fb_threshold f"
  obtain p0 w0 where fk: "forked c w = (p0, w0)" by (cases "forked c w")
  obtain s0 w0' where fk2: "forked c w0 = (s0, w0')" by (cases "forked c w0")
  obtain r p1 w1 where cl: "call (min d ?limit) (fb_primary f) p0 w0' = (r, p1, w1)"
    by (metis prod.exhaust)
  obtain r' s1 w2 where cl2: "call (if wins r p1 then min d (w_now w1) else d) (fb_secondary f)
      s0 (w1\<lparr>w_now := w_now w\<rparr>) = (r', s1, w2)" by (metis prod.exhaust)
  have st0: "credible env fresh c w0'" by (rule credible_forked [OF fk2 credible_forked [OF fk assms]])
  have s: "credible env fresh c w1" "fair env c (absorb (push_trace m p e x c) p1)" for m p e x
    using fair_forked [OF st0 fk cl] by auto
  then have "credible env fresh c (w1\<lparr>w_now := w_now w\<rparr>)" by simp
  then have s2: "credible env fresh c w2" "fair env c (absorb (push_trace m p e x c) s1)" for m p e x
    using fair_forked [OF _ fk2 cl2] by auto
  have "caches_sound env w1" "caches_sound env w2" "fair env c c"
    using s(1) s2(1) by (simp_all add: credible_def fair_refl)
  with s(2) s2(2) show ?thesis
    by (cases "wins r p1") (use cl2 in \<open>simp_all add: fallback_standby_def Let_def fk fk2 cl\<close>)
qed

lemma fair_fallback_run: "credible env fresh c w \<Longrightarrow> fair_run env c (fallback_run env call d f c w)"
  using credible_refl fair_fallback_serial fair_fallback_standby
  by (auto simp: fallback_run_def simp del: fair_run_triple split: sum.split)

lemma fair_exec_plugin:
  assumes "credible env fresh c w" "get_exec t (en_reg env) = Inr p" "ready fresh t c"
  shows "fair_run env c (exec_plugin env call d t p c w)"
proof -
  have s: "sound env c" "caches_sound env w" "disciplined (en_reg env) fresh" using assms(1) by (simp_all add: credible_def)
  show ?thesis
  proof (cases p)
    case PlCache
    then show ?thesis using fair_run_cache [OF s(1,2), of t] by (simp add: exec_plugin_def Let_def fair_run_def)
  next
    case (PlHosts h)
    with fair_hosts [of t env h] assms(2) s show ?thesis by (simp add: exec_plugin_def)
  next
    case (PlForward f)
    then have "fair env c (run_ctx (run_forward env f d t c w))"
      using fair_forward assms(2) s(1) by simp
    with PlForward s(2) show ?thesis by (simp add: exec_plugin_def Let_def fair_run_def) (simp add: run_forward_def Let_def)
  next
    case (PlBlackhole rc)
    with s show ?thesis by (simp add: exec_plugin_def blackhole_exec_def fair_reject)
  next
    case (PlRedirect rules)
    then have "c_response c = None" using assms(2,3) disciplined_member(2) [OF s(3)] by (auto simp: ready_def)
    with PlRedirect fair_redirect [of t env rules c] assms(2) s show ?thesis by (simp add: exec_plugin_def)
  next
    case (PlEcs e)
    with s show ?thesis by (simp add: exec_plugin_def fair_ecs)
  next
    case (PlNoEcs b)
    with s show ?thesis by (simp add: exec_plugin_def fair_no_ecs)
  next
    case (PlSequence q)
    with fair_seq_run [OF assms(1) pending_Nil disciplined_member(1) [OF s(3)]] assms(2,3) [unfolded ready_def]
    show ?thesis by (simp add: exec_plugin_def)
  next
    case (PlFallback f)
    with fair_fallback_run [OF assms(1)] show ?thesis by (simp add: exec_plugin_def)
  qed
qed

end

lemma credible_meet: "credible env fresh c w \<Longrightarrow> credible env fresh c (meet_others env w)"
  by (simp add: credible_def caches_sound_meet)

lemma fair_caller_exec_tag: "fair_caller (exec_tag depth env) env fresh"
proof (induction depth)
  case 0
  show ?case
    by (rule fair_caller.intro [OF caller_exec_tag]) (simp add: fair_caller_axioms_def credible_refl del: fair_run_triple)
next
  case (Suc depth)
  show ?case
  proof (rule fair_caller.intro [OF caller_exec_tag], rule fair_caller_axioms.intro)
    fix c t d and w :: "'a world"
    assume s: "credible env fresh c w" "ready fresh t c"
    then show "fair_run env c (exec_tag (Suc depth) env d t c w)"
      using fair_caller.fair_exec_plugin [OF Suc credible_meet [OF s(1)] _ s(2)] credible_refl [OF s(1)]
      by (simp del: fair_run_triple split: sum.split)
  next
    fix c :: "'a ctx" and t d and w :: "'a world"
    assume "quiet_tag (en_reg env) t" "c_response c = None"
    then show "c_response (run_ctx (exec_tag (Suc depth) env d t c w)) = None"
      by (simp add: silent_exec_plugin split: sum.split)
  qed
qed

interpretation fair_pipeline: fair_caller "exec_tag depth env" env fresh for depth env fresh
  by (rule fair_caller_exec_tag)

section \<open>The answer\<close>

lemma removed_ecs_records: "records (remove_ecs m) = records m"
  by (simp add: remove_ecs_def records_def)

lemma fair_handle_finish:
  assumes "fair env c0 c" "c_rewrites c0 = []" "m_queries (c_query c0) = m_queries (c_original c)"
    and "handle_finish env c w = (x, c', w')" "c_response c' = Some m" "r \<in> set (records m)"
  shows "sourced env (m_queries (c_original c)) r"
proof -
  have "route env (m_queries (c_original c)) (drop 0 (c_rewrites c)) (m_queries (c_query c))"
    using assms(1-3) by (auto simp: fair_def follows_def)
  moreover obtain m1 where "response_for_query (en_lib env) (c_original c) 0 c = Some m1" "records m1 = records m"
    using assms(4,5) by (auto simp: handle_finish_def finalize_response_def Let_def removed_ecs_records split: if_splits)
  ultimately show ?thesis
    using sourced_reply [of env c "c_original c" 0 "en_lib env" m1 r] assms(1,6) by (simp add: fair_def)
qed

lemma caches_sound_finish:
  "handle_finish env c w = (x, c', w') \<Longrightarrow> caches_sound env w \<Longrightarrow> caches_sound env w'"
  by (auto simp: handle_finish_def Let_def)

lemma fair_reject_after: "fair env c c1 \<Longrightarrow> fair env c (reject rc c1)"
  by (rule fair_trans [OF _ fair_reject])

lemma original_reject: "c_original (reject rc c) = c_original c"
  by (simp add: reject_def)

lemma fair_begin: "sound env c \<Longrightarrow> fair env c (begin_pipeline e c)"
  by (rule fair_frame) (simp_all add: begin_pipeline_def)

lemma fair_handle:
  assumes "credible env fresh c w" "c_response c = None" "handle env entry c timeout w = (x, c', w')"
  shows "caches_sound env w' \<and> (x = Inr (Inr ()) \<longrightarrow> c_response c' \<noteq> None \<longrightarrow>
     (\<exists>c1 w1. fair env c c1 \<and> c_original c1 = c_original c \<and> handle_finish env c1 w1 = (x, c', w')))"
proof (cases "classify_incoming (c_query c)")
  case Drop
  with assms show ?thesis by (auto simp: handle_def credible_def)
next
  case ReplyNotImp
  with assms(3) have f: "handle_finish env (reject NotImp c) w = (x, c', w')" by (simp add: handle_def)
  then have "caches_sound env w'" using caches_sound_finish assms(1) by (auto simp: credible_def)
  with f show ?thesis using fair_reject original_reject by blast
next
  case Process
  let ?s = "begin_pipeline entry c"
  obtain r c1 w1 where ex: "exec_tag call_depth env (w_now w + timeout) entry ?s w = (r, c1, w1)"
    by (metis prod.exhaust)
  have b: "fair env c ?s" using assms(1) by (simp add: credible_def fair_begin)
  have "ready fresh entry ?s" using assms(2) by (simp add: ready_def begin_pipeline_def)
  from fair_pipeline.call_fair [OF credible_fair [OF assms(1) b] this, of call_depth "w_now w + timeout"] ex
  have f: "fair env ?s c1" "caches_sound env w1" by simp_all
  have c1: "fair env c c1" by (rule fair_trans [OF b f(1)])
  have o: "c_original c1 = c_original c"
    using evolves_original [OF pipeline.evolves_call [OF ex]] by simp
  have fin: ?thesis if "handle_finish env c2 w1 = (x, c', w')" "c2 = c1 \<or> c2 = reject ServFail c1" for c2
    using that(2) caches_sound_finish [OF that(1) f(2)] that(1) c1 o fair_reject_after [OF c1, of ServFail]
      original_reject [of ServFail c1] by metis
  show ?thesis
  proof (cases "get_exec entry (en_reg env)")
    case (Inl e)
    with Process assms show ?thesis by (auto simp: handle_def Let_def credible_def)
  next
    case (Inr p)
    note h = assms(3) [unfolded handle_def, simplified Process Inr Let_def ex, simplified]
    show ?thesis
    proof (cases r)
      case (Inl st)
      with h f(2) fin show ?thesis by (cases st) auto
    next
      case (Inr a)
      with h fin show ?thesis by (cases a) (auto split: if_splits)
    qed
  qed
qed

lemma answers_sourced:
  assumes "trusted env" "guarded (en_reg env)" "caches_sound env w"
    and "handle env entry (ctx_new i now q cl pr) timeout w = (Inr (Inr ()), c', w')"
    and "c_response c' = Some m" "r \<in> set (records m)"
  shows "sourced env (m_queries q) r"
proof -
  let ?c = "ctx_new i now q cl pr"
  obtain fresh where "disciplined (en_reg env) fresh" using assms(2) by (auto simp: guarded_def)
  then have s: "credible env fresh ?c w" "c_response ?c = None" "c_rewrites ?c = []"
    "m_queries (c_query ?c) = m_queries (c_original ?c)"
    using assms(1-3) by (simp_all add: credible_def sound_def ctx_new_def)
  from fair_handle [OF s(1,2) assms(4)] assms(5) obtain c1 w1 where
    c1: "fair env ?c c1" "c_original c1 = c_original ?c" "handle_finish env c1 w1 = (Inr (Inr ()), c', w')"
    by auto
  from fair_handle_finish [OF c1(1) s(3) _ c1(3) assms(5,6)] s(4) c1(2) show ?thesis by simp
qed

section \<open>Guarded pipelines\<close>

text \<open>
  The two pipelines of \<^verbatim>\<open>tests/cache_regressions.rs\<close>, with the redirect before the cache and
  behind it, are guarded.
\<close>

lemma regression_pipelines_guarded:
  fixes r :: "'n registry"
  defines "main \<equiv> \<lambda>ss. PlSequence \<lparr>sq_tag = ''main'', sq_steps = ss\<rparr>"
    and "accept \<equiv> \<lparr>st_matchers = [MHasResp], st_exec = ExBuiltin BAccept\<rparr>"
    and "step \<equiv> \<lambda>t. \<lparr>st_matchers = [], st_exec = ExPlugin t\<rparr>"
  assumes "rg_execs r = [(''redirect'', PlRedirect rules), (''hosts'', PlHosts h), (''cache'', PlCache), (''main'', main ss)]"
    and "ss \<in> {[step ''redirect'', step ''cache'', accept, step ''hosts''],
      [step ''cache'', accept, step ''redirect'', step ''hosts'']}"
  shows "guarded r"
  unfolding guarded_def
  by (rule exI [of _ "\<lambda>t. t \<in> {''redirect'', ''main''}"])
    (use assms in \<open>auto simp: disciplined_def silent_after_def quiet_tag_def step_calls_def get_exec_def\<close>)

section \<open>Why redirects must be guarded\<close>

text \<open>
  When a redirect runs after a response was made, a cache step behind it stores that response under
  the key of the new name: the records of the old name answer whoever asks for the new one.
\<close>

lemma late_redirect_mixes:
  fixes c t L
  defines "c1 \<equiv> rewrite_name L t c"
  assumes "c_response c = Some m" "\<not> c_from_cache c" "cacheable_edns m" "cache_inv ca"
    and "key_of L (ca_everything ca) c1 = Some k" "cache_peek k ca = None"
    and "storable (rebind_response m (c_query c1))" "wire_encode L (rebind_response m (c_query c1)) = Some b"
    and "cache_snapshot L c1 ca = Some l" "cache_store_lookup L now c1 l ca = Some ca'"
  shows "\<exists>e. cache_peek k ca' = Some e \<and> e_wire e = b"
proof -
  have c1: "c_response c1 = Some m" "\<not> c_from_cache c1"
    using assms(2,3) by (simp_all add: c1_def rewrite_name_def Let_def split: list.split)
  have l: "cl_key l = k" "cl_query l = c_query c1" "cl_rewrite_start l = length (c_rewrites c1)"
    using assms(10,6) by (auto simp: cache_snapshot_def rewrite_count_def)
  have "cache_store L now k (rebind_response m (c_query c1)) ca = Some ca'"
    using assms(11,4) c1 by (simp add: cache_store_lookup_def l response_for_query_def)
  with assms(8,9) show ?thesis
    using cache_entries.peek_put_same [OF assms(5)]
    by (auto simp: cache_store_def storable_def dns_encode_def cache_put_def [symmetric]
        split: if_splits option.splits)
qed

section \<open>Empty caches and refreshes\<close>

lemma cache_sound_empty: "cache_inv ca \<Longrightarrow> (\<And>k. cache_peek k ca = None) \<Longrightarrow> cache_sound env ca"
  by (simp add: cache_sound_def)

lemma cache_sound_flush: "cache_sound env ca \<Longrightarrow> cache_sound env (cache_flush ca)"
  by (rule cache_sound_empty)
    (simp_all add: cache_sound_def cache_entries.inv_clear cache_entries.peek_clear)

lemma caches_sound_flush:
  assumes "caches_sound env w" "flush_handler web hs body (w_caches w) = (x, cs)"
  shows "caches_sound env (w\<lparr>w_caches := cs\<rparr>)"
proof -
  have "caches_sound env (w\<lparr>w_caches := map (\<lambda>(t, ca). (t, cache_flush ca)) (w_caches w)\<rparr>)"
    using assms(1) by (auto simp: caches_sound_def cache_sound_flush)
  moreover have "caches_sound env (w\<lparr>w_caches := AList.update t (cache_flush ca) (w_caches w)\<rparr>)"
    if "map_of (w_caches w) t = Some ca" for t ca
    by (rule caches_sound_update [OF assms(1) cache_sound_flush [OF caches_sound_member [OF assms(1) that]]])
  ultimately show ?thesis
    using assms by (auto simp: flush_handler_def split: sum.splits option.splits)
qed

lemma clone_silent: "c_response (clone_for_lazy i now c) = None"
  by (simp add: clone_for_lazy_def ctx_new_def Let_def split: option.split)

end
