(* ===== verification/Config_Laws.thy ===== *)
theory Config_Laws
  imports Server_Laws
begin

text \<open>
  What loading, checking and reloading a configuration guarantee: a loaded configuration is clean,
  a cycle of includes is an error, the graph check accepts exactly the graphs that end, and a reload
  either changes nothing or leaves a runtime that serves every listener.
\<close>

section \<open>A loaded configuration\<close>

definition clean_server :: "server_config \<Rightarrow> bool" where
  "clean_server s \<longleftrightarrow> normalize_entry (sv_exec s) = Inr (sv_exec s)"

definition clean_plugin :: "plugin_config \<Rightarrow> bool" where
  "clean_plugin p \<longleftrightarrow> server_proto (pc_ty p) = None \<and> pc_base p \<noteq> []"

definition clean_config :: "config \<Rightarrow> bool" where
  "clean_config cfg \<longleftrightarrow> list_all clean_server (cf_servers cfg) \<and> list_all clean_plugin (cf_plugins cfg)"

lemma lift_fold_keeps:
  "res_fold lift_plugin acc ps = Inr acc' \<Longrightarrow> list_all (\<lambda>p. server_proto (pc_ty p) = None) (fst acc)
    \<Longrightarrow> list_all (\<lambda>p. server_proto (pc_ty p) = None) (fst acc')"
  by (induction ps arbitrary: acc) (fastforce simp: lift_plugin_def split: option.splits)+

lemma normalize_all_clean:
  "res_map (\<lambda>s. res_bind (normalize_entry (sv_exec s)) (\<lambda>e. Inr (s\<lparr>sv_exec := e\<rparr>))) xs = Inr ss
    \<Longrightarrow> list_all clean_server ss"
  by (induction xs arbitrary: ss) (auto simp: clean_server_def dest: normalize_entry_idem)

lemma normalize_entries_clean:
  assumes "normalize_entries cfg = Inr cfg'"
  shows "list_all clean_server (cf_servers cfg')" "cf_plugins cfg' = cf_plugins cfg"
proof -
  obtain ss where ss: "res_map (\<lambda>s. res_bind (normalize_entry (sv_exec s)) (\<lambda>e. Inr (s\<lparr>sv_exec := e\<rparr>)))
      (cf_servers cfg) = Inr ss" "cfg' = cfg\<lparr>cf_servers := ss\<rparr>"
    using assms by (auto simp: normalize_entries_def)
  from normalize_all_clean [OF ss(1)] ss(2) show "list_all clean_server (cf_servers cfg')" "cf_plugins cfg' = cf_plugins cfg" by simp_all
qed

lemma stamp_base_clean:
  assumes "list_all clean_server (cf_servers cfg)"
    and "list_all (\<lambda>p. server_proto (pc_ty p) = None) (cf_plugins cfg)" "cf_base cfg \<noteq> []"
  shows "clean_config (stamp_base cfg)"
  using assms by (auto simp: clean_config_def stamp_base_def Let_def list_all_iff clean_server_def clean_plugin_def)

lemma load_own_clean:
  assumes "load_own ld path = Inr cfg"
  shows "clean_config cfg"
proof -
  obtain raw lifted cfg1 where c: "lift_server_plugins raw = Inr lifted" "normalize_entries lifted = Inr cfg1"
      "cfg = stamp_base (cfg1\<lparr>cf_base := base_dir (ld_parent ld path)\<rparr>)"
    using assms by (auto simp: load_own_def config_from_yaml_def)
  obtain acc where a: "res_fold lift_plugin ([], cf_servers raw) (cf_plugins raw) = Inr acc"
      "cf_plugins lifted = fst acc"
    using c(1) by (auto simp: lift_server_plugins_def split: prod.splits)
  have "list_all (\<lambda>p. server_proto (pc_ty p) = None) (cf_plugins cfg1)"
    using lift_fold_keeps [OF a(1)] a(2) normalize_entries_clean(2) [OF c(2)] by simp
  with normalize_entries_clean(1) [OF c(2)] show ?thesis
    unfolding c(3) by (intro stamp_base_clean) simp_all
qed

lemma merge_clean: "clean_config a \<Longrightarrow> clean_config b \<Longrightarrow> clean_config (merge_config a b)"
  by (simp add: clean_config_def merge_config_def)

declare load_with_stack.simps [simp del]

lemma load_with_stack_Inr:
  "load_with_stack ld stack path = Inr cfg \<longleftrightarrow> length stack < 64
     \<and> (\<exists>canonical own. ld_canonicalize ld path = Some canonical \<and> canonical \<notin> set stack
        \<and> load_own ld path = Inr own \<and> load_includes ld (stack @ [canonical]) (cf_include own) own = Inr cfg)"
  by (auto simp: load_with_stack.simps split: option.splits)

lemma load_clean:
  "load_with_stack ld stack path = Inr cfg \<Longrightarrow> clean_config cfg"
  "load_includes ld stack rels cfg0 = Inr cfg \<Longrightarrow> clean_config cfg0 \<Longrightarrow> clean_config cfg"
proof (induction ld stack path and ld stack rels cfg0 arbitrary: cfg and cfg
    rule: load_with_stack_load_includes.induct)
  case (1 ld stack path)
  from 1(2) obtain c own where c: "length stack < 64" "ld_canonicalize ld path = Some c" "c \<notin> set stack"
      "load_own ld path = Inr own" "load_includes ld (stack @ [c]) (cf_include own) own = Inr cfg"
    unfolding load_with_stack_Inr by blast
  from c(1) have "\<not> 64 \<le> length stack" by simp
  from 1(1) [OF this c(2,3) c(4) c(5) load_own_clean [OF c(4)]] show ?case .
next
  case (2 ld stack cfg0)
  then show ?case by simp
next
  case (3 ld stack rel rels cfg0)
  from 3(3) obtain extra where e: "load_with_stack ld stack (resolve_path (cf_base cfg0) rel) = Inr extra"
      "load_includes ld stack rels (merge_config cfg0 extra) = Inr cfg"
    by auto
  from 3(2) [OF e(1) e(2) merge_clean [OF 3(4) 3(1) [OF e(1)]]] show ?case .
qed

text \<open>
  C27. A configuration that loads is ready to be built: every entry is in the form the registry uses,
  no server plugin is left among the plugins of the file or of any file it includes, and every
  plugin knows the directory its relative paths are meant against.
\<close>
theorem load_file_clean:
  assumes "load_file ld path = Inr cfg"
  shows "list_all (\<lambda>s. normalize_entry (sv_exec s) = Inr (sv_exec s)) (cf_servers cfg)
    \<and> list_all (\<lambda>p. server_proto (pc_ty p) = None \<and> pc_base p \<noteq> []) (cf_plugins cfg)"
proof -
  have "clean_config cfg"
    using load_clean(1) assms unfolding load_file_def by blast
  then show ?thesis by (simp add: clean_config_def clean_server_def clean_plugin_def cong: list.pred_cong)
qed

section \<open>Cycles of includes\<close>

inductive file_includes :: "loader \<Rightarrow> string \<Rightarrow> string \<Rightarrow> bool" for ld where
  "load_own ld p = Inr cfg \<Longrightarrow> rel \<in> set (cf_include cfg)
    \<Longrightarrow> file_includes ld p (resolve_path (cf_base cfg) rel)"

lemma load_includes_member:
  "load_includes ld stack rels cfg = Inr cfg' \<Longrightarrow> rel \<in> set rels
    \<Longrightarrow> \<exists>extra. load_with_stack ld stack (resolve_path (cf_base cfg) rel) = Inr extra"
proof (induction rels arbitrary: cfg)
  case Nil
  then show ?case by simp
next
  case (Cons r rels)
  then obtain extra where e: "load_with_stack ld stack (resolve_path (cf_base cfg) r) = Inr extra"
      "load_includes ld stack rels (merge_config cfg extra) = Inr cfg'" by auto
  have "cf_base (merge_config cfg extra) = cf_base cfg" by (simp add: merge_config_def)
  with Cons.IH [OF e(2)] Cons.prems(2) e(1) show ?case by auto
qed

lemma included_loads:
  assumes "file_includes ld p p'" "load_with_stack ld stack p = Inr cfg"
  shows "\<exists>c cfg'. ld_canonicalize ld p = Some c \<and> load_with_stack ld (stack @ [c]) p' = Inr cfg'"
  using assms
proof (cases rule: file_includes.cases)
  case (1 own rel)
  from assms(2) obtain c own' where c: "ld_canonicalize ld p = Some c" "load_own ld p = Inr own'"
      "load_includes ld (stack @ [c]) (cf_include own') own' = Inr cfg"
    unfolding load_with_stack_Inr by blast
  with 1 have "own' = own" by simp
  with c 1 load_includes_member [OF c(3), of rel] show ?thesis by auto
qed

lemma chain_loads:
  assumes "(file_includes ld)\<^sup>+\<^sup>+ p p'" "load_with_stack ld stack p = Inr cfg"
  shows "\<exists>c stack' cfg'. ld_canonicalize ld p = Some c \<and> c \<in> set stack' \<and> load_with_stack ld stack' p' = Inr cfg'"
  using assms(1)
proof induction
  case (base p')
  from included_loads [OF this assms(2)] obtain c cfg' where
    "ld_canonicalize ld p = Some c" "load_with_stack ld (stack @ [c]) p' = Inr cfg'" by blast
  moreover have "c \<in> set (stack @ [c])" by simp
  ultimately show ?case by blast
next
  case (step p' p'')
  then obtain c stack' cfg' where c: "ld_canonicalize ld p = Some c" "c \<in> set stack'"
      "load_with_stack ld stack' p' = Inr cfg'" by blast
  from included_loads [OF step.hyps(2) c(3)] obtain c' cfg'' where
    "load_with_stack ld (stack' @ [c']) p'' = Inr cfg''" by blast
  moreover have "c \<in> set (stack' @ [c'])" using c(2) by simp
  ultimately show ?case using c(1) by blast
qed

text \<open>
  C28. A file that includes itself, directly or through any number of other files and however its
  path is spelled, does not load: loading ends with an error.
\<close>
theorem include_cycles_rejected:
  assumes "(file_includes ld)\<^sup>+\<^sup>+ path path'" "ld_canonicalize ld path' = ld_canonicalize ld path"
  shows "\<exists>e. load_file ld path = Inl e"
proof (cases "load_file ld path")
  case (Inr cfg)
  then have "load_with_stack ld [] path = Inr cfg" by (simp add: load_file_def)
  from chain_loads [OF assms(1) this] obtain c stack' cfg' where
    "ld_canonicalize ld path = Some c" "c \<in> set stack'" "load_with_stack ld stack' path' = Inr cfg'" by blast
  with assms(2) show ?thesis unfolding load_with_stack_Inr by auto
qed simp

section \<open>The graph check\<close>

text \<open>
  C23. The check of the plugin graph accepts exactly the configurations in which the calls of every
  plugin are known, every call names an executable plugin, and no chain of calls from any plugin,
  in particular no cycle, visits more than 64 plugins.
\<close>
theorem graph_check_exact:
  "(validate_plugin_graph cfg = Inr ()) =
     (\<exists>es. graph_edges (cf_plugins cfg) = Inr es \<and> list_all (edge_le es max_pipeline_depth) (map fst es))"
proof -
  have "(validate_edges es = Inr ()) = list_all (edge_le es max_pipeline_depth) (map fst es)"
    if g: "graph_edges (cf_plugins cfg) = Inr es" for es
  proof -
    obtain tags where "edges_of (cf_plugins cfg) (tags, es)" using graph_edges_of [OF g] by blast
    then have "alist_ok es" by (simp add: edges_of_def)
    from validate_edges_iff [OF this] show ?thesis by (auto simp: list_all_iff)
  qed
  then show ?thesis by (auto simp: validate_plugin_graph_def)
qed

section \<open>Reload\<close>

text \<open>
  C26. A failed reload leaves the live runtime as it was. A reload that succeeds puts the built
  runtime of the file in its place, with the servers, the API address and the logging settings of
  the old one, and every listener that is already running finds its entry there.
\<close>
theorem reload_safe:
  "case reload L pf ld path previous of
     (Inl e, live) \<Rightarrow> live = previous
   | (Inr _, live) \<Rightarrow> (\<exists>cfg. load_file ld path = Inr cfg \<and> build L pf cfg = Inr live)
       \<and> cf_servers (rt_config live) = cf_servers (rt_config previous)
       \<and> cf_api_http (rt_config live) = cf_api_http (rt_config previous)
       \<and> cf_log (rt_config live) = cf_log (rt_config previous)
       \<and> list_all (\<lambda>s. \<exists>p. get_exec (sv_exec s) (rt_registry live) = Inr p) (cf_servers (rt_config previous))"
proof (cases "res_bind (load_file ld path) (build L pf)")
    case (Inl e)
    then show ?thesis by (simp add: reload_def)
  next
    case (Inr rt)
    then obtain cfg where cfg: "load_file ld path = Inr cfg" "build L pf cfg = Inr rt" by auto
    have "list_all (\<lambda>s. \<exists>p. get_exec (sv_exec s) (rt_registry rt) = Inr p) (cf_servers (rt_config rt))"
      using build_servers [OF cfg(2)] by (simp add: list_all_iff)
    with cfg show ?thesis by (simp add: reload_def)
qed

end
