(* ===== verification/Service_Laws.thy ===== *)
theory Service_Laws
  imports Config_Laws Commands Api
begin

text \<open>
  The service as a whole: what \<open>check\<close> accepts starts, every listener is served through any number
  of reloads, and the admin API refuses writes from foreign pages, flushes exactly what it is asked
  to and always answers a query.
\<close>

section \<open>Check and start\<close>

lemma fill_entry_listeners: "fill_entry d s = Inr s' \<Longrightarrow> sv_listeners s' = sv_listeners s"
  by (auto simp: fill_entry_def split: if_splits)

lemma res_map_from: "res_map f xs = Inr ys \<Longrightarrow> y \<in> set ys \<Longrightarrow> \<exists>x \<in> set xs. f x = Inr y"
  by (induction xs arbitrary: ys) auto

lemma build_listeners:
  assumes "build L pf cfg0 = Inr rt" "s \<in> set (cf_servers (rt_config rt))" "l \<in> set (sv_listeners s)"
  shows "validate_listener pf l = Inr ()"
proof -
  obtain cfg st where c: "validate_settings pf cfg = Inr ()" "build_registry L cfg st = Inr rt"
    using assms(1) by (auto simp: build_def)
  obtain dflt where "res_map (fill_entry dflt) (cf_servers cfg) = Inr (cf_servers (rt_config rt))"
    using c(2) by (auto simp: build_registry_def Let_def)
  from res_map_from [OF this assms(2)] obtain s0 where
    s0: "s0 \<in> set (cf_servers cfg)" "fill_entry dflt s0 = Inr s" by blast
  obtain vs where "res_map (\<lambda>s. res_map (validate_listener pf) (sv_listeners s)) (cf_servers cfg) = Inr vs"
    using c(1) by (auto simp: validate_settings_def split: if_splits)
  from res_map_member [OF this s0(1)] obtain us where
    "res_map (validate_listener pf) (sv_listeners s0) = Inr us" by blast
  from res_map_member [OF this] fill_entry_listeners [OF s0(2)] assms(3) show ?thesis by simp
qed

lemma validated_listener_starts:
  assumes "validate_listener pf l = Inr ()"
  shows "\<exists>p. listener_plan pf cores entry timeout l = Inr p"
proof -
  have "\<exists>p. doh_plan pf entry timeout l = Inr p"
    if "to_ascii_lowercase (li_protocol l) \<in> {''doh'', ''https'', ''http''}"
    using assms that
    by (auto simp: doh_plan_def validate_listener_def Let_def split: if_splits option.splits)
  moreover have "\<exists>c k. li_cert l = Some c \<and> li_key l = Some k
      \<and> (\<exists>a. load_acceptor (pf_pem pf) c k [] = Inr a)"
    if "to_ascii_lowercase (li_protocol l) \<in> {''tls'', ''dot''}"
    using assms that by (auto simp: validate_listener_def Let_def split: if_splits)
  moreover have "to_ascii_lowercase (li_protocol l) \<in>
      {''udp'', [], ''tcp'', ''tls'', ''dot'', ''doh'', ''https'', ''http''}"
    using assms by (auto simp: validate_listener_def Let_def split: if_splits)
  ultimately show ?thesis using assms by (auto simp: listener_plan_def Let_def)
qed

lemma with_context_Inr [simp]: "with_context ctx r = Inr x \<longleftrightarrow> r = Inr x"
  by (simp add: with_context_def split: sum.split)

lemma build_log_level: "build L pf cfg = Inr rt \<Longrightarrow> pf_log_level pf (lg_level (cf_log cfg))"
proof -
  assume b: "build L pf cfg = Inr rt"
  then obtain cfg' where "normalize_entries cfg = Inr cfg'" "validate_settings pf cfg' = Inr ()"
    by (auto simp: build_def)
  then show ?thesis by (auto simp: normalize_entries_def validate_settings_def split: if_splits)
qed

text \<open>
  C19. A configuration that \<open>check\<close> accepts can be started: once the log file opens, \<open>start\<close> builds the
  runtime, there is something to listen on, and no listener is refused for its settings, so that a bad
  certificate or address never shows up only once the service is running. The program then ends well
  when it is told to shut down, and with an error when one of the listeners dies.
\<close>
theorem check_means_start:
  assumes "main_run L pf cores lo ld y (Check path) = Exit out"
    and "\<And>lg. pf_log_level pf (lg_level lg) \<Longrightarrow> lo_filter lo (log_filter lg)" "\<And>p. lo_open lo p"
  shows "out = [''config ok ('' @ path @ '')'']
    \<and> (\<exists>rt plans. main_start L pf lo ld path = Inr rt \<and> serve_plans pf cores rt = Inr plans \<and> plans \<noteq> []
        \<and> list_all (\<lambda>p. \<exists>x. p = Inr x) plans)
    \<and> main_run L pf cores lo ld x (Start path)
        = (case x of ShutdownFirst \<Rightarrow> Exit [] | ServeFirst e \<Rightarrow> Failed (''serve'', serve_end e))"
proof -
  obtain line where "main_check L pf lo ld path = Inr line" "out = [line]"
    using assms(1) by (auto simp: main_run_def split: sum.splits)
  then obtain cfg rt where c: "load_file ld path = Inr cfg" "build L pf cfg = Inr rt" "validate_service rt = Inr ()"
    and out: "out = [''config ok ('' @ path @ '')'']"
    by (auto simp: main_check_def)
  obtain plans where p: "serve_plans pf cores rt = Inr plans" using c(3) by (simp add: serve_plans_def)
  have "plans \<noteq> []"
    using c(3) p by (auto simp: serve_plans_def validate_service_def list_all_iff split: if_splits option.splits)
  moreover have "list_all (\<lambda>p. \<exists>x. p = Inr x) plans"
    using p validated_listener_starts [OF build_listeners [OF c(2)]]
    by (auto simp: serve_plans_def list_all_iff split: option.splits)
  moreover have "\<exists>s. init_log lo (cf_log cfg) = Inr s"
    using assms(2) [OF build_log_level [OF c(2)]] assms(3) by (simp add: init_log_def split: option.split)
  then have "main_start L pf lo ld path = Inr rt" using c by (auto simp: main_start_def with_context_def)
  ultimately show ?thesis using out p by (simp add: main_run_def main_serve_def split: first.split)
qed

section \<open>Reloads\<close>

lemma reload_built:
  assumes "build L pf cfg0 = Inr live"
  shows "\<exists>cfg. build L pf cfg = Inr (snd (reload L pf ld path live))"
    and "cf_servers (rt_config (snd (reload L pf ld path live))) = cf_servers (rt_config live)"
proof -
  have "(\<exists>cfg. build L pf cfg = Inr (snd (reload L pf ld path live)))
    \<and> cf_servers (rt_config (snd (reload L pf ld path live))) = cf_servers (rt_config live)"
  proof (cases "res_bind (load_file ld path) (build L pf)")
    case (Inl e)
    with assms show ?thesis by (auto simp: reload_def)
  next
    case (Inr rt)
    then obtain cfg where "build L pf cfg = Inr rt" by auto
    with assms Inr show ?thesis by (auto simp: reload_def)
  qed
  then show "\<exists>cfg. build L pf cfg = Inr (snd (reload L pf ld path live))"
    "cf_servers (rt_config (snd (reload L pf ld path live))) = cf_servers (rt_config live)" by blast+
qed

lemma reload_loop_built:
  "build L pf cfg0 = Inr live \<Longrightarrow> (\<exists>cfg. build L pf cfg = Inr (reload_loop L pf path lds live))
    \<and> cf_servers (rt_config (reload_loop L pf path lds live)) = cf_servers (rt_config live)"
proof (induction lds arbitrary: live cfg0)
  case Nil
  then show ?case by auto
next
  case (Cons ld lds)
  obtain cfg where "build L pf cfg = Inr (snd (reload L pf ld path live))"
    using reload_built(1) [OF Cons.prems] by blast
  from Cons.IH [OF this] reload_built(2) [OF Cons.prems] show ?case by simp
qed

text \<open>
  A listener started with a built runtime is served through any number of reloads, with whatever
  files the reloads find and whether they succeed or not: every request to it is taken to its end.
\<close>
theorem served_after_reloads:
  assumes "build L pf cfg = Inr rt" "s \<in> set (cf_servers (rt_config rt))"
    and "en_reg env = rt_registry (reload_task L pf path hup rt)"
    and "calm env T" "safe_world env T w" "w_now w + timeout \<le> T"
  shows "\<exists>c' w'. handle env (sv_exec s) c timeout w = (Inr (Inr ()), c', w') \<and> safe_world env T w'"
proof -
  obtain cfg' where live: "build L pf cfg' = Inr (reload_task L pf path hup rt)"
    "cf_servers (rt_config (reload_task L pf path hup rt)) = cf_servers (rt_config rt)"
    using reload_loop_built [OF assms(1)] assms(1) by (cases hup) (auto simp: reload_task_def)
  then have "get_exec (sv_exec s) (en_reg env) \<noteq> Inl (UnknownTag (sv_exec s))"
    using build_servers [OF live(1), of s] assms(2,3) by auto
  with handle_ends [OF live(1) assms(3-6), of "sv_exec s" c] show ?thesis by blast
qed

section \<open>Queries of the console\<close>

lemma clean_tag_kept: "\<not> bad_tag t \<Longrightarrow> trim_start_matches (CHR ''$'') (trim t) = t"
  by (cases t) (auto simp: bad_tag_def trim_no_ws trim_start_matches_def trim_start_by_def)

lemma query_message_400: "query_message L rnd req = Inl (st, e) \<Longrightarrow> st = 400"
proof (cases "qr_ecs req")
  case None
  then show "query_message L rnd req = Inl (st, e) \<Longrightarrow> st = 400"
    by (auto simp: query_message_def Let_def res_bind_Inl_iff ok_or_def split: option.splits sum.splits)
next
  case (Some spec)
  then show "query_message L rnd req = Inl (st, e) \<Longrightarrow> st = 400"
    by (cases "parse_ecs_spec L spec")
      (auto simp: query_message_def Let_def res_bind_Inl_iff ok_or_def split: option.splits sum.splits)
qed

lemma query_entry_known: "query_entry reg req = Inr entry \<Longrightarrow> \<exists>p. get_exec entry reg = Inr p"
proof -
  assume q: "query_entry reg req = Inr entry"
  then obtain e where e: "(case get_exec e reg of Inl err \<Rightarrow> Inl (400 :: nat, error_display err) | Inr _ \<Rightarrow> Inr e) = Inr entry"
    by (auto simp: query_entry_def)
  then show ?thesis by (cases "get_exec e reg") auto
qed

lemma admin_query_ends:
  assumes "build L pf cfg = Inr rt" "en_reg env = rt_registry rt"
    and "calm env T" "safe_world env T w" "w_now w + nanos 5 \<le> T"
  shows "(\<exists>r w'. query_handler env web rnd req w = (QueryOk r, w') \<and> safe_world env T w')
    \<or> (\<exists>e w'. query_handler env web rnd req w = (QueryErr 400 e, w') \<and> w_caches w' = w_caches w)"
proof -
  have cl: "st = 400" if "query_client req = Inl (st, e)" for st e
    using that by (auto simp: query_client_def split: option.splits)
  have en: "st = 400" if "query_entry (en_reg env) req = Inl (st, e)" for st e
    using that by (auto simp: query_entry_def res_bind_Inl_iff ok_or_def split: option.splits sum.splits)
  show ?thesis
  proof (cases "query_message (en_lib env) rnd req")
    case (Inl x)
    then show ?thesis using query_message_400 by (cases x) (auto simp: query_handler_def)
  next
    case m: (Inr m)
    show ?thesis
    proof (cases "query_client req")
      case (Inl x)
      then show ?thesis using cl m by (cases x) (auto simp: query_handler_def)
    next
      case client: (Inr client)
      let ?c = "(ctx_new (w_next_id w) (w_now w) m client PHttps)\<lparr>c_trace_enabled := True\<rparr>"
      let ?w = "w\<lparr>w_next_id := snd (next_id (w_next_id w))\<rparr>"
      show ?thesis
      proof (cases "query_entry (en_reg env) req")
        case (Inl x)
        then show ?thesis using en m client by (cases x) (auto simp: query_handler_def Let_def)
      next
        case entry: (Inr entry)
        then obtain p where p: "get_exec entry (en_reg env) = Inr p"
          using query_entry_known by blast
        then have "\<not> bad_tag entry"
          using assms(2) by (auto simp: get_exec_def dest: build_tags_clean [OF assms(1)])
        then have q: "handle_query env ?c entry ?w = handle env entry ?c (nanos 5) ?w"
          by (simp add: handle_query_def clean_tag_kept)
        have "safe_world env T ?w" "w_now ?w + nanos 5 \<le> T"
          using assms(4,5) by (simp_all add: safe_world_def)
        from handle_ends [OF assms(1-3) this, of entry ?c] p obtain c' w' where
          "handle env entry ?c (nanos 5) ?w = (Inr (Inr ()), c', w')" "safe_world env T w'" by auto
        then show ?thesis using m client entry q by (simp add: query_handler_def Let_def)
      qed
    qed
  qed
qed

section \<open>Flushing\<close>

lemma map_of_map_snd: "map_of (map (\<lambda>(t, ca). (t, f ca)) m) k = map_option f (map_of m k)"
  by (induction m) auto

text \<open>
  C39. A flush empties exactly the caches it reports, the one the body named or all of them when it named
  none, and leaves the others as they are; a refused flush changes nothing.
\<close>
theorem flush_exact:
  assumes "alist_ok caches" "list_all (\<lambda>(t, ca). cache_inv ca) caches"
    and "flush_handler web hs body caches = (r, caches')"
  shows "case r of
      Inl (st, e) \<Rightarrow> caches' = caches \<and> st \<in> {400, 404, 415}
    | Inr tags \<Rightarrow> set tags \<subseteq> fst ` set caches
        \<and> (body = [] \<or> wb_flush_req web body = Some None \<longrightarrow> set tags = fst ` set caches)
        \<and> (\<forall>tag. body \<noteq> [] \<and> wb_flush_req web body = Some (Some tag) \<longrightarrow> tags = [tag])
        \<and> (\<forall>t. map_of caches' t = (if t \<in> set tags then map_option cache_flush (map_of caches t) else map_of caches t))
        \<and> (\<forall>t \<in> set tags. \<forall>ca k. map_of caches' t = Some ca \<longrightarrow> cache_peek k ca = None)"
proof -
  have empty: "cache_peek k (cache_flush ca) = None" if "map_of caches t = Some ca" for t ca k
    using map_of_SomeD [OF that] assms(2)
    by (auto simp: list_all_iff intro: cache_entries.peek_clear)
  show ?thesis
  proof (cases "flush_req web hs body")
    case (Inl e)
    with assms(3) show ?thesis
      by (auto simp: flush_handler_def flush_req_def ok_or_def split: if_splits option.splits)
  next
    case (Inr x)
    show ?thesis
    proof (cases x)
      case None
      with Inr assms(3) have "r = Inr (sort (map fst caches))"
          "caches' = map (\<lambda>(t, ca). (t, cache_flush ca)) caches"
        by (simp_all add: flush_handler_def)
      moreover have "map_of caches t = None" if "t \<notin> fst ` set caches" for t
        using that by (simp add: map_of_eq_None_iff)
      moreover have "body = [] \<or> wb_flush_req web body = Some None"
        using Inr None by (auto simp: flush_req_def ok_or_def split: if_splits option.splits)
      ultimately show ?thesis by (auto simp: map_of_map_snd intro: empty)
    next
      case (Some tag)
      have b: "body \<noteq> []" "wb_flush_req web body = Some (Some tag)"
        using Inr Some by (auto simp: flush_req_def ok_or_def split: if_splits option.splits)
      show ?thesis
      proof (cases "map_of caches tag")
        case None
        with Inr Some assms(3) show ?thesis by (auto simp: flush_handler_def)
      next
        case ca: (Some ca)
        with Inr Some assms(3) have "r = Inr [tag]" "caches' = AList.update tag (cache_flush ca) caches"
          by (simp_all add: flush_handler_def)
        moreover have "tag \<in> fst ` set caches" using map_of_SomeD [OF ca] by force
        ultimately show ?thesis using b ca empty [OF ca] by (auto simp: update_conv')
      qed
    qed
  qed
qed

section \<open>Writes from other pages\<close>

definition foreign_source :: "'n web \<Rightarrow> headers \<Rightarrow> bool" where
  \<comment> \<open>specification: the browser says the page is of another site, or names as origin anything but
      the very address the request was sent to\<close>
  "foreign_source web hs \<longleftrightarrow>
     (\<exists>v \<in> set (get_all ''sec-fetch-site'' hs). v \<noteq> Some ''same-origin'' \<and> v \<noteq> Some ''none'')
     \<or> (\<exists>v \<in> set (get_all ''origin'' hs). \<forall>orig host target. Option.bind v (wb_url web) = Some orig
          \<longrightarrow> get_all ''host'' hs = [Some host] \<longrightarrow> wb_url web (ur_scheme orig @ ''://'' @ host) = Some target
          \<longrightarrow> ur_origin target \<noteq> ur_origin orig)"

lemma host_is_originD:
  "host_is_origin web hs orig \<Longrightarrow> \<exists>host target. get_all ''host'' hs = [Some host]
     \<and> wb_url web (ur_scheme orig @ ''://'' @ host) = Some target \<and> ur_origin target = ur_origin orig"
proof (cases "get_all ''host'' hs")
  case (Cons v vs)
  assume h: "host_is_origin web hs orig"
  with Cons obtain host where "get_all ''host'' hs = [Some host]"
    by (cases v; cases vs) (auto simp: host_is_origin_def)
  with h show ?thesis by (auto simp: host_is_origin_def split: option.splits)
qed (simp add: host_is_origin_def)

lemma foreign_not_trusted:
  assumes "foreign_source web hs"
  shows "\<not> trusted_browser_source web hs"
proof
  assume t: "trusted_browser_source web hs"
  then have s: "site_allowed hs" by (auto simp: trusted_browser_source_def split: if_splits)
  from assms consider v where "v \<in> set (get_all ''sec-fetch-site'' hs)" "v \<noteq> Some ''same-origin''" "v \<noteq> Some ''none''"
    | v where "v \<in> set (get_all ''origin'' hs)" "\<And>orig host target. Option.bind v (wb_url web) = Some orig
          \<Longrightarrow> get_all ''host'' hs = [Some host] \<Longrightarrow> wb_url web (ur_scheme orig @ ''://'' @ host) = Some target
          \<Longrightarrow> ur_origin target \<noteq> ur_origin orig"
    unfolding foreign_source_def by blast
  then show False
  proof cases
    case 1
    with s show False by (auto simp: site_allowed_def split: list.splits)
  next
    case 2
    then have "get_all ''origin'' hs = [v]"
      using t by (auto simp: trusted_browser_source_def split: list.splits if_splits)
    with t s obtain orig where "Option.bind v (wb_url web) = Some orig" "host_is_origin web hs orig"
      by (auto simp: trusted_browser_source_def split: option.splits)
    with 2(2) show False by (auto dest!: host_is_originD)
  qed
qed

lemma foreign_writes_refused:
  assumes "response_headers web next rq s = (r, s')" "strip_prefix ''/api/'' (rq_path rq) = Some p"
    and "\<not> method_is_safe (rq_method rq)" "foreign_source web (rq_headers rq)"
  shows "s' = s \<and> (\<exists>x. r = Some (harden x) \<and> rs_status x = 403)"
proof -
  have "\<not> trusted_browser_source web (rq_headers rq)" by (rule foreign_not_trusted [OF assms(4)])
  with assms show ?thesis by (auto simp: response_headers_def)
qed

end
