(* ===== verification/Console_Laws.thy ===== *)
theory Console_Laws
  imports Console Service_Laws
begin

text \<open>
  What the admin API guarantees as a whole: nothing but a trusted POST changes anything and every
  response is hardened; on a built runtime every request is answered, without a server error; and
  the view of the system does not depend on the secrets in the configuration.
\<close>

section \<open>Headers\<close>

definition page_policy :: "(string \<times> string) list" where
  \<comment> \<open>specification: nothing is loaded, framed or posted to but from the console's own origin\<close>
  "page_policy = (''default-src'', ''none'')
     # map (\<lambda>d. (d, ''self'')) [''script-src'', ''style-src'', ''img-src'', ''font-src'', ''connect-src'']
     @ [(''base-uri'', ''none''), (''frame-ancestors'', ''none''), (''form-action'', ''self'')]"

definition directive_text :: "string \<times> string \<Rightarrow> string" where
  "directive_text ds = fst ds @ '' '' @ CHR 0x27 # snd ds @ [CHR 0x27]"

definition page_policy_text :: string where
  "page_policy_text = directive_text (hd page_policy)
     @ concat (map (\<lambda>ds. ''; '' @ directive_text ds) (tl page_policy))"

definition security_headers :: "(string \<times> string) list" where
  \<comment> \<open>specification: what every response of the API carries\<close>
  "security_headers = [(''cache-control'', ''no-store''), (''content-security-policy'', page_policy_text),
     (''x-content-type-options'', ''nosniff''), (''referrer-policy'', ''no-referrer'')]"

definition header_values :: "string \<Rightarrow> response \<Rightarrow> string list" where
  "header_values k r = map snd (filter (\<lambda>(n, _). n = k) (rs_headers r))"

definition hardened :: "response \<Rightarrow> bool" where
  \<comment> \<open>each of the headers occurs once, with its value\<close>
  "hardened r \<longleftrightarrow> list_all (\<lambda>(k, v). header_values k r = [v]) security_headers"

lemma filter_header_insert:
  "filter (\<lambda>(n, _). n = k) (header_insert k' v hs) = (if k = k' then [(k, v)] else filter (\<lambda>(n, _). n = k) hs)"
  by (auto simp: header_insert_def filter_empty_conv intro: filter_cong)

lemma content_policy_text: "content_policy = page_policy_text"
  by (simp add: content_policy_def page_policy_text_def page_policy_def directive_text_def)

lemma hardened_harden: "hardened (harden r)"
  by (simp add: hardened_def security_headers_def header_values_def harden_def filter_header_insert
      content_policy_text)

lemma harden_status [simp]: "rs_status (harden r) = rs_status r"
  by (simp add: harden_def)

lemma response_headers_hardened:
  "response_headers web next rq s = (Some r, s') \<Longrightarrow> hardened r"
  by (auto simp: response_headers_def hardened_harden split: if_splits prod.splits)

section \<open>What a request may change\<close>

definition write_routes :: "string set" where
  "write_routes = {''/api/query'', ''/api/cache/flush''}"

lemma api_route_reads:
  "api_route env web pg st rt rnd rq w = (r, w') \<Longrightarrow> w' \<noteq> w \<Longrightarrow>
     rq_method rq = ''POST'' \<and> rq_path rq \<in> write_routes"
  by (auto simp: api_route_def post_route_def write_routes_def split: option.splits if_splits)

text \<open>
  C20. Only a POST to the query console or to the cache flush changes anything, and only when it does not
  come from a page of another origin, which is refused with 403. Every response, the refusals and the
  errors included, carries the security headers, each exactly once, with a content policy that lets the
  page load from and post to its own origin only.
\<close>
theorem api_changes_trusted:
  assumes "api_request env web pg st rt rnd rq w = (r, w')"
  shows "(w' \<noteq> w \<longrightarrow> rq_method rq = ''POST'' \<and> rq_path rq \<in> write_routes
      \<and> \<not> foreign_source web (rq_headers rq))
    \<and> (rq_method rq = ''POST'' \<and> rq_path rq \<in> write_routes \<and> foreign_source web (rq_headers rq)
        \<longrightarrow> map_option rs_status r = Some 403)
    \<and> (\<forall>x. r = Some x \<longrightarrow> hardened x)"
proof -
  let ?next = "api_route env web pg st rt rnd"
  have rh: "response_headers web ?next rq w = (r, w')" using assms by (simp add: api_request_def)
  have refused: "w' = w \<and> map_option rs_status r = Some 403"
    if c: "rq_method rq = ''POST''" "rq_path rq \<in> write_routes" "foreign_source web (rq_headers rq)"
  proof -
    have "\<exists>p. strip_prefix ''/api/'' (rq_path rq) = Some p"
      using c(2) unfolding write_routes_def by auto
    then obtain p where p: "strip_prefix ''/api/'' (rq_path rq) = Some p" ..
    have "\<not> method_is_safe (rq_method rq)" by (simp add: c(1) method_is_safe_def)
    from foreign_writes_refused [OF rh p this c(3)] show ?thesis by auto
  qed
  have "rq_method rq = ''POST'' \<and> rq_path rq \<in> write_routes" if "w' \<noteq> w"
  proof -
    obtain r1 w1 where n: "?next rq w = (r1, w1)" by (cases "?next rq w")
    with rh that have "w1 = w'" by (auto simp: response_headers_def split: if_splits)
    with api_route_reads [OF n] that show ?thesis by blast
  qed
  moreover have "\<forall>x. r = Some x \<longrightarrow> hardened x"
    using rh response_headers_hardened [of web ?next rq w _ w'] by auto
  ultimately show ?thesis using refused by blast
qed

section \<open>Every request is answered\<close>

definition client_errors :: "pages \<Rightarrow> bool" where
  \<comment> \<open>what the extractors refuse a request with is the client's mistake (400, 413, 415 or 422)\<close>
  "client_errors pg \<longleftrightarrow> (\<forall>hs b st e. pg_json pg hs b = Inl (st, e) \<or> pg_bytes pg b = Inl (st, e)
     \<longrightarrow> 400 \<le> st \<and> st < 500)"

lemma safe_world_flushed:
  assumes "safe_world env T w" "flush_handler web hs body (w_caches w) = (r, cs)"
  shows "safe_world env T (w\<lparr>w_caches := cs\<rparr>)"
proof -
  have ttl: "ca_lazy_ttl (cache_flush ca) = ca_lazy_ttl ca" for ca by (simp add: cache_flush_def)
  have all: "safe_world env T (w\<lparr>w_caches := map (\<lambda>(t, ca). (t, cache_flush ca)) (w_caches w)\<rparr>)"
    using assms(1) by (auto simp: safe_world_def cache_ok_flush ttl)
  have one: "safe_world env T (w\<lparr>w_caches := AList.update t (cache_flush ca) (w_caches w)\<rparr>)"
    if m: "map_of (w_caches w) t = Some ca" for t ca
  proof (rule safe_world_cache [OF assms(1) m])
    show "cache_ok (en_lib env) (cache_flush ca)"
      using assms(1) map_of_SomeD [OF m] by (auto simp: safe_world_def cache_ok_flush)
  qed (rule ttl)
  from assms(2) show ?thesis
    by (auto simp: flush_handler_def assms(1) all one split: sum.splits option.splits)
qed

lemma flush_handler_status:
  "flush_handler web hs body cs = (Inl (st, e), cs') \<Longrightarrow> st \<in> {400, 404, 415}"
  by (auto simp: flush_handler_def flush_req_def ok_or_def split: if_splits option.splits sum.splits)

lemma query_page_answers:
  assumes "build L pf cfg = Inr rt" "en_reg env = rt_registry rt" "client_errors pg"
    and "calm env T" "safe_world env T w" "w_now w + nanos 5 \<le> T"
  shows "\<exists>r w'. query_page env web pg rnd rq w = (Some r, w')
    \<and> (rs_status r = 200 \<and> safe_world env T w' \<or> 400 \<le> rs_status r \<and> rs_status r < 500)"
proof (cases "pg_json pg (rq_headers rq) (rq_body rq)")
  case (Inl x)
  with assms(3) show ?thesis
    by (cases x) (auto simp: query_page_def text_page_def page_def client_errors_def)
next
  case (Inr j)
  with admin_query_ends [OF assms(1,2,4-6), of web rnd "query_req_of j"] show ?thesis
    by (auto simp: query_page_def text_page_def json_page_def page_def)
qed

lemma flush_page_answers:
  assumes "client_errors pg"
  shows "\<exists>r w'. flush_page web pg rq w = (Some r, w')
    \<and> (rs_status r = 200 \<or> 400 \<le> rs_status r \<and> rs_status r < 500)"
proof (cases "pg_bytes pg (rq_body rq)")
  case (Inl x)
  with assms show ?thesis
    by (cases x) (auto simp: flush_page_def text_page_def page_def client_errors_def)
next
  case (Inr body)
  obtain x cs where f: "flush_handler web (rq_headers rq) body (w_caches w) = (x, cs)" by (metis prod.exhaust)
  with Inr flush_handler_status [of web "rq_headers rq" body "w_caches w"] show ?thesis
    by (cases x) (fastforce simp: flush_page_def text_page_def json_page_def page_def)+
qed

lemma api_answers:
  assumes "build L pf cfg = Inr rt" "en_reg env = rt_registry rt" "client_errors pg"
    and "calm env T" "safe_world env T w" "w_now w + nanos 5 \<le> T"
  shows "\<exists>r w'. api_request env web pg st rt rnd rq w = (Some r, w')
    \<and> (rs_status r = 200 \<or> 400 \<le> rs_status r \<and> rs_status r < 500)"
proof -
  have "\<exists>r w'. api_route env web pg st rt rnd rq w = (Some r, w')
      \<and> (rs_status r = 200 \<or> 400 \<le> rs_status r \<and> rs_status r < 500)"
  proof (cases "get_page web pg st rt (rq_path rq) w")
    case (Some r)
    then have "rs_status r = 200"
      by (auto simp: get_page_def index_def stylesheet_def javascript_def favicon_def health_def metrics_prom_def
          stats_def system_page_def plugins_page_def text_page_def json_page_def page_def split: if_splits)
    with Some show ?thesis by (simp add: api_route_def get_route_def not_allowed_def)
  next
    case None
    with query_page_answers [OF assms, of web rnd rq] flush_page_answers [OF assms(3), of web rq w] show ?thesis
      by (auto simp: api_route_def post_route_def not_allowed_def not_found_def)
  qed
  then show ?thesis by (auto simp: api_request_def response_headers_def)
qed

text \<open>
  C22. On a built runtime every request to the API gets a response, whatever its method, path, headers and
  body: a page, or an error of the client. The API never fails with a server error and never drops a
  request without a response.
\<close>
theorem api_always_answers:
  assumes "build L pf cfg = Inr rt" "en_reg env = rt_registry rt" "client_errors pg"
    and "calm env T" "safe_world env T w" "w_now w + nanos 5 \<le> T"
  shows "\<exists>r w'. api_request env web pg st rt rnd rq w = (Some r, w')
    \<and> (rs_status r = 200 \<or> 400 \<le> rs_status r \<and> rs_status r < 500)"
  by (rule api_answers [OF assms])

section \<open>Secrets\<close>

definition public_endpoint :: "'n web \<Rightarrow> string \<Rightarrow> (string \<times> string \<times> u16 option) option" where
  \<comment> \<open>specification: scheme, host and port of an upstream, without userinfo, path, query and fragment\<close>
  "public_endpoint web a =
     Option.bind (wb_url web (if str_contains ''://'' (trim a) then trim a else ''udp://'' @ trim a))
       (\<lambda>u. map_option (\<lambda>h. (ur_scheme u, h, ur_port u)) (ur_host u))"

definition public_upstreams ::
    "'n web \<Rightarrow> plugin_config \<Rightarrow> (string option \<times> (string \<times> string \<times> u16 option) option) list" where
  "public_upstreams web p =
     (if pc_ty p \<notin> {''forward'', ''fast_forward''} then []
      else (case y_get_or ''upstreams'' ''upstream'' (pc_args p) of
          None \<Rightarrow> []
        | Some v \<Rightarrow> List.map_filter (\<lambda>x. case spec_from_value x of Inl e \<Rightarrow> None
              | Inr sp \<Rightarrow> Some (us_tag sp, public_endpoint web (us_addr sp)))
            (case y_as_seq v of Some vs \<Rightarrow> vs | None \<Rightarrow> [v])))"

definition public_listener :: "listener_config \<Rightarrow> string \<times> string \<times> bool" where
  \<comment> \<open>whether there is a certificate and a key, but not where\<close>
  "public_listener l =
     (to_ascii_lowercase (li_protocol l), li_addr l, li_cert l \<noteq> None \<and> li_key l \<noteq> None)"

definition public_servers :: "config \<Rightarrow> (string \<times> u64 \<times> (string \<times> string \<times> bool) list) list" where
  "public_servers cfg = map (\<lambda>s. (sv_exec s, max (sv_timeout s) 1, map public_listener (sv_listeners s)))
     (cf_servers cfg)"

definition public_plugins where
  "public_plugins web cfg = map (\<lambda>p. (plugin_tag p, pc_ty p, public_upstreams web p)) (cf_plugins cfg)"

definition registry_tags where
  "registry_tags reg = (map fst (rg_execs reg), map fst (rg_domains (rg_sets reg)),
     map fst (rg_ips (rg_sets reg)), rg_default_entry reg)"

definition show_endpoint :: "(string \<times> string \<times> u16 option) option \<Rightarrow> string" where
  "show_endpoint e = (case e of None \<Rightarrow> ''(hidden)''
     | Some (s, h, p) \<Rightarrow> s @ ''://'' @ h @ (case p of Some p \<Rightarrow> '':'' @ show_word p | None \<Rightarrow> []))"

lemma public_upstream_address_shown: "public_upstream_address web a = show_endpoint (public_endpoint web a)"
  by (simp add: public_upstream_address_def public_endpoint_def show_endpoint_def Let_def split: option.split)

lemma map_map_filter: "map f (List.map_filter g xs) = List.map_filter (\<lambda>x. map_option f (g x)) xs"
  by (induction xs) (auto simp: List.map_filter_simps split: option.split)

lemma plugin_upstreams_shown:
  "plugin_upstreams web = (\<lambda>p. map (\<lambda>(t, e). \<lparr>uv_plugin = plugin_tag p, uv_tag = t, uv_addr = show_endpoint e\<rparr>)
     (public_upstreams web p))"
  by (rule ext) (auto simp: plugin_upstreams_def public_upstreams_def map_map_filter public_upstream_address_shown
      intro!: arg_cong [where f = "\<lambda>g. List.map_filter g _"] split: option.split sum.split)

fun show_listener :: "string \<Rightarrow> u64 \<Rightarrow> string \<times> string \<times> bool \<Rightarrow> listener_view" where
  "show_listener e t (proto, addr, pair) =
     \<lparr>lv_protocol = (if proto = [] then ''udp'' else proto), lv_addr = addr, lv_entry = e,
      lv_timeout_secs = t,
      lv_tls = (proto = ''tls'' \<or> proto = ''dot''
        \<or> (proto = ''http'' \<or> proto = ''https'' \<or> proto = ''doh'') \<and> pair)\<rparr>"

lemma listener_view_shown:
  "listener_view_of s = (\<lambda>l. show_listener (sv_exec s) (max (sv_timeout s) 1) (public_listener l))"
  by (rule ext) (simp add: listener_view_of_def public_listener_def Let_def)

lemma system_info_shown:
  assumes "public_servers (rt_config rt) = public_servers (rt_config rt')"
    and "public_plugins web (rt_config rt) = public_plugins web (rt_config rt')"
    and "rg_default_entry (rt_registry rt) = rg_default_entry (rt_registry rt')"
  shows "system_info web i a b rt = system_info web i a b rt'"
proof -
  let ?up = "\<lambda>tag (t, e). \<lparr>uv_plugin = tag, uv_tag = t, uv_addr = show_endpoint e\<rparr>"
  have lv: "concat (map (\<lambda>s. map (listener_view_of s) (sv_listeners s)) (cf_servers cfg))
      = concat (map (\<lambda>(e, t, ls). map (show_listener e t) ls) (public_servers cfg))" for cfg
    by (simp add: public_servers_def listener_view_shown comp_def)
  have pl: "map (\<lambda>p. (plugin_tag p, pc_ty p)) (cf_plugins cfg)
      = map (\<lambda>(tag, ty, us). (tag, ty)) (public_plugins web cfg)" for cfg
    by (simp add: public_plugins_def comp_def)
  have up: "concat (map (plugin_upstreams web) (cf_plugins cfg))
      = concat (map (\<lambda>(tag, ty, us). map (?up tag) us) (public_plugins web cfg))" for cfg
    by (simp add: public_plugins_def plugin_upstreams_shown comp_def)
  show ?thesis unfolding system_info_def lv pl up assms ..
qed

text \<open>
  C21. The API keeps the secrets of the configuration: two runtimes that differ only in the certificate and
  key files of their listeners, and in the user, password, path, query and fragment of their upstreams
  and the other options of their plugins, answer every request that is not a query in the same way.
\<close>
theorem api_hides_secrets:
  assumes "public_servers (rt_config rt) = public_servers (rt_config rt')"
    and "public_plugins web (rt_config rt) = public_plugins web (rt_config rt')"
    and "registry_tags (rt_registry rt) = registry_tags (rt_registry rt')"
    and "rq_path rq \<noteq> ''/api/query''"
  shows "api_request env web pg st rt rnd rq w = api_request env' web pg st rt' rnd' rq w"
proof -
  have e: "rg_default_entry (rt_registry rt) = rg_default_entry (rt_registry rt')"
    using assms(3) by (simp add: registry_tags_def)
  have "system_page web pg st rt w = system_page web pg st rt' w"
    unfolding system_page_def system_info_shown [OF assms(1,2) e] ..
  moreover have "plugins_page pg rt w = plugins_page pg rt' w"
    using assms(3) by (simp add: plugins_page_def plugins_info_def registry_tags_def)
  ultimately have "get_page web pg st rt p w = get_page web pg st rt' p w" for p
    by (simp add: get_page_def)
  with assms(4) show ?thesis by (simp add: api_request_def response_headers_def api_route_def)
qed

end
