(* ===== verification/Build_Laws.thy ===== *)
theory Build_Laws
  imports Runtime_Laws
begin

text \<open>
  What \<open>build\<close> makes of the cache plugins: the caches of a runtime are exactly the plugins its
  registry knows as caches, each fresh from its configuration, so that \<open>run_cache\<close> always finds the
  cache of its tag.
\<close>

definition cache_built :: "plugin_config list \<Rightarrow> 'n build_state \<Rightarrow> bool" where
  "cache_built ps st \<longleftrightarrow>
     (\<forall>t pl. map_of (bs_execs st) t = Some pl \<longrightarrow>
        (\<exists>p \<in> set ps. plugin_tag p = t \<and> (pl = PlCache \<longleftrightarrow> pc_ty p = ''cache'')))
     \<and> (\<forall>p \<in> set ps. pc_ty p = ''cache'' \<longrightarrow>
        plugin_tag p \<in> dom (map_of (bs_execs st)) \<and> plugin_tag p \<in> fst ` set (bs_caches st))
     \<and> (\<forall>(t, ca) \<in> set (bs_caches st). (\<exists>p \<in> set ps. plugin_tag p = t \<and> pc_ty p = ''cache'')
        \<and> (\<exists>args. ca = cache_from_args t args))"

lemma cache_built_other:
  assumes "cache_built ps st" "pc_ty p \<noteq> ''cache''" "bs_execs st' = bs_execs st" "bs_caches st' = bs_caches st"
  shows "cache_built (ps @ [p]) st'"
  using assms unfolding cache_built_def by fastforce

lemma cache_built_exec:
  assumes "cache_built ps st" "pc_ty p \<noteq> ''cache''" "pl \<noteq> PlCache"
    and "bs_execs st' = AList.update (plugin_tag p) pl (bs_execs st)" "bs_caches st' = bs_caches st"
  shows "cache_built (ps @ [p]) st'"
  using assms unfolding cache_built_def by (fastforce simp: update_conv' split: if_splits)

lemma cache_built_cache:
  assumes "cache_built ps st" "pc_ty p = ''cache''"
    and "bs_execs st' = AList.update (plugin_tag p) PlCache (bs_execs st)"
    and "bs_caches st' = AList.update (plugin_tag p) (cache_from_args (plugin_tag p) (pc_args p)) (bs_caches st)"
  shows "cache_built (ps @ [p]) st'"
  unfolding cache_built_def
proof (intro conjI)
  show "\<forall>t pl. map_of (bs_execs st') t = Some pl \<longrightarrow>
      (\<exists>q \<in> set (ps @ [p]). plugin_tag q = t \<and> (pl = PlCache \<longleftrightarrow> pc_ty q = ''cache''))"
    using assms(1-3) unfolding cache_built_def by (fastforce simp: update_conv' split: if_splits)
  show "\<forall>q \<in> set (ps @ [p]). pc_ty q = ''cache'' \<longrightarrow>
      plugin_tag q \<in> dom (map_of (bs_execs st')) \<and> plugin_tag q \<in> fst ` set (bs_caches st')"
    using assms unfolding cache_built_def by (auto simp: update_conv' fst_set_update)
  show "\<forall>(t, ca) \<in> set (bs_caches st'). (\<exists>q \<in> set (ps @ [p]). plugin_tag q = t \<and> pc_ty q = ''cache'')
      \<and> (\<exists>args. ca = cache_from_args t args)"
  proof clarify
    fix t ca
    assume "(t, ca) \<in> set (bs_caches st')"
    then consider "t = plugin_tag p" "ca = cache_from_args (plugin_tag p) (pc_args p)" | "(t, ca) \<in> set (bs_caches st)"
      using set_update_subset [of "plugin_tag p" "cache_from_args (plugin_tag p) (pc_args p)" "bs_caches st"]
      unfolding assms(4) by blast
    then show "(\<exists>q \<in> set (ps @ [p]). plugin_tag q = t \<and> pc_ty q = ''cache'') \<and> (\<exists>args. ca = cache_from_args t args)"
    proof cases
      case 1
      with assms(2) show ?thesis by auto
    next
      case 2
      with assms(1) have "(\<exists>q \<in> set ps. plugin_tag q = t \<and> pc_ty q = ''cache'') \<and> (\<exists>args. ca = cache_from_args t args)"
        unfolding cache_built_def by blast
      then show ?thesis by auto
    qed
  qed
qed

lemma cache_built_step:
  assumes "cache_built ps st" "build_plugin L pf st p = Inr st'"
  shows "cache_built (ps @ [p]) st'"
proof (cases "pc_ty p = ''cache''")
  case True
  with assms(2) show ?thesis
    by (intro cache_built_cache [OF assms(1)]) (auto simp: build_plugin_def Let_def put_exec_def)
next
  case False
  have "(bs_execs st' = bs_execs st \<or> (\<exists>pl. pl \<noteq> PlCache \<and> bs_execs st' = AList.update (plugin_tag p) pl (bs_execs st)))
      \<and> bs_caches st' = bs_caches st"
    using assms(2) False by (auto simp: build_plugin_def Let_def put_exec_def split: if_splits)
  with cache_built_other [OF assms(1) False] cache_built_exec [OF assms(1) False] show ?thesis by blast
qed

lemma cache_built_fold:
  "cache_built ps st \<Longrightarrow> res_fold (build_plugin L pf) st qs = Inr st' \<Longrightarrow> cache_built (ps @ qs) st'"
proof (induction qs arbitrary: ps st)
  case Nil
  then show ?case by simp
next
  case (Cons q qs)
  then obtain st1 where "build_plugin L pf st q = Inr st1" "res_fold (build_plugin L pf) st1 qs = Inr st'"
    by auto
  with Cons.IH [OF cache_built_step [OF Cons.prems(1)]] show ?case by simp
qed

lemma add_plugin_distinct:
  "res_fold add_plugin acc ps = Inr acc' \<Longrightarrow> distinct (fst acc) \<Longrightarrow>
     fst acc' = rev (map plugin_tag ps) @ fst acc \<and> distinct (fst acc')"
proof (induction ps arbitrary: acc)
  case (Cons p ps)
  then obtain acc1 where a: "add_plugin acc p = Inr acc1" "res_fold add_plugin acc1 ps = Inr acc'" by auto
  then have "fst acc1 = plugin_tag p # fst acc" "plugin_tag p \<notin> set (fst acc)"
    by (auto simp: add_plugin_def Let_def split: if_splits)
  then have "distinct (fst acc1)" using Cons.prems(2) by simp
  from Cons.IH [OF a(2) this] have i: "fst acc' = rev (map plugin_tag ps) @ fst acc1" "distinct (fst acc')"
    by blast+
  show ?case
  proof
    show "fst acc' = rev (map plugin_tag (p # ps)) @ fst acc" using i(1) \<open>fst acc1 = _\<close> by simp
    show "distinct (fst acc')" by (rule i(2))
  qed
qed simp

lemma graph_tags_distinct: "graph_edges ps = Inr es \<Longrightarrow> distinct (map plugin_tag ps)"
  by (auto simp: graph_edges_def dest: add_plugin_distinct)

lemma insert_execs_dom: "dom (map_of execs) \<subseteq> dom (map_of (insert_execs new execs))"
proof (induction new arbitrary: execs)
  case (Cons x new)
  obtain t p where x: "x = (t, p)" by (cases x)
  have "dom (map_of execs) \<subseteq> dom (map_of (AList.update t p execs))" by (auto simp: update_conv')
  also have "\<dots> \<subseteq> dom (map_of (insert_execs (x # new) execs))"
    using Cons.IH [of "AList.update t p execs"] by (simp add: insert_execs_def x)
  finally show ?case .
qed (simp add: insert_execs_def)

lemma same_tag: "distinct (map plugin_tag ps) \<Longrightarrow> p \<in> set ps \<Longrightarrow> q \<in> set ps \<Longrightarrow> plugin_tag p = plugin_tag q \<Longrightarrow> p = q"
  by (auto simp: distinct_map dest: inj_onD)

lemma fst_bind_cache_refresh: "fst ` set (bind_cache_refresh dflt caches) = fst ` set caches"
  by (force simp: bind_cache_refresh_def split: option.split)

lemma registry_caches:
  assumes "cache_built ps st" "built_from ps st" "distinct (map plugin_tag ps)" "build_registry L cfg st = Inr rt"
  shows "t \<in> fst ` set (rt_caches rt) \<longleftrightarrow> get_exec t (rt_registry rt) = Inr PlCache"
proof -
  let ?sets = "\<lparr>rg_domains = bs_domains st, rg_ips = bs_ips st\<rparr>"
  obtain compiled where
    c: "res_map (compile_sequence L ?sets) (bs_seqs st) = Inr compiled" and
    rg: "rg_execs (rt_registry rt) = insert_execs (map (\<lambda>(t, f). (t, PlFallback f)) (bs_fallbacks st))
           (insert_execs compiled (bs_execs st))" and
    cs: "rt_caches rt = bind_cache_refresh (rg_default_entry (rt_registry rt)) (bs_caches st)"
    using assms(4) by (auto simp: build_registry_def Let_def)
  have typed: "\<exists>p \<in> set ps. plugin_tag p = t \<and> (pl = PlCache \<longleftrightarrow> pc_ty p = ''cache'')"
    if look: "map_of (rg_execs (rt_registry rt)) t = Some pl" for t pl
  proof -
    consider (fb) f where "(t, f) \<in> set (bs_fallbacks st)" "pl = PlFallback f"
      | (seq) "(t, pl) \<in> set compiled" | (ex) "map_of (bs_execs st) t = Some pl"
      using look rg by (auto dest!: insert_execs_lookup)
    then show ?thesis
    proof cases
      case fb
      with assms(2) show ?thesis by (fastforce simp: built_from_def fallbacks_from_def)
    next
      case seq
      with c obtain t0 args where s: "(t0, args) \<in> set (bs_seqs st)" "compile_sequence L ?sets (t0, args) = Inr (t, pl)"
        by (auto simp: res_map_Inr_iff list_all2_conv_all_nth in_set_conv_nth) (metis prod.exhaust)
      then have "t0 = t" "pl \<noteq> PlCache" by (auto simp: compile_sequence_def)
      with s(1) assms(2) show ?thesis by (fastforce simp: built_from_def seqs_from_def)
    next
      case ex
      with assms(1) show ?thesis by (auto simp: cache_built_def)
    qed
  qed
  have tags: "t \<in> fst ` set (rt_caches rt) \<longleftrightarrow> (\<exists>p \<in> set ps. plugin_tag p = t \<and> pc_ty p = ''cache'')"
    using assms(1) unfolding cs fst_bind_cache_refresh cache_built_def by fastforce
  show ?thesis
  proof
    assume "t \<in> fst ` set (rt_caches rt)"
    then obtain p where p: "p \<in> set ps" "plugin_tag p = t" "pc_ty p = ''cache''" using tags by blast
    then have "t \<in> dom (map_of (bs_execs st))" using assms(1) by (auto simp: cache_built_def)
    then obtain pl where pl: "map_of (rg_execs (rt_registry rt)) t = Some pl"
      using insert_execs_dom rg by (metis (no_types) domD subsetD)
    from typed [OF pl] p same_tag [OF assms(3) p(1)] have "pl = PlCache" by metis
    with pl show "get_exec t (rt_registry rt) = Inr PlCache" by (simp add: get_exec_def)
  next
    assume "get_exec t (rt_registry rt) = Inr PlCache"
    then have "map_of (rg_execs (rt_registry rt)) t = Some PlCache"
      by (auto simp: get_exec_def ok_or_def split: option.splits)
    from typed [OF this] tags show "t \<in> fst ` set (rt_caches rt)" by blast
  qed
qed

lemma peek_bind: "cache_peek k (bind_refresh e ca) = cache_peek k ca"
  by (simp add: bind_refresh_def split: option.split)

lemma build_caches:
  assumes "build L pf cfg0 = Inr rt"
  shows "t \<in> fst ` set (rt_caches rt) \<longleftrightarrow> get_exec t (rt_registry rt) = Inr PlCache"
    and "(t, ca) \<in> set (rt_caches rt) \<Longrightarrow> cache_ok L ca \<and> (\<forall>k. cache_peek k ca = None)"
proof -
  from assms obtain cfg st es where g: "graph_edges (cf_plugins cfg) = Inr es"
    and st: "res_fold (build_plugin L pf) build_start (cf_plugins cfg) = Inr st"
    and rt: "build_registry L cfg st = Inr rt"
    by (auto simp: build_def validate_plugin_graph_def)
  have "built_from [] build_start"
    by (simp add: built_from_def build_start_def execs_from_def seqs_from_def fallbacks_from_def)
  from built_from_fold [OF this st] have b: "built_from (cf_plugins cfg) st" by simp
  have "cache_built [] build_start" by (simp add: cache_built_def build_start_def)
  from cache_built_fold [OF this st] have c: "cache_built (cf_plugins cfg) st" by simp
  show "t \<in> fst ` set (rt_caches rt) \<longleftrightarrow> get_exec t (rt_registry rt) = Inr PlCache"
    by (rule registry_caches [OF c b graph_tags_distinct [OF g] rt])
  assume t: "(t, ca) \<in> set (rt_caches rt)"
  obtain dflt where "rt_caches rt = bind_cache_refresh dflt (bs_caches st)"
    using rt by (auto simp: build_registry_def Let_def)
  with t obtain ca0 where ca0: "(t, ca0) \<in> set (bs_caches st)" "ca = ca0 \<or> (\<exists>e. ca = bind_refresh e ca0)"
    by (auto simp: bind_cache_refresh_def split: option.splits)
  then obtain args where "ca0 = cache_from_args t args" using c by (auto simp: cache_built_def)
  with ca0(2) show "cache_ok L ca \<and> (\<forall>k. cache_peek k ca = None)"
    using cache_ok_new [of L t args] cache_ok_bind [OF cache_ok_new [of L t args]]
    by (auto simp: peek_bind)
qed

end
