(* ===== verification/Operation_Laws.thy ===== *)
theory Operation_Laws
  imports Operation Provenance_Laws Console_Laws Build_Laws
begin

text \<open>
  What holds of the service as a whole, in every state that any sequence of requests, refreshes and
  reloads can reach: its runtime was built with the settings the listeners were started with, its
  caches are exactly those its registry names, they keep their invariant and hold only answers with a
  source, and every request to a listener or to the API is taken to its end. The locale
  \<open>tame_caller\<close> carries the shape of the world through nested calls.
\<close>

section \<open>The shape of the world\<close>

definition keeps :: "'n world \<Rightarrow> 'n world \<Rightarrow> bool" where
  \<comment> \<open>the same caches, by their tags, and no new job but those that start without a response\<close>
  "keeps w w' \<longleftrightarrow> map fst (w_caches w') = map fst (w_caches w)
     \<and> (\<forall>j \<in> set (w_jobs w'). j \<in> set (w_jobs w) \<or> c_response (rj_ctx j) = None)"

definition tame :: "'n env \<Rightarrow> bool" where
  "tame env \<longleftrightarrow> (\<forall>n w. keeps w (en_other env n w))"

lemma keeps_refl [simp]: "keeps w w"
  by (simp add: keeps_def)

lemma keeps_trans: "keeps u v \<Longrightarrow> keeps v w \<Longrightarrow> keeps u w"
  by (fastforce simp: keeps_def)

lemma keeps_frame [simp]:
  "keeps w (v\<lparr>w_metrics := mx\<rparr>) = keeps w v" "keeps w (v\<lparr>w_next_id := i\<rparr>) = keeps w v"
  "keeps w (v\<lparr>w_now := t\<rparr>) = keeps w v" "keeps w (v\<lparr>w_tick := n\<rparr>) = keeps w v"
  "keeps (v\<lparr>w_metrics := mx\<rparr>) w = keeps v w" "keeps (v\<lparr>w_next_id := i\<rparr>) w = keeps v w"
  "keeps (v\<lparr>w_now := t\<rparr>) w = keeps v w" "keeps (v\<lparr>w_tick := n\<rparr>) w = keeps v w"
  by (simp_all add: keeps_def)

lemma map_fst_update:
  "map_of m t = Some x \<Longrightarrow> map fst (AList.update t y m) = map fst m"
  by (induction m) auto

lemma keeps_update:
  "map_of (w_caches w) t = Some ca \<Longrightarrow> keeps w (w\<lparr>w_caches := AList.update t ca' (w_caches w)\<rparr>)"
  by (simp add: keeps_def map_fst_update)

lemma keeps_meet: "tame env \<Longrightarrow> keeps w (meet_others env w)"
  by (simp add: meet_others_def Let_def tame_def)

lemma keeps_store: "store_writes env c ws w = Some w' \<Longrightarrow> keeps w w'"
proof (induction env c ws w rule: store_writes.induct)
  case (1 env c w)
  then show ?case by simp
next
  case (2 env c tag l ws w)
  show ?case
  proof (cases "map_of (w_caches w) tag")
    case None
    with 2 show ?thesis by simp
  next
    case (Some ca)
    with 2(3) obtain ca' where ca': "cache_store_lookup (en_lib env) (w_now w) c l ca = Some ca'"
      "store_writes env c ws (w\<lparr>w_caches := AList.update tag ca' (w_caches w)\<rparr>) = Some w'"
      by (auto split: option.splits)
    from keeps_trans [OF keeps_update [OF Some] 2(2) [OF Some ca']] show ?thesis .
  qed
qed

lemma keeps_finish: "keeps w (run_world (seq_finish env ws a c w))"
  using keeps_store [of env c ws w] by (auto simp: seq_finish_def split: option.split)

lemma kick_silent: "fst (kick_refresh i now c k ca) = Some j \<Longrightarrow> c_response (rj_ctx j) = None"
  by (auto simp: kick_refresh_def clone_silent split: if_splits option.splits)

lemma cache_job_silent:
  assumes "cache_exec L clk i c ca mx = (c', ca', mx', Some j)"
  shows "c_response (rj_ctx j) = None"
  using assms
proof (cases rule: cache_exec_cases)
  case (lazy k m e c1)
  then show ?thesis using kick_silent by (metis option.inject)
qed simp_all

lemma keeps_run_cache: "keeps w (run_world (run_cache env tag c w))"
proof (cases "map_of (w_caches w) tag")
  case None
  then show ?thesis by (simp add: run_cache_def)
next
  case (Some ca)
  obtain c' ca' mx job where x: "cache_exec (en_lib env) (\<lambda>_. w_now w) (w_next_id w) c ca (w_metrics w)
      = (c', ca', mx, job)" by (metis prod.exhaust)
  let ?w = "w\<lparr>w_caches := AList.update tag ca' (w_caches w)\<rparr>"
  have k: "keeps w ?w" by (rule keeps_update [OF Some])
  have "keeps w (?w\<lparr>w_jobs := w_jobs w @ [j]\<rparr>)" if "job = Some j" for j
    using k cache_job_silent [of "en_lib env"] x that by (auto simp: keeps_def)
  with k show ?thesis
    by (cases job) (simp_all add: run_cache_def Let_def Some x keeps_def)
qed

lemma keeps_forked: "forked c w = (s, w') \<Longrightarrow> keeps w v = keeps w' v \<and> keeps v w = keeps v w'"
  by (auto simp: forked_def next_id_def)

locale tame_caller =
  fixes env :: "'n env" and call :: "'n caller"
  assumes call_keeps: "tame env \<Longrightarrow> keeps w (run_world (call d t c w))"
begin

lemma call_keeps': "tame env \<Longrightarrow> call d t c w = (r, c', w') \<Longrightarrow> keeps w w'"
  using call_keeps [of w d t c] by simp

lemma keeps_goto: "tame env \<Longrightarrow> keeps w (run_world (seq_goto env (call d) t ws c w))"
proof (cases "get_exec t (en_reg env)")
  case (Inr p)
  assume t: "tame env"
  obtain r c' w' where cl: "call d t c w = (r, c', w')" by (metis prod.exhaust)
  note k = call_keeps' [OF t cl]
  from k keeps_trans [OF k keeps_finish] Inr cl show ?thesis
    by (auto simp: seq_goto_def split: sum.split)
qed (simp add: seq_goto_def)

lemma keeps_seq_step:
  "tame env \<Longrightarrow> seq_step env (call d) tag s ws c w = ((r, c', w'), ws') \<Longrightarrow> keeps w w'"
  by (auto simp: seq_step_def dest: call_keeps' split: exec_target.splits sum.splits prod.splits)

lemma keeps_seq_run: "tame env \<Longrightarrow> keeps w (run_world (seq_run env (call d) tag ss ws c w))"
proof (induction ss arbitrary: ws c w)
  case Nil
  then show ?case by (simp add: keeps_finish)
next
  case (Cons s ss)
  obtain r c' w' ws' where st: "seq_step env (call d) tag s ws c w = ((r, c', w'), ws')"
    by (metis prod.exhaust)
  note k = keeps_seq_step [OF Cons.prems st]
  from k keeps_trans [OF k Cons.IH [OF Cons.prems]] keeps_trans [OF k keeps_finish]
    keeps_trans [OF k keeps_goto [OF Cons.prems]] Cons.IH [OF Cons.prems] st
  show ?case by (auto split: sum.split action.split)
qed

lemma keeps_fallback_second: "tame env \<Longrightarrow> keeps w (run_world (fallback_second call d f c w))"
proof -
  assume t: "tame env"
  let ?c1 = "push_trace (w_now w) (fb_tag f) ''secondary'' ''fallback'' c"
  obtain s0 w0 where fk: "forked ?c1 w = (s0, w0)" by (cases "forked ?c1 w")
  obtain r s1 w1 where cl: "call d (fb_secondary f) s0 w0 = (r, s1, w1)" by (metis prod.exhaust)
  from call_keeps' [OF t cl] have "keeps w w1" using keeps_forked [OF fk] by simp
  then show ?thesis by (cases r) (simp_all add: fallback_second_def Let_def fk cl)
qed

lemma keeps_fallback_serial: "tame env \<Longrightarrow> keeps w (run_world (fallback_serial call d f c w))"
proof -
  assume t: "tame env"
  obtain p0 w0 where fk: "forked c w = (p0, w0)" by (cases "forked c w")
  obtain r p1 w1 where cl: "call (min d (w_now w + fb_threshold f)) (fb_primary f) p0 w0 = (r, p1, w1)"
    by (metis prod.exhaust)
  from call_keeps' [OF t cl] have k: "keeps w w1" using keeps_forked [OF fk] by simp
  with keeps_trans [OF k keeps_fallback_second [OF t, of w1 d f c]] show ?thesis
    by (simp add: fallback_serial_def Let_def fk cl)
qed

lemma keeps_fallback_standby: "tame env \<Longrightarrow> keeps w (run_world (fallback_standby call d f c w))"
proof -
  assume t: "tame env"
  obtain p0 w0 where fk: "forked c w = (p0, w0)" by (cases "forked c w")
  obtain s0 w0' where fk2: "forked c w0 = (s0, w0')" by (cases "forked c w0")
  obtain r p1 w1 where cl: "call (min d (w_now w + fb_threshold f)) (fb_primary f) p0 w0' = (r, p1, w1)"
    by (metis prod.exhaust)
  obtain r' s1 w2 where cl2: "call (if wins r p1 then min d (w_now w1) else d) (fb_secondary f)
      s0 (w1\<lparr>w_now := w_now w\<rparr>) = (r', s1, w2)" by (metis prod.exhaust)
  have 1: "keeps w w1" using call_keeps' [OF t cl] keeps_forked [OF fk] keeps_forked [OF fk2] by simp
  have 2: "keeps w w2" using keeps_trans [OF 1] call_keeps' [OF t cl2] by simp
  from 1 2 show ?thesis
    by (cases "wins r p1") (use cl2 in \<open>simp_all add: fallback_standby_def Let_def fk fk2 cl\<close>)
qed

lemma keeps_exec_plugin: "tame env \<Longrightarrow> keeps w (run_world (exec_plugin env call d tag p c w))"
  using keeps_run_cache [of w env tag c] keeps_seq_run keeps_fallback_serial keeps_fallback_standby
  by (cases p) (simp_all add: exec_plugin_def Let_def run_forward_def fallback_run_def split: sum.split)

end

lemma tame_caller_exec_tag: "tame_caller env (exec_tag depth env)"
proof (induction depth)
  case 0
  show ?case by standard simp
next
  case (Suc depth)
  show ?case
  proof
    fix d t c and w :: "'a world"
    assume t: "tame env"
    have "keeps w (run_world (exec_plugin env (exec_tag depth env) d t p c (meet_others env w)))" for p
      by (rule keeps_trans [OF keeps_meet [OF t] tame_caller.keeps_exec_plugin [OF Suc t]])
    then show "keeps w (run_world (exec_tag (Suc depth) env d t c w))" by (simp split: sum.split)
  qed
qed

interpretation tame_pipeline: tame_caller env "exec_tag depth env" for env depth
  by (rule tame_caller_exec_tag)

lemma keeps_handle:
  assumes "tame env" "handle env entry c timeout w = (r, c', w')"
  shows "keeps w w'"
proof -
  have fin: "handle_finish env c1 w1 = (r, c', w') \<Longrightarrow> keeps w w1 \<Longrightarrow> keeps w w'" for c1 w1
    by (auto simp: handle_finish_def Let_def)
  obtain x c1 w1 where ex: "exec_tag call_depth env (w_now w + timeout) entry (begin_pipeline entry c) w = (x, c1, w1)"
    by (metis prod.exhaust)
  have k: "keeps w w1" by (rule tame_pipeline.call_keeps' [OF assms(1) ex])
  from assms(2) fin [OF _ k] fin k show ?thesis
    by (auto simp: handle_def Let_def ex split: incoming.splits sum.splits stop.splits)
qed

section \<open>What every request keeps\<close>

lemma new_silent [simp]: "c_response (ctx_new i now q cl pr) = None"
  by (simp add: ctx_new_def)

locale world_invariant =
  fixes env :: "'n env" and T :: instant and ok :: bool and I :: "'n world \<Rightarrow> bool"
  assumes I_next: "I w \<Longrightarrow> I (w\<lparr>w_next_id := i\<rparr>)"
    and I_forget: "I w \<Longrightarrow> I (w\<lparr>w_jobs := remove1 j (w_jobs w)\<rparr>)"
    and I_handle: "ok \<Longrightarrow> I w \<Longrightarrow> c_response c = None \<Longrightarrow> w_now w + timeout \<le> T \<Longrightarrow>
      handle env entry c timeout w = (r, c', w') \<Longrightarrow> I w'"
    and I_done: "I w \<Longrightarrow> map_of (w_caches w) t = Some ca \<Longrightarrow>
      I (w\<lparr>w_caches := AList.update t (refresh_done k ca) (w_caches w)\<rparr>)"
    and I_flush: "I w \<Longrightarrow> flush_handler (web :: 'n web) hs body (w_caches w) = (x, cs) \<Longrightarrow> I (w\<lparr>w_caches := cs\<rparr>)"
begin

lemma I_udp:
  assumes "ok" "I w" "w_now w + timeout \<le> T" "udp_serve env entry timeout peer buf w = (out, w')"
  shows "I w'"
proof -
  have h: "I v'" if "handle env entry (ctx_new i n q cl pr) timeout (w\<lparr>w_next_id := k\<rparr>) = (r, c', v')" for i n q cl pr k r c' v'
    using I_handle [OF assms(1) I_next [OF assms(2)] _ _ that] assms(3) by simp
  from assms(2,4) show ?thesis
    by (auto simp: udp_serve_def next_id_def Let_def I_next dest: h
        split: sum.splits incoming.splits prod.splits)
qed

lemma I_framed:
  assumes "ok" "I w" "w_now w + timeout \<le> T" "framed_step env entry timeout proto peer q w = (out, w')"
  shows "I w'"
proof -
  have h: "I v'" if "handle env entry (ctx_new i n q cl pr) timeout (w\<lparr>w_next_id := k\<rparr>) = (r, c', v')" for i n q cl pr k r c' v'
    using I_handle [OF assms(1) I_next [OF assms(2)] _ _ that] assms(3) by simp
  from assms(2,4) show ?thesis
    by (auto simp: framed_step_def Let_def I_next dest: h split: sum.splits incoming.splits prod.splits)
qed

lemma I_doh:
  assumes "ok" "I w" "w_now w + timeout \<le> T" "doh_handle env entry timeout peer body w = (out, w')"
  shows "I w'"
proof -
  have h: "I v'" if "handle env entry (ctx_new i n q cl pr) timeout (w\<lparr>w_next_id := k\<rparr>) = (r, c', v')" for i n q cl pr k r c' v'
    using I_handle [OF assms(1) I_next [OF assms(2)] _ _ that] assms(3) by simp
  from assms(2,4) show ?thesis
    by (auto simp: doh_handle_def Let_def I_next dest: h split: sum.splits option.splits prod.splits)
qed

lemma I_doh_dispatch:
  assumes "ok" "I w" "w_now w + timeout \<le> T"
    and "doh_dispatch b64 b64pad env entry timeout lpath meth path peer query body w = (out, w')"
  shows "I w'"
  using assms(2,4)
  by (auto simp: doh_dispatch_def doh_get_def dest: I_doh [OF assms(1-3)] split: if_splits prod.splits option.splits)

lemma I_query_handler:
  assumes "ok" "I w" "w_now w + nanos 5 \<le> T" "query_handler env web rnd req w = (out, w')"
  shows "I w'"
proof -
  have h: "I v'" if "handle_query env c entry (w\<lparr>w_next_id := k\<rparr>) = (r, c', v')" "c_response c = None" for c entry k r c' v'
    using I_handle [OF assms(1) I_next [OF assms(2)] that(2) _ that(1) [unfolded handle_query_def]] assms(3) by simp
  from assms(2,4) show ?thesis
    by (auto simp: query_handler_def Let_def I_next dest!: h split: sum.splits prod.splits)
qed

lemma I_api:
  assumes "ok" "I w" "w_now w + nanos 5 \<le> T" "api_request env web pg st rt rnd rq w = (out, w')"
  shows "I w'"
proof -
  have q: "I v" if "query_page env web pg rnd rq w = (r, v)" for r v
    using that assms(2) I_query_handler [OF assms(1-3)]
    by (auto simp: query_page_def split: sum.splits prod.splits query_outcome.splits)
  have f: "I v" if "flush_page web pg rq w = (r, v)" for r v
    using that assms(2) I_flush [OF assms(2)]
    by (auto simp: flush_page_def split: sum.splits prod.splits)
  have "I v" if "api_route env web pg st rt rnd rq w = (r, v)" for r v
    using that assms(2) q f by (auto simp: api_route_def post_route_def split: option.splits if_splits)
  with assms(2,4) show ?thesis
    by (auto simp: api_request_def response_headers_def split: if_splits prod.splits)
qed

lemma I_refresh:
  assumes "ok" "I w" "w_now w + nanos 5 \<le> T" "c_response (rj_ctx j) = None"
  shows "I (run_refresh env tag j w)"
proof -
  obtain r c' w' where h: "handle_query env (rj_ctx j) (rj_entry j) w = (r, c', w')" by (metis prod.exhaust)
  have "I w'" by (rule I_handle [OF assms(1,2,4,3) h [unfolded handle_query_def]])
  with I_done [OF this] h show ?thesis by (simp add: run_refresh_def split: option.split)
qed

end

section \<open>The invariant of the world of a runtime\<close>

definition silent_jobs :: "'n world \<Rightarrow> bool" where
  "silent_jobs w \<longleftrightarrow> (\<forall>j \<in> set (w_jobs w). c_response (rj_ctx j) = None)"

definition fit :: "'n env \<Rightarrow> instant \<Rightarrow> bool" where
  \<comment> \<open>the registry is that of a runtime that was built, and other tasks keep the world as it does\<close>
  "fit env T \<longleftrightarrow> calm env T \<and> tame env
     \<and> (\<exists>pf cfg rt. build (en_lib env) pf cfg = Inr rt \<and> en_reg env = rt_registry rt)"

definition world_ok :: "'n env \<Rightarrow> instant \<Rightarrow> string list \<Rightarrow> 'n world \<Rightarrow> bool" where
  "world_ok env T tags w \<longleftrightarrow> safe_world env T w \<and> map fst (w_caches w) = tags \<and> silent_jobs w"

lemma world_ok_keeps: "world_ok env T tags w \<Longrightarrow> keeps w w' \<Longrightarrow> safe_world env T w' \<Longrightarrow> world_ok env T tags w'"
  by (auto simp: world_ok_def keeps_def silent_jobs_def)

lemma flush_tags: "flush_handler web hs body caches = (x, cs) \<Longrightarrow> map fst cs = map fst caches"
  by (auto simp: flush_handler_def map_fst_update split: sum.splits option.splits)

lemma world_ok_invariant: "world_invariant env T (fit env T) (world_ok env T tags)"
proof
  fix w :: "'a world" and i j
  assume "world_ok env T tags w"
  then show "world_ok env T tags (w\<lparr>w_next_id := i\<rparr>)"
    "world_ok env T tags (w\<lparr>w_jobs := remove1 j (w_jobs w)\<rparr>)"
    by (auto simp: world_ok_def silent_jobs_def dest: notin_set_remove1)
next
  fix w w' :: "'a world" and c timeout entry r c'
  assume f: "fit env T" and w: "world_ok env T tags w" and t: "w_now w + timeout \<le> T"
    and h: "handle env entry c timeout w = (r, c', w')"
  from f obtain pf cfg rt where b: "build (en_lib env) pf cfg = Inr rt" "en_reg env = rt_registry rt" "calm env T" "tame env"
    by (auto simp: fit_def)
  have "safe_world env T w" using w by (simp add: world_ok_def)
  from handle_ends [OF b(1-3) this t, of entry c] h have "safe_world env T w'" by auto
  with w keeps_handle [OF b(4) h] show "world_ok env T tags w'" by (blast intro: world_ok_keeps)
next
  fix w :: "'a world" and t ca k
  assume w: "world_ok env T tags w" and m: "map_of (w_caches w) t = Some ca"
  have "safe_world env T w" using w by (simp add: world_ok_def)
  then have "safe_world env T (w\<lparr>w_caches := AList.update t (refresh_done k ca) (w_caches w)\<rparr>)"
    by (rule safe_world_cache [OF _ m])
      (use safe_world_lookup [OF \<open>safe_world env T w\<close> m] in \<open>simp_all add: cache_ok_done\<close>, simp add: refresh_done_def)
  with w keeps_update [OF m] show "world_ok env T tags (w\<lparr>w_caches := AList.update t (refresh_done k ca) (w_caches w)\<rparr>)"
    by (blast intro: world_ok_keeps)
next
  fix w :: "'a world" and web :: "'a web" and hs body x cs
  assume w: "world_ok env T tags w" and f: "flush_handler web hs body (w_caches w) = (x, cs)"
  with safe_world_flushed [OF _ f] flush_tags [OF f] show "world_ok env T tags (w\<lparr>w_caches := cs\<rparr>)"
    by (simp add: world_ok_def silent_jobs_def)
qed

interpretation kept_world: world_invariant env T "fit env T" "world_ok env T tags" for env T tags
  by (rule world_ok_invariant)

lemma sound_caches_invariant:
  "world_invariant env T (trusted env \<and> guarded (en_reg env)) (caches_sound env)"
proof
  fix w w' :: "'a world" and c timeout entry r c'
  assume "trusted env \<and> guarded (en_reg env)" "caches_sound env w" "c_response c = None"
    and h: "handle env entry c timeout w = (r, c', w')"
  then obtain fresh where "credible env fresh c w" by (auto simp: credible_def sound_def guarded_def)
  from fair_handle [OF this \<open>c_response c = None\<close> h] show "caches_sound env w'" ..
next
  fix w :: "'a world" and t ca k
  assume w: "caches_sound env w" and m: "map_of (w_caches w) t = Some ca"
  have "cache_sound env (refresh_done k ca)"
    using caches_sound_member [OF w m] by (simp add: cache_sound_def refresh_done_def)
  with w show "caches_sound env (w\<lparr>w_caches := AList.update t (refresh_done k ca) (w_caches w)\<rparr>)"
    by (rule caches_sound_update)
qed (simp_all add: caches_sound_flush)

interpretation sound_caches: world_invariant env T "trusted env \<and> guarded (en_reg env)" "caches_sound env" for env T
  by (rule sound_caches_invariant)

section \<open>States of the service\<close>

definition representable :: "instant \<Rightarrow> 'n runtime \<Rightarrow> bool" where
  \<comment> \<open>no deadline the caches compute before \<open>T\<close> overflows an instant\<close>
  "representable T rt \<longleftrightarrow> (T + nanos (2 ^ 32)) div 1000000000 < 2 ^ 63
     \<and> (\<forall>(t, ca) \<in> set (rt_caches rt). (T + ca_lazy_ttl ca) div 1000000000 < 2 ^ 63)"

definition same_service :: "'n runtime \<Rightarrow> 'n runtime \<Rightarrow> bool" where
  "same_service rt rt' \<longleftrightarrow> cf_servers (rt_config rt') = cf_servers (rt_config rt)
     \<and> cf_api_http (rt_config rt') = cf_api_http (rt_config rt) \<and> cf_log (rt_config rt') = cf_log (rt_config rt)"

definition live_ok :: "'n plant \<Rightarrow> instant \<Rightarrow> 'n live \<Rightarrow> bool" where
  "live_ok P T s \<longleftrightarrow> (\<exists>cfg. build (pl_lib P) (pl_platform P) cfg = Inr (lv_runtime s))
     \<and> same_service (pl_first P) (lv_runtime s)
     \<and> world_ok (live_env P (lv_runtime s)) T (map fst (rt_caches (lv_runtime s))) (lv_world s)"

definition orderly :: "'n plant \<Rightarrow> instant \<Rightarrow> ('n runtime \<Rightarrow> bool) \<Rightarrow> bool" where
  \<comment> \<open>a started service whose other tasks keep the world as its steps do\<close>
  "orderly P T A \<longleftrightarrow> started P \<and> calm (live_env P (pl_first P)) T \<and> tame (live_env P (pl_first P))
     \<and> (\<forall>rt. A rt \<longrightarrow> representable T rt)"

lemma live_env_simps [simp]:
  "en_lib (live_env P rt) = pl_lib P" "en_reg (live_env P rt) = rt_registry rt"
  "en_other (live_env P rt) = pl_other P"
  by (simp_all add: live_env_def)

lemma live_calm: "calm (live_env P rt) T = calm (live_env P rt') T"
  by (simp add: calm_def safe_world_def)

lemma live_tame: "tame (live_env P rt) = tame (live_env P rt')"
  by (simp add: tame_def)

lemma orderly_fit:
  assumes "orderly P T A" "build (pl_lib P) (pl_platform P) cfg = Inr rt"
  shows "fit (live_env P rt) T"
  using assms live_calm [of P rt T "pl_first P"] live_tame [of P rt "pl_first P"] by (auto simp: orderly_def fit_def)

lemma safe_world_new:
  assumes "build (pl_lib P) (pl_platform P) cfg = Inr rt" "representable T rt"
    and "w_caches w = rt_caches rt" "w_now w \<le> T"
  shows "safe_world (live_env P rt) T w"
  using assms(2-4) build_caches(2) [OF assms(1)] by (auto simp: representable_def safe_world_def)

lemma world_ok_new:
  assumes "build (pl_lib P) (pl_platform P) cfg = Inr rt" "representable T rt"
    and "w_caches w = rt_caches rt" "w_now w \<le> T" "w_jobs w = []"
  shows "world_ok (live_env P rt) T (map fst (rt_caches rt)) w"
  using safe_world_new [OF assms(1-4)] assms(3,5) by (simp add: world_ok_def silent_jobs_def)

lemma reload_ok:
  assumes "reload L pf ld path previous = (Inr u, rt)"
  shows "(\<exists>cfg. build L pf cfg = Inr rt) \<and> same_service previous rt"
  using assms
  by (auto simp: reload_def same_service_def split: sum.splits if_splits)

lemma live_ok_step:
  assumes "orderly P T A" "live_ok P T s" "live_step P T s ev s'" "A (lv_runtime s')"
  shows "live_ok P T s'"
proof -
  let ?env = "live_env P (lv_runtime s)"
  obtain cfg where b: "build (pl_lib P) (pl_platform P) cfg = Inr (lv_runtime s)"
    using assms(2) by (auto simp: live_ok_def)
  have w: "world_ok ?env T (map fst (rt_caches (lv_runtime s))) (lv_world s)"
    using assms(2) by (simp add: live_ok_def)
  note fit = orderly_fit [OF assms(1) b]
  have same: "live_ok P T (s\<lparr>lv_world := w'\<rparr>)"
    if "world_ok ?env T (map fst (rt_caches (lv_runtime s))) w'" for w'
    using that assms(2) by (simp add: live_ok_def)
  from assms(3) show ?thesis
  proof cases
    case (datagram entry timeout addr workers peer buf out w')
    with kept_world.I_udp [OF fit w] show ?thesis by (auto intro: same)
  next
    case (framed entry timeout idle addr proto acc q r w')
    with kept_world.I_framed [OF fit w] show ?thesis by (auto intro: same)
  next
    case (doh entry timeout addr path acc meth target peer query body r w')
    with kept_world.I_doh_dispatch [OF fit w] show ?thesis by (auto intro: same)
  next
    case (api http rnd rq r w')
    with kept_world.I_api [OF fit w] show ?thesis by (auto intro: same)
  next
    case (refresh j tag w')
    have "c_response (rj_ctx j) = None" using w refresh by (simp add: world_ok_def silent_jobs_def)
    with kept_world.I_refresh [OF fit kept_world.I_forget [OF w]] refresh show ?thesis by (auto intro: same)
  next
    case (reloaded ld r)
    show ?thesis
    proof (cases "reload (pl_lib P) (pl_platform P) ld (pl_path P) (lv_runtime s)")
      case (Pair x rt)
      show ?thesis
      proof (cases x)
        case (Inl e)
        with Pair reloaded assms(2) show ?thesis by (simp add: live_reload_def)
      next
        case (Inr u)
        with Pair reloaded have s': "s' = live_swap rt s" by (simp add: live_reload_def)
        from reload_ok [of "pl_lib P" "pl_platform P" ld "pl_path P" "lv_runtime s" u rt] Pair Inr
        obtain cfg' where c: "build (pl_lib P) (pl_platform P) cfg' = Inr rt" "same_service (lv_runtime s) rt"
          by auto
        have "representable T rt" using assms(1,4) s' by (simp add: orderly_def live_swap_def Let_def)
        moreover have "w_now (lv_world s) \<le> T" using w by (simp add: world_ok_def safe_world_def)
        ultimately have "world_ok (live_env P rt) T (map fst (rt_caches rt)) (lv_world s')"
          by (intro world_ok_new [OF c(1)]) (simp_all add: s' live_swap_def Let_def)
        with c assms(2) show ?thesis
          by (auto simp: live_ok_def s' live_swap_def Let_def same_service_def)
      qed
    qed
  next
    case (waited now)
    then show ?thesis using w by (auto intro!: same simp: world_ok_def silent_jobs_def safe_world_now)
  qed
qed

lemma live_reach_ok:
  assumes "orderly P T A" "live_reach P T A s"
  shows "live_ok P T s"
  using assms(2)
proof (induction rule: live_reach.induct)
  case (start now)
  obtain cfg where "build (pl_lib P) (pl_platform P) cfg = Inr (pl_first P)"
    using assms(1) by (auto simp: orderly_def started_def)
  from world_ok_new [OF this, of T "lv_world (live_new now (pl_first P))"] this start assms(1) show ?case
    by (auto simp: live_ok_def live_new_def same_service_def orderly_def)
next
  case (step s ev s')
  from live_ok_step [OF assms(1) step.IH step.hyps(2,3)] show ?case .
qed

section \<open>The service works\<close>

lemma listener_plan_entry: "listener_plan pf cores e t l = Inr p \<Longrightarrow> plan_entry p = Some (e, t)"
  by (auto simp: listener_plan_def doh_plan_def Let_def split: if_splits option.splits)

lemma started_entry:
  assumes "started P" "Inr plan \<in> set (pl_plans P)" "plan_entry plan = Some (entry, timeout)"
  shows "\<exists>s \<in> set (cf_servers (rt_config (pl_first P))). sv_exec s = entry"
proof -
  obtain cores where "serve_plans (pl_platform P) cores (pl_first P) = Inr (pl_plans P)"
    using assms(1) by (auto simp: started_def)
  then have "pl_plans P = concat (map (\<lambda>s. map (listener_plan (pl_platform P) cores (sv_exec s)
        (nanos (unat (max (sv_timeout s) 1)))) (sv_listeners s)) (cf_servers (rt_config (pl_first P))))
      @ (case cf_api_http (rt_config (pl_first P)) of None \<Rightarrow> [] | Some http \<Rightarrow> [Inr (ApiPlan http)])"
    by (auto simp: serve_plans_def)
  with assms(2,3) obtain s l where "s \<in> set (cf_servers (rt_config (pl_first P)))"
    "listener_plan (pl_platform P) cores (sv_exec s) (nanos (unat (max (sv_timeout s) 1))) l = Inr plan"
    by (auto split: option.splits)
  with listener_plan_entry assms(3) show ?thesis by fastforce
qed

lemma live_handles:
  assumes "orderly P T A" "live_ok P T s" "Inr plan \<in> set (pl_plans P)" "plan_entry plan = Some (entry, timeout)"
    and "w_now (lv_world s) + timeout \<le> T"
  shows "\<exists>c' w'. handle (live_env P (lv_runtime s)) entry c timeout (lv_world s) = (Inr (Inr ()), c', w')"
proof -
  obtain cfg where b: "build (pl_lib P) (pl_platform P) cfg = Inr (lv_runtime s)"
    and same: "same_service (pl_first P) (lv_runtime s)"
    and w: "safe_world (live_env P (lv_runtime s)) T (lv_world s)"
    using assms(2) by (auto simp: live_ok_def world_ok_def)
  have "started P" using assms(1) by (simp add: orderly_def)
  from started_entry [OF this assms(3,4)] same obtain sv where
    "sv \<in> set (cf_servers (rt_config (lv_runtime s)))" "sv_exec sv = entry"
    by (auto simp: same_service_def)
  with build_servers [OF b] have "get_exec entry (rt_registry (lv_runtime s)) \<noteq> Inl (UnknownTag entry)" by force
  moreover have "calm (live_env P (lv_runtime s)) T" using orderly_fit [OF assms(1) b] by (simp add: fit_def)
  ultimately show ?thesis
    using handle_ends [of "pl_lib P" "pl_platform P" cfg "lv_runtime s" "live_env P (lv_runtime s)" T
        "lv_world s" timeout entry c] b w assms(5) by auto
qed

text \<open>
  C3. However requests to the listeners and the API, background refreshes and reloads follow one another,
  a service that was started keeps working: whatever a listener or the API is asked next, the request is
  taken to its end, on the runtime that is live by then.
\<close>
theorem service_keeps_working:
  assumes "orderly P T A" "live_reach P T A s"
  shows "(\<forall>plan entry timeout c. Inr plan \<in> set (pl_plans P) \<longrightarrow> plan_entry plan = Some (entry, timeout) \<longrightarrow>
       w_now (lv_world s) + timeout \<le> T \<longrightarrow>
       (\<exists>c' w'. handle (live_env P (lv_runtime s)) entry c timeout (lv_world s) = (Inr (Inr ()), c', w')))
     \<and> (\<forall>rnd rq. client_errors (pl_pages P) \<longrightarrow> w_now (lv_world s) + nanos 5 \<le> T \<longrightarrow>
       (\<exists>r w'. api_request (live_env P (lv_runtime s)) (pl_web P) (pl_pages P) (pl_app P) (lv_runtime s) rnd rq
           (lv_world s) = (Some r, w') \<and> (rs_status r = 200 \<or> 400 \<le> rs_status r \<and> rs_status r < 500)))"
proof (intro conjI allI impI)
  fix plan entry timeout c
  assume "Inr plan \<in> set (pl_plans P)" "plan_entry plan = Some (entry, timeout)" "w_now (lv_world s) + timeout \<le> T"
  then show "\<exists>c' w'. handle (live_env P (lv_runtime s)) entry c timeout (lv_world s) = (Inr (Inr ()), c', w')"
    by (rule live_handles [OF assms(1) live_reach_ok [OF assms]])
next
  fix rnd rq
  assume c: "client_errors (pl_pages P)" and t: "w_now (lv_world s) + nanos 5 \<le> T"
  have ok: "live_ok P T s" by (rule live_reach_ok [OF assms])
  then obtain cfg where b: "build (pl_lib P) (pl_platform P) cfg = Inr (lv_runtime s)"
    and w: "safe_world (live_env P (lv_runtime s)) T (lv_world s)" by (auto simp: live_ok_def world_ok_def)
  have "calm (live_env P (lv_runtime s)) T" using orderly_fit [OF assms(1) b] by (simp add: fit_def)
  from api_answers [OF b live_env_simps(2) c this w t]
  show "\<exists>r w'. api_request (live_env P (lv_runtime s)) (pl_web P) (pl_pages P) (pl_app P) (lv_runtime s) rnd rq
      (lv_world s) = (Some r, w') \<and> (rs_status r = 200 \<or> 400 \<le> rs_status r \<and> rs_status r < 500)" .
qed

text \<open>
  C13. In every state a service reaches, through any requests, refreshes and reloads, its runtime was built
  from a configuration with the servers, the API and the log the process was started with; its caches
  are exactly the plugins its registry knows as caches; and they keep their invariant, so that no
  deadline overflows.
\<close>
theorem service_state_ok:
  assumes "orderly P T A" "live_reach P T A s"
  shows "(\<exists>cfg. build (pl_lib P) (pl_platform P) cfg = Inr (lv_runtime s))
    \<and> same_service (pl_first P) (lv_runtime s)
    \<and> (\<forall>t. map_of (w_caches (lv_world s)) t \<noteq> None \<longleftrightarrow> get_exec t (rt_registry (lv_runtime s)) = Inr PlCache)
    \<and> safe_world (live_env P (lv_runtime s)) T (lv_world s)"
proof -
  have ok: "live_ok P T s" by (rule live_reach_ok [OF assms])
  then obtain cfg where b: "build (pl_lib P) (pl_platform P) cfg = Inr (lv_runtime s)"
    and m: "map fst (w_caches (lv_world s)) = map fst (rt_caches (lv_runtime s))"
    by (auto simp: live_ok_def world_ok_def)
  have "map_of (w_caches (lv_world s)) t \<noteq> None \<longleftrightarrow> get_exec t (rt_registry (lv_runtime s)) = Inr PlCache" for t
    using build_caches(1) [OF b, of t] arg_cong [OF m, of set] by (simp add: map_of_eq_None_iff)
  with ok show ?thesis by (simp add: live_ok_def world_ok_def)
qed

lemma caches_sound_new:
  fixes rt :: "'n runtime" and w :: "'n world"
  assumes "build (pl_lib P) (pl_platform P) cfg = Inr rt" "w_caches w = rt_caches rt"
  shows "caches_sound env w"
  using assms(2) build_caches(2) [OF assms(1)]
  by (auto simp: caches_sound_def cache_ok_def intro!: cache_sound_empty)

lemma live_sound_step:
  assumes "live_ok P T s" "live_ok P T s'" "live_step P T s ev s'"
    and "trusted (live_env P (lv_runtime s))" "guarded (rt_registry (lv_runtime s))"
    and "caches_sound (live_env P (lv_runtime s)) (lv_world s)"
  shows "caches_sound (live_env P (lv_runtime s')) (lv_world s')"
proof -
  let ?env = "live_env P (lv_runtime s)"
  have ok: "trusted ?env \<and> guarded (en_reg ?env)" using assms(4,5) by simp
  note w = assms(6)
  from assms(3) show ?thesis
  proof cases
    case (datagram entry timeout addr workers peer buf out w')
    with sound_caches.I_udp [OF ok w] show ?thesis by auto
  next
    case (framed entry timeout idle addr proto acc q r w')
    with sound_caches.I_framed [OF ok w] show ?thesis by auto
  next
    case (doh entry timeout addr path acc meth target peer query body r w')
    with sound_caches.I_doh_dispatch [OF ok w] show ?thesis by auto
  next
    case (api http rnd rq r w')
    with sound_caches.I_api [OF ok w] show ?thesis by auto
  next
    case (refresh j tag w')
    have "c_response (rj_ctx j) = None" using assms(1) refresh by (simp add: live_ok_def world_ok_def silent_jobs_def)
    with sound_caches.I_refresh [OF ok sound_caches.I_forget [OF w]] refresh show ?thesis by auto
  next
    case (reloaded ld r)
    show ?thesis
    proof (cases "reload (pl_lib P) (pl_platform P) ld (pl_path P) (lv_runtime s)")
      case (Pair x rt)
      show ?thesis
      proof (cases x)
        case (Inl e)
        with Pair reloaded w show ?thesis by (simp add: live_reload_def)
      next
        case (Inr u)
        with Pair reloaded have s': "s' = live_swap rt s" by (simp add: live_reload_def)
        from reload_ok [of "pl_lib P" "pl_platform P" ld "pl_path P" "lv_runtime s" u rt] Pair Inr
        obtain cfg' where "build (pl_lib P) (pl_platform P) cfg' = Inr rt" by auto
        from caches_sound_new [OF this] show ?thesis by (simp add: s' live_swap_def Let_def)
      qed
    qed
  next
    case (waited now)
    then show ?thesis using w by simp
  qed
qed

lemma live_sound:
  assumes "orderly P T A" "\<forall>rt. A rt \<longrightarrow> trusted (live_env P rt) \<and> guarded (rt_registry rt)"
    and "live_reach P T A s"
  shows "A (lv_runtime s) \<and> caches_sound (live_env P (lv_runtime s)) (lv_world s)"
  using assms(3)
proof (induction rule: live_reach.induct)
  case (start now)
  obtain cfg where "build (pl_lib P) (pl_platform P) cfg = Inr (pl_first P)"
    using assms(1) by (auto simp: orderly_def started_def)
  from caches_sound_new [OF this] start show ?case by (simp add: live_new_def)
next
  case (step s ev s')
  have "live_ok P T s" by (rule live_reach_ok [OF assms(1) step.hyps(1)])
  moreover have "live_ok P T s'"
    by (rule live_reach_ok [OF assms(1) live_reach.step [OF step.hyps]])
  ultimately show ?case
    using live_sound_step [OF _ _ step.hyps(2)] step.IH step.hyps(3) assms(2) by blast
qed

text \<open>
  C2. Let no configuration the service runs have a redirect that can run behind a response (\<open>guarded\<close>, a
  check on the steps of the sequences; \<open>late_redirect_mixes\<close> shows what an unguarded one does). Let the
  wire format read back the records it wrote and other tasks keep the caches as the program does
  (\<open>trusted\<close>). Then in every state the service reaches, each record of a reply, in the answers, the
  authority or the additionals, has a source for the question it answers (\<open>sourced\<close>): what the caches
  hold of earlier requests, of refreshes and of the runtimes before a reload never answers another
  question.
\<close>
theorem service_answers_have_source:
  assumes "orderly P T A" "\<forall>rt. A rt \<longrightarrow> trusted (live_env P rt) \<and> guarded (rt_registry rt)"
    and "live_reach P T A s"
    and "handle (live_env P (lv_runtime s)) entry (ctx_new i now q cl pr) timeout (lv_world s)
      = (Inr (Inr ()), c', w')"
    and "c_response c' = Some m" "r \<in> set (records m)"
  shows "sourced (live_env P (lv_runtime s)) (m_queries q) r"
proof -
  have "A (lv_runtime s)" "caches_sound (live_env P (lv_runtime s)) (lv_world s)"
    using live_sound [OF assms(1-3)] by auto
  with assms(2) answers_sourced [OF _ _ _ assms(4-6)] show ?thesis by simp
qed

end
