(* ===== verification/Answer_Laws.thy ===== *)
theory Answer_Laws
  imports Network
begin

text \<open>
  A whole request to a \<open>forward\<close> entry, with the exchanges of its upstreams as they are: it is over
  within the plugin's time limit, and what the client gets is what one of the raced upstreams
  replied to this very question.
\<close>

section \<open>A request to a forward entry\<close>

definition outcome_of ::
    "'n lib \<Rightarrow> ('h, 'w) netops \<Rightarrow> ('h, 'w) ustates \<Rightarrow> nat \<Rightarrow> string \<Rightarrow> forward \<Rightarrow> instant \<Rightarrow> 'n message
      \<Rightarrow> nat \<Rightarrow> instant \<times> 'n message res" where
  \<comment> \<open>specification: how the exchange with the \<open>i\<close>-th upstream of a plugin ends\<close>
  "outcome_of L N st tick tag f now q i =
     upstream_outcome L N (st tick tag i) (fw_upstreams f ! i) (forward_limit f) now q"

lemma exec_forward:
  assumes "get_exec tag (en_reg env) = Inr (PlForward f)" "networked env N st"
  shows "exec_tag (Suc n) env d tag c w = (let w1 = meet_others env w;
      r = forward_exec f d (w_now w1) (outcome_of (en_lib env) N st (w_tick w1) tag f (w_now w1) (c_query c)) c
        (w_metrics w1)
    in (if fr_cancelled r then Inl Cancelled else Inr (Inr Continue), fr_ctx r,
        w1\<lparr>w_now := fr_now r, w_metrics := fr_metrics r\<rparr>))"
proof -
  have "net_exchange (en_lib env) (en_reg env) N st k t tag q = outcome_of (en_lib env) N st k tag f t q" for k t q
    by (rule ext) (simp add: net_exchange_def outcome_of_def assms(1))
  with assms show ?thesis by (simp add: exec_plugin_def run_forward_def networked_def Let_def)
qed

lemma outcome_of_time: "fst (outcome_of L N st k tag f now q i) \<le> now + forward_limit f"
  unfolding outcome_of_def by (rule upstream_outcome_cases [of L N "st k tag i" "fw_upstreams f ! i" "forward_limit f" now q]) auto

lemma outcome_of_matches: "outcome_of L N st k tag f now q i = (t, Inr m) \<Longrightarrow> answers_query L q m"
  unfolding outcome_of_def by (rule upstream_outcome_cases [of L N "st k tag i" "fw_upstreams f ! i" "forward_limit f" now q]) auto

lemma finish_plain:
  assumes "handle_finish env c w = (x, c', w')" "c_rewrites c = []" "\<not> c_strip c"
  shows "x = Inr (Inr ()) \<and> w_now w' = w_now w
    \<and> c_response c' = map_option (\<lambda>r. rebind_response r (c_original c)) (c_response c)"
  using assms handle_finish_ctx [OF assms(1)]
  by (auto simp: handle_finish_def response_for_query_def Let_def split: option.split)

text \<open>
  C5. A request that enters at a \<open>forward\<close> plugin whose time limit fits into that of the request is
  over within the plugin's limit. The client gets the response code and records that one of the raced
  upstreams sent in reply to this very question, under its own identifier and question; only when
  every one of them failed is there no reply.
\<close>
theorem forward_entry_answers:
  assumes "networked env N st" "get_exec entry (en_reg env) = Inr (PlForward f)"
    and "classify_incoming q = Process"
    and "w1 = meet_others env w" "w_now w1 + forward_limit f \<le> w_now w + timeout"
    and "handle env entry (ctx_new i now q cl pr) timeout w = (x, c', w')"
  shows "x = Inr (Inr ()) \<and> w_now w' \<le> w_now w1 + forward_limit f
    \<and> (case c_response c' of
        None \<Rightarrow> \<forall>j < race_width f. \<exists>e.
          snd (outcome_of (en_lib env) N st (w_tick w1) entry f (w_now w1) q j) = Inl e
      | Some r \<Rightarrow> \<exists>j < race_width f. \<exists>t m.
          outcome_of (en_lib env) N st (w_tick w1) entry f (w_now w1) q j = (t, Inr m)
          \<and> answers_query (en_lib env) q m \<and> m_rcode r = m_rcode m \<and> m_answers r = m_answers m
          \<and> m_id r = m_id q \<and> m_queries r = m_queries q)"
proof -
  let ?ans = "outcome_of (en_lib env) N st (w_tick w1) entry f (w_now w1) q"
  let ?s = "start_ctx i now q cl pr entry"
  let ?r = "forward_exec f (w_now w + timeout) (w_now w1) ?ans ?s (w_metrics w1)"
  have start: "c_query ?s = q" "c_original ?s = q" "c_rewrites ?s = []" "\<not> c_strip ?s" "c_response ?s = None"
    by (simp_all add: begin_pipeline_def ctx_new_def)
  have t: "\<not> fr_cancelled ?r \<and> fr_now ?r \<le> w_now w1 + forward_limit f"
    by (rule forward_within) (use assms(5) outcome_of_time in auto)
  have same: "same_question ?s (fr_ctx ?r)" by (rule same_question_forward)
  have took: "took_reply (race_width f) ?ans ?s (fr_ctx ?r)"
    using forward_cases [of f "w_now w + timeout" "w_now w1" ?ans ?s "w_metrics w1"] t by (simp add: Let_def)
  have cd: "call_depth = Suc 63" by (simp add: call_depth_def)
  have ex: "exec_tag call_depth env (w_now w + timeout) entry ?s w
      = (Inr (Inr Continue), fr_ctx ?r, w1\<lparr>w_now := fr_now ?r, w_metrics := fr_metrics ?r\<rparr>)"
    unfolding cd exec_forward [OF assms(2,1)] Let_def using t by (simp add: assms(4) start)
  have fin: "handle_finish env (fr_ctx ?r) (w1\<lparr>w_now := fr_now ?r, w_metrics := fr_metrics ?r\<rparr>) = (x, c', w')"
    using assms(3,6) ex by (simp add: handle_def assms(2) start Let_def)
  have f: "c_rewrites (fr_ctx ?r) = []" "\<not> c_strip (fr_ctx ?r)" "c_original (fr_ctx ?r) = q"
    using same start by (simp_all add: same_question_def)
  from finish_plain [OF fin f(1,2)] f(3) have p: "x = Inr (Inr ())" "w_now w' = fr_now ?r"
    "c_response c' = map_option (\<lambda>r. rebind_response r q) (c_response (fr_ctx ?r))"
    by simp_all
  from took show ?thesis
    unfolding took_reply_def
  proof (elim disjE exE conjE)
    assume "c_response (fr_ctx ?r) = c_response ?s" "\<forall>i < race_width f. \<exists>e. snd (?ans i) = Inl e"
    with p t start show ?thesis by simp
  next
    fix j u m
    assume m: "j < race_width f" "?ans j = (u, Inr m)"
      "c_response (fr_ctx ?r) = Some (m\<lparr>m_id := m_id (c_query ?s), m_type := MtResponse\<rparr>)"
    with p t outcome_of_matches [OF m(2)] show ?thesis by (auto simp: rebind_response_def)
  qed
qed

end
