(* ===== verification/Wire_Laws.thy ===== *)
theory Wire_Laws
  imports Server_Laws
begin

text \<open>
  What goes back over the wire: a datagram is answered within its size limit and only to a query, a
  framed session answers its requests in their order with frames the client can split again, and
  every reply belongs to its request.
\<close>

section \<open>Frames\<close>

lemma of_be16_be16: "of_be16 (be16 n ! 0) (be16 n ! 1) = n"
  by (rule bit_word_eqI) (auto simp: of_be16_def be16_def bit_simps)

lemma be16_two: "be16 n = [be16 n ! 0, be16 n ! 1]"
  by (simp add: be16_def)

definition framed :: "u8 list \<Rightarrow> u8 list" where
  "framed b = be16 (of_nat (length b)) @ b"

lemma read_frame_framed:
  assumes "b \<noteq> []" "length b \<le> 65535"
  shows "read_frame (framed b @ rest) = Frame b rest"
proof -
  let ?n = "of_nat (length b) :: u16"
  have n: "unat ?n = length b" using assms(2) by (simp add: unat_of_nat)
  have "read_frame (framed b @ rest) = read_frame (be16 ?n ! 0 # be16 ?n ! 1 # (b @ rest))"
    unfolding framed_def by (subst be16_two) simp
  with assms(1) n of_be16_be16 [of ?n] show ?thesis by (simp add: Let_def)
qed

function read_frames :: "u8 list \<Rightarrow> u8 list list" where
  \<comment> \<open>specification: the bodies of the frames of a byte stream\<close>
  "read_frames bs = (case read_frame bs of Frame b rest \<Rightarrow> b # read_frames rest | _ \<Rightarrow> [])"
  by pat_completeness auto
termination
  by (relation "measure length") (auto dest: read_frame_length)

declare read_frames.simps [simp del]

lemma read_frames_Nil: "read_frames [] = []"
  by (subst read_frames.simps) simp

lemma read_frames_concat:
  "list_all (\<lambda>b. b \<noteq> [] \<and> length b \<le> 65535) rs \<Longrightarrow> read_frames (concat (map framed rs)) = rs"
proof (induction rs)
  case Nil
  show ?case by (simp add: read_frames_Nil)
next
  case (Cons r rs)
  then have "read_frame (framed r @ concat (map framed rs)) = Frame r (concat (map framed rs))"
    by (simp add: read_frame_framed)
  with Cons show ?case by (subst read_frames.simps) simp
qed

section \<open>The reply to one request\<close>

definition replies_to :: "'n message \<Rightarrow> 'n message \<Rightarrow> bool" where
  "replies_to q r \<longleftrightarrow> m_type r = MtResponse \<and> m_id r = m_id q \<and> m_queries r = m_queries q"

lemma reject_replies:
  "c_response (reject rc (ctx_new i now q cl pr)) = Some r \<Longrightarrow> replies_to q r"
  by (auto simp: reject_def set_response_def make_response_def reply_skeleton_def ctx_new_def
      replies_to_def)

lemma handle_replies:
  "handle env entry (ctx_new i now q cl pr) timeout w = (Inr (Inr ()), c', w') \<Longrightarrow> c_response c' = Some r
    \<Longrightarrow> replies_to q r"
  using handle_reply_header by (fastforce simp: replies_to_def)

lemma classify_query: "classify_incoming q \<noteq> Drop \<longleftrightarrow> m_type q = MtQuery"
  by (auto simp: classify_incoming_def)

definition frame_answers :: "'n lib \<Rightarrow> u8 list \<Rightarrow> u8 list \<Rightarrow> bool" where
  \<comment> \<open>one frame holds the reply to the query in another\<close>
  "frame_answers L b body \<longleftrightarrow> (\<exists>q r. dns_decode L body = Inr q \<and> m_type q = MtQuery
     \<and> dns_encode L r = Inr b \<and> replies_to q r)"

lemma tcp_response_frame:
  assumes "tcp_response L c = Inr out" "out \<noteq> []"
  obtains r b where "c_response c = Some r" "dns_encode L r = Inr b" "length b \<le> 65535" "out = framed b"
proof -
  from assms obtain r where r: "c_response c = Some r" by (auto simp: tcp_response_def split: option.splits)
  with assms(1) obtain b where b: "dns_encode L r = Inr b" "\<not> 65535 < length b" "out = framed b"
    by (auto simp: tcp_response_def framed_def split: if_splits)
  from that [OF r b(1) _ b(3)] b(2) show thesis by simp
qed

lemma framed_step_answers:
  assumes "framed_step env entry timeout proto peer q w = (Inr out, w')" "out \<noteq> []"
    and "dns_decode (en_lib env) body = Inr q"
  shows "\<exists>b. out = framed b \<and> length b \<le> 65535 \<and> frame_answers (en_lib env) b body"
proof -
  let ?c = "ctx_new (w_next_id w) (w_now w) q peer proto"
  obtain c1 where c1: "tcp_response (en_lib env) c1 = Inr out" "m_type q = MtQuery"
      "\<And>r. c_response c1 = Some r \<Longrightarrow> replies_to q r"
  proof (cases "classify_incoming q")
    case Drop
    with assms(1,2) show ?thesis by (simp add: framed_step_def Let_def)
  next
    case ReplyNotImp
    with assms(1) that [of "reject NotImp ?c"] reject_replies show ?thesis
      using classify_query by (fastforce simp: framed_step_def Let_def)
  next
    case Process
    obtain x c' w1 where h: "handle env entry ?c timeout (w\<lparr>w_next_id := snd (next_id (w_next_id w))\<rparr>) = (x, c', w1)"
      by (metis prod.exhaust)
    with assms(1) Process have x: "x = Inr (Inr ())" "tcp_response (en_lib env) c' = Inr out"
      by (auto simp: framed_step_def Let_def split: sum.splits)
    have "replies_to q r" if "c_response c' = Some r" for r
      using handle_replies [OF h [unfolded x(1)] that] .
    with that [of c'] x(2) Process classify_query [of q] show ?thesis by simp
  qed
  from tcp_response_frame [OF c1(1) assms(2)] c1(2,3) assms(3) show ?thesis
    unfolding frame_answers_def by metis
qed

section \<open>Framed sessions\<close>

definition session_replies :: "'n lib \<Rightarrow> u8 list \<Rightarrow> u8 list \<Rightarrow> bool" where
  \<comment> \<open>the output is frames that answer some of the requests of the input, in their order\<close>
  "session_replies L bs out \<longleftrightarrow> (\<exists>rs asked. out = concat (map framed rs) \<and> subseq asked (read_frames bs)
     \<and> list_all2 (frame_answers L) rs asked \<and> list_all (\<lambda>b. length b \<le> 65535) rs)"

lemma session_replies_Nil: "session_replies L bs []"
  unfolding session_replies_def by (intro exI [of _ "[]"]) simp

lemma serve_framed_replies:
  "session_replies (en_lib env) bs (fst (serve_framed env entry timeout proto peer bs w))"
proof (induction env entry timeout proto peer bs w rule: serve_framed.induct)
  case (1 env entry timeout proto peer bs w)
  show ?case
  proof (cases "read_frame bs")
    case (Frame body rest)
    have frames: "read_frames bs = body # read_frames rest" by (subst read_frames.simps) (simp add: Frame)
    show ?thesis
    proof (cases "dns_decode (en_lib env) body")
      case (Inl e)
      with Frame show ?thesis by (simp add: serve_framed.simps session_replies_Nil)
    next
      case q: (Inr q)
      obtain y w' where step: "framed_step env entry timeout proto peer q w = (y, w')"
        by (metis prod.exhaust)
      show ?thesis
      proof (cases y)
        case (Inl e)
        with Frame q step show ?thesis by (simp add: serve_framed.simps session_replies_Nil)
      next
        case (Inr out)
        note ih = 1 [OF Frame q step [symmetric] Inr]
        have out: "fst (serve_framed env entry timeout proto peer bs w)
            = out @ fst (serve_framed env entry timeout proto peer rest w')"
          by (subst serve_framed.simps) (simp add: Frame q step Inr split: prod.split)
        obtain rs asked where rs: "fst (serve_framed env entry timeout proto peer rest w') = concat (map framed rs)"
            "subseq asked (read_frames rest)" "list_all2 (frame_answers (en_lib env)) rs asked"
            "list_all (\<lambda>b. length b \<le> 65535) rs"
          using ih unfolding session_replies_def by auto
        show ?thesis
        proof (cases "out = []")
          case True
          with rs out frames show ?thesis
            unfolding session_replies_def by (intro exI [of _ rs] exI [of _ asked]) auto
        next
          case False
          obtain b where "out = framed b" "length b \<le> 65535" "frame_answers (en_lib env) b body"
            using framed_step_answers [OF step [unfolded Inr] False q] by blast
          with rs out frames show ?thesis
            unfolding session_replies_def by (intro exI [of _ "b # rs"] exI [of _ "body # asked"]) auto
        qed
      qed
    qed
  qed (simp_all add: serve_framed.simps session_replies_Nil)
qed

text \<open>
  On a TCP or TLS connection the client can split what it receives into frames, and each is the
  reply to one of its queries, with that query's identifier and question; replies come in the order
  of the queries, and what is not a query is not answered.
\<close>
theorem session_answers_in_order:
  assumes "\<And>m b. wire_encode (en_lib env) m = Some b \<Longrightarrow> b \<noteq> []"
  shows "\<exists>rs asked. fst (serve_framed env entry timeout proto peer bs w) = concat (map framed rs)
    \<and> read_frames (concat (map framed rs)) = rs \<and> subseq asked (read_frames bs)
    \<and> list_all2 (frame_answers (en_lib env)) rs asked"
proof -
  obtain rs asked where rs: "fst (serve_framed env entry timeout proto peer bs w) = concat (map framed rs)"
      "subseq asked (read_frames bs)" "list_all2 (frame_answers (en_lib env)) rs asked"
      "list_all (\<lambda>b. length b \<le> 65535) rs"
    using serve_framed_replies unfolding session_replies_def by blast
  have "b \<noteq> []" if "b \<in> set rs" for b
    using rs(3) that assms
    by (auto simp: list_all2_conv_all_nth in_set_conv_nth frame_answers_def dns_encode_def)
  with rs(4) have "read_frames (concat (map framed rs)) = rs"
    by (intro read_frames_concat) (auto simp: list_all_iff)
  with rs show ?thesis by blast
qed

section \<open>Datagrams\<close>

lemma send_udp_fits:
  assumes "send_udp L c = Some b"
  obtains r n where "c_response c = Some r" "512 \<le> n" "n \<le> 4096"
    "dns_encode L r = Inr b \<and> length b \<le> n
      \<or> (\<exists>full. dns_encode L r = Inr full \<and> n < length full) \<and> dns_encode L (wire_truncate L r) = Inr b"
proof -
  obtain r where r: "c_response c = Some r" "encode_udp L r (udp_payload_max (c_query c)) = Inr b"
    using assms by (auto simp: send_udp_def split: option.splits sum.splits)
  from r(2) have "dns_encode L r = Inr b \<and> length b \<le> udp_payload_max (c_query c)
      \<or> (\<exists>full. dns_encode L r = Inr full \<and> udp_payload_max (c_query c) < length full)
        \<and> dns_encode L (wire_truncate L r) = Inr b"
    by (auto simp: encode_udp_def split: if_splits)
  with that r(1) udp_payload_max_bounds [of "c_query c"] show thesis by blast
qed

text \<open>
  C12. A datagram is answered only when it is a query, with the reply to that query; the reply fits
  the limit, which is between 512 and 4096 bytes, or is sent truncated.
\<close>
theorem datagram_reply_bound:
  assumes "udp_serve env entry timeout peer buf w = (Some b, w')"
  shows "\<exists>q r n. dns_decode (en_lib env) buf = Inr q \<and> m_type q = MtQuery
    \<and> m_type r = MtResponse \<and> m_id r = m_id q \<and> m_queries r = m_queries q \<and> 512 \<le> n \<and> n \<le> 4096
    \<and> (dns_encode (en_lib env) r = Inr b \<and> length b \<le> n
      \<or> (\<exists>full. dns_encode (en_lib env) r = Inr full \<and> n < length full)
        \<and> dns_encode (en_lib env) (wire_truncate (en_lib env) r) = Inr b)"
proof -
  obtain q where q: "dns_decode (en_lib env) buf = Inr q"
    using assms by (cases "dns_decode (en_lib env) buf") (simp_all add: udp_serve_def)
  let ?c = "ctx_new (w_next_id w) (w_now w) q (Some peer) PUdp"
  obtain c1 where c1: "send_udp (en_lib env) c1 = Some b" "m_type q = MtQuery"
      "\<And>r. c_response c1 = Some r \<Longrightarrow> replies_to q r"
  proof (cases "classify_incoming q")
    case Drop
    with assms q show ?thesis by (simp add: udp_serve_def Let_def next_id_def)
  next
    case ReplyNotImp
    with assms q that [of "reject NotImp ?c"] reject_replies show ?thesis
      using classify_query by (fastforce simp: udp_serve_def Let_def next_id_def)
  next
    case Process
    obtain x c' w1 where h: "handle env entry ?c timeout (w\<lparr>w_next_id := w_next_id w + 1\<rparr>) = (x, c', w1)"
      by (metis prod.exhaust)
    with assms q Process have x: "x = Inr (Inr ())" "send_udp (en_lib env) c' = Some b"
      by (auto simp: udp_serve_def Let_def next_id_def split: sum.splits)
    have "replies_to q r" if "c_response c' = Some r" for r
      using handle_replies [OF h [unfolded x(1)] that] .
    with that [of c'] x(2) Process classify_query [of q] show ?thesis by simp
  qed
  from send_udp_fits [OF c1(1)] c1(2,3) q show ?thesis unfolding replies_to_def by metis
qed

end
