(* ===== verification/Witnesses.thy ===== *)
theory Witnesses
  imports Config_Laws Wire_Laws Cache_Laws
begin

text \<open>
  A concrete registry, network and world at which the properties with hypotheses are applied: a
  sequence that rewrites a name, attaches a subnet and answers.
\<close>

definition demo_ecs :: ecs where
  "demo_ecs = \<lparr>ec_tag = ''e'', ec_auto = False, ec_ipv4 = Some 3405803776, ec_ipv6 = None,
     ec_force = False, ec_mask4 = 24, ec_mask6 = 48\<rparr>"

definition demo_main :: sequence where
  "demo_main = \<lparr>sq_tag = ''main'', sq_steps =
     [\<lparr>st_matchers = [MNeg MHasResp], st_exec = ExPlugin ''r''\<rparr>,
      \<lparr>st_matchers = [], st_exec = ExPlugin ''e''\<rparr>,
      \<lparr>st_matchers = [MNeg MHasResp], st_exec = ExBuiltin (BReject NXDomain)\<rparr>]\<rparr>"

definition demo_registry :: "string registry" where
  "demo_registry = \<lparr>rg_execs =
     [(''main'', PlSequence demo_main), (''r'', PlRedirect [(''a.test'', ''b.test.'')]),
      (''e'', PlEcs demo_ecs)],
     rg_sets = \<lparr>rg_domains = [], rg_ips = []\<rparr>, rg_default_entry = Some ''main''\<rparr>"

definition demo_env :: "string env" where
  "demo_env = \<lparr>en_lib = demo_lib, en_reg = demo_registry, en_other = (\<lambda>_ w. w),
     en_exchange = (\<lambda>_ _ _ _ _. (0, Inl (OtherErr [])))\<rparr>"

definition demo_world :: "string world" where
  "demo_world = \<lparr>w_caches = [], w_metrics = metrics_new 0, w_next_id = 0, w_jobs = [], w_now = 0,
     w_tick = 0\<rparr>"

definition demo_client_edns :: "string message" where
  "demo_client_edns = demo_question\<lparr>m_edns := Some edns_new\<rparr>"

lemma call_depth_Suc: "call_depth = Suc (Suc 62)"
  by (simp add: call_depth_def)

lemma push_trace_off: "\<not> c_trace_enabled c \<Longrightarrow> push_trace now p e d c = c"
  by (simp add: push_trace_def)

lemma demo_redirect:
  "redirect_exec demo_lib now [(''a.test'', ''b.test.'')] (start_ctx i t demo_client_edns cl pr e)
     = rewrite_name demo_lib ''b.test.'' (start_ctx i t demo_client_edns cl pr e)"
  by (simp add: redirect_exec_def Let_def qname_str_def ctx_qname_def demo_client_edns_def
      demo_question_def message_new_def demo_lib_def redirect_matches_def trim_end_matches_def
      trim_end_by_def to_ascii_lowercase_def ascii_lower_def push_trace_def begin_pipeline_def
      ctx_new_def rewrite_name_def)

lemmas demo_defs = demo_env_def demo_registry_def demo_main_def demo_world_def

abbreviation demo_start :: "string ctx" where
  "demo_start \<equiv> start_ctx 0 0 demo_client_edns None PUdp ''main''"

abbreviation demo_rewritten :: "string ctx" where
  "demo_rewritten \<equiv> rewrite_name demo_lib ''b.test.'' demo_start"

abbreviation demo_attached :: "string ctx" where
  "demo_attached \<equiv> ecs_exec demo_lib 0 demo_ecs demo_rewritten"

lemma demo_flags:
  "\<not> c_trace_enabled demo_start" "\<not> c_trace_enabled demo_rewritten" "\<not> c_trace_enabled demo_attached"
  "c_response demo_attached = None" "c_response demo_start = None"
  by (simp_all add: begin_pipeline_def ctx_new_def rewrite_name_def Let_def ecs_exec_def push_trace_def
      case_prod_beta split: list.split option.split)

lemma demo_exec_depth:
  "\<exists>w'. exec_tag (Suc (Suc n)) demo_env d ''main'' demo_start demo_world
     = (Inr (Inr Accept), reject NXDomain demo_attached, w')"
  by (simp add: demo_defs get_exec_def exec_plugin_def Let_def meet_others_def
      seq_step_def snapshot_writes_def push_trace_off demo_flags demo_redirect has_resp_def
      seq_finish_def)

lemma demo_exec:
  "\<exists>w'. exec_tag call_depth demo_env d ''main'' demo_start demo_world
     = (Inr (Inr Accept), reject NXDomain demo_attached, w')"
  unfolding call_depth_Suc by (rule demo_exec_depth)

lemma demo_handle:
  "\<exists>w'. handle demo_env ''main'' (ctx_new 0 0 demo_client_edns None PUdp) (nanos 5) demo_world
     = handle_finish demo_env (reject NXDomain demo_attached) w'"
proof -
  obtain w' where "exec_tag call_depth demo_env (nanos 5) ''main'' demo_start demo_world
     = (Inr (Inr Accept), reject NXDomain demo_attached, w')"
    using demo_exec by blast
  moreover have "classify_incoming demo_client_edns = Process"
    by (simp add: classify_incoming_def demo_client_edns_def demo_question_def message_new_def)
  moreover have "get_exec ''main'' (en_reg demo_env) = Inr (PlSequence demo_main)"
    by (simp add: demo_env_def demo_registry_def get_exec_def)
  ultimately show ?thesis by (auto simp: handle_def Let_def demo_world_def)
qed

lemma demo_ecs_attached: "ecs_of (c_query demo_attached) \<noteq> None"
  by (simp add: ecs_exec_def Let_def push_trace_def case_prod_beta demo_ecs_def ecs_pick_def
      begin_pipeline_def ctx_new_def rewrite_name_def demo_client_edns_def demo_question_def
      message_new_def edns_new_def ecs_of_def opt_get_def ctx_qtype_def demo_lib_def
      set_ecs_def opt_insert_def opt_remove_def split: list.split)

lemma demo_rewritten_eq:
  "demo_rewritten = demo_start\<lparr>c_rewrites := [(''a.test.'', ''b.test.'')],
     c_query := demo_client_edns\<lparr>m_queries := [\<lparr>q_name = ''b.test.'', q_type = RtA, q_class = ClassIN\<rparr>]\<rparr>\<rparr>"
  by (simp add: rewrite_name_def Let_def begin_pipeline_def ctx_new_def demo_client_edns_def
      demo_question_def message_new_def demo_lib_def trim_end_matches_def trim_end_by_def
      to_ascii_lowercase_def ascii_lower_def)

lemma demo_attached_frame:
  "c_rewrites demo_attached = [(''a.test.'', ''b.test.'')]" "c_original demo_attached = demo_client_edns"
  unfolding ecs_exec_frame demo_rewritten_eq by (simp_all add: begin_pipeline_def)

lemma demo_reply:
  obtains c' w' r where
    "handle demo_env ''main'' (ctx_new 0 0 demo_client_edns None PUdp) (nanos 5) demo_world
       = (Inr (Inr ()), c', w')"
    "c_response c' = Some r" "m_rcode r = NXDomain" "ecs_of (c_query c') \<noteq> None"
    "c_rewrites c' = [(''a.test.'', ''b.test.'')]"
proof -
  let ?c = "reject NXDomain demo_attached"
  obtain w where h: "handle demo_env ''main'' (ctx_new 0 0 demo_client_edns None PUdp) (nanos 5) demo_world
      = handle_finish demo_env ?c w"
    using demo_handle by blast
  obtain x c' w' where f: "handle_finish demo_env ?c w = (x, c', w')" by (metis prod.exhaust)
  have x: "x = Inr (Inr ())" using f by (auto simp: handle_finish_def Let_def)
  have fr: "c_query ?c = c_query demo_attached" "c_rewrites ?c = c_rewrites demo_attached"
    "c_original ?c = c_original demo_attached"
    by (simp_all add: reject_def set_response_def)
  note r = handle_finish_response [OF f]
  have "\<exists>r0. response_for_query (en_lib demo_env) (c_original ?c) 0 ?c = Some r0 \<and> m_rcode r0 = NXDomain"
    by (simp add: response_for_query_def Let_def reject_def set_response_def make_response_def
        rebind_response_def reply_skeleton_def)
  then obtain r1 where "c_response c' = Some r1" "m_rcode r1 = NXDomain"
    using r(1) by auto
  moreover have "ecs_of (c_query c') \<noteq> None" using r(2) fr(1) demo_ecs_attached by simp
  moreover have "c_rewrites c' = [(''a.test.'', ''b.test.'')]" using r(3) fr(2) demo_attached_frame by simp
  ultimately show thesis using that h f x by simp
qed

section \<open>Witnesses\<close>

lemma reply_bound_to_client_witness:
  "\<exists>c' w' r. handle demo_env ''main'' (ctx_new 0 0 demo_client_edns None PUdp) (nanos 5) demo_world
       = (Inr (Inr ()), c', w') \<and> c_response c' = Some r
     \<and> m_id r = 7 \<and> m_queries r = m_queries demo_question"
proof -
  obtain c' w' r where h: "handle demo_env ''main'' (ctx_new 0 0 demo_client_edns None PUdp) (nanos 5) demo_world
      = (Inr (Inr ()), c', w')" "c_response c' = Some r"
    by (rule demo_reply)
  from reply_bound_to_client [OF h] have "m_id r = 7 \<and> m_queries r = m_queries demo_question"
    by (simp add: demo_client_edns_def demo_question_def)
  with h show ?thesis by blast
qed


lemma reply_has_alias_chain_witness:
  "\<exists>c' w' r. handle demo_env ''main'' (ctx_new 0 0 demo_client_edns None PUdp) (nanos 5) demo_world
       = (Inr (Inr ()), c', w') \<and> c_response c' = Some r
     \<and> alias_present demo_lib (m_answers r) (''a.test.'', ''b.test.'')"
proof -
  obtain c' w' r where h: "handle demo_env ''main'' (ctx_new 0 0 demo_client_edns None PUdp) (nanos 5) demo_world
      = (Inr (Inr ()), c', w')" "c_response c' = Some r" "m_rcode r = NXDomain"
      "c_rewrites c' = [(''a.test.'', ''b.test.'')]"
    by (rule demo_reply)
  have refl: "nm_eq (en_lib demo_env) n n" for n by (simp add: demo_env_def demo_lib_def)
  have q: "m_queries demo_client_edns = \<lparr>q_name = ''a.test.'', q_type = RtA, q_class = ClassIN\<rparr> # []"
    by (simp add: demo_client_edns_def demo_question_def)
  from reply_has_alias_chain [OF refl h(1,2) _ q] h(3,4)
  have "alias_present demo_lib (m_answers r) (''a.test.'', ''b.test.'')"
    by (auto simp: demo_env_def)
  with h show ?thesis by blast
qed

lemma refresh_restarts_request_witness:
  "c_query (clone_for_lazy 9 5 demo_attached) = demo_client_edns
     \<and> c_query demo_attached \<noteq> demo_client_edns \<and> c_skip_cache (clone_for_lazy 9 5 demo_attached)"
proof -
  have "evolves demo_start demo_rewritten" by (rule evolves_rewrite_name)
  then have "evolves demo_start demo_attached" by (rule evolves_trans [OF _ evolves_ecs_exec])
  from refresh_restarts_request [OF this, of 9 5]
  have "clone_for_lazy 9 5 demo_attached = (start_ctx 9 5 demo_client_edns None PUdp ''main'')\<lparr>c_skip_cache := True\<rparr>" .
  moreover have "ecs_of demo_client_edns = None"
    by (simp add: demo_client_edns_def ecs_of_def edns_new_def opt_get_def)
  with demo_ecs_attached have "c_query demo_attached \<noteq> demo_client_edns" by auto
  ultimately show ?thesis by simp
qed

lemma udp_limit_after_ecs_witness:
  "udp_payload_max (c_query (ecs_exec demo_lib 0 demo_ecs demo_ctx)) = 1232
     \<and> udp_payload_max (c_query demo_ctx) = 512"
proof (rule udp_limit_after_ecs)
  show "m_edns (c_query demo_ctx) = None"
    by (simp add: demo_ctx_def ctx_new_def demo_question_def message_new_def)
  show "ecs_pick demo_ecs demo_ctx = Some (V4 3405803776, 24)"
    by (simp add: ecs_pick_def demo_ecs_def demo_ctx_def ctx_new_def demo_question_def ctx_qtype_def)
qed

definition slow_upstream :: upstream where
  "slow_upstream = \<lparr>up_spec = \<lparr>us_addr = ''192.0.2.1'', us_dial_addr = None, us_bootstrap = None,
       us_idle_timeout = nanos 10, us_insecure = False, us_tag = None\<rparr>,
     up_kind = KUdp ''192.0.2.1:53'', up_http = False, up_resolver = None, up_tls = False\<rparr>"

definition slow_env :: "string env" where
  "slow_env = demo_env\<lparr>
     en_reg := \<lparr>rg_execs = [(''up'', PlForward \<lparr>fw_tag = ''up'', fw_upstreams = [slow_upstream],
         fw_concurrent = 1, fw_timeout_ms = 9000\<rparr>)],
       rg_sets = \<lparr>rg_domains = [], rg_ips = []\<rparr>, rg_default_entry = Some ''up''\<rparr>,
     en_exchange := (\<lambda>_ _ _ _ _. (nanos 9, Inl (OtherErr [])))\<rparr>"

lemma slow_exec_depth:
  "\<exists>w1. exec_tag (Suc (Suc n)) slow_env (w_now demo_world + nanos 5) ''up''
       (start_ctx 0 0 demo_question None PUdp ''up'') demo_world
     = (Inl Cancelled, start_ctx 0 0 demo_question None PUdp ''up'', w1)"
  by (simp add: slow_env_def demo_env_def demo_world_def get_exec_def exec_plugin_def Let_def
      run_forward_def forward_exec_def race_width_def forward_single_def meet_others_def)

lemma timeout_servfail_witness:
  "\<exists>c' w' r. handle slow_env ''up'' (ctx_new 0 0 demo_question None PUdp) (nanos 5) demo_world
       = (Inr (Inr ()), c', w') \<and> c_response c' = Some r \<and> m_rcode r = ServFail \<and> m_id r = 7"
proof -
  obtain w1 where ex: "exec_tag call_depth slow_env (w_now demo_world + nanos 5) ''up''
       (start_ctx 0 0 demo_question None PUdp ''up'') demo_world
     = (Inl Cancelled, start_ctx 0 0 demo_question None PUdp ''up'', w1)"
    unfolding call_depth_Suc using slow_exec_depth by blast
  have p: "\<exists>p. get_exec ''up'' (en_reg slow_env) = Inr p"
    by (simp add: slow_env_def get_exec_def)
  have q: "classify_incoming demo_question = Process"
    by (simp add: classify_incoming_def demo_question_def message_new_def)
  obtain x c' w' where h: "handle slow_env ''up'' (ctx_new 0 0 demo_question None PUdp) (nanos 5) demo_world
      = (x, c', w')"
    by (metis prod.exhaust)
  from p timeout_servfail [OF q _ ex h] h show ?thesis
    by (auto simp: demo_question_def)
qed

definition demo_config :: config where
  "demo_config = \<lparr>cf_log = \<lparr>lg_level = ''info'', lg_file = None\<rparr>, cf_include = [],
     cf_plugins = [\<lparr>pc_tag = Some ''b'', pc_ty = ''black_hole'', pc_args = YNull, pc_base = []\<rparr>],
     cf_servers = [\<lparr>sv_exec = ''b'', sv_timeout = 5, sv_listeners = []\<rparr>],
     cf_api_http = None, cf_base = []\<rparr>"

definition demo_platform :: platform where
  "demo_platform = \<lparr>pf_files = (\<lambda>_. None), pf_uri = (\<lambda>s. Some (s, None)),
     pf_pem = \<lparr>pem_certs = (\<lambda>_. Inr []), pem_items = (\<lambda>_. Inr []), pem_accepts = (\<lambda>_ _. Inr ())\<rparr>,
     pf_log_level = (\<lambda>_. True), pf_http = (\<lambda>_. Inr ()), pf_tls_client = (\<lambda>_. Inr ())\<rparr>"

lemma demo_build: "\<exists>rt. build demo_lib demo_platform demo_config = Inr rt"
proof -
  have n: "normalize_entries demo_config = Inr demo_config"
    by (simp add: normalize_entries_def demo_config_def normalize_entry_def trim_def trim_end_by_def
        trim_start_def trim_start_by_def trim_start_matches_def is_ws_def Let_def)
  have v: "validate_plugin_graph demo_config = Inr ()"
    by (simp add: validate_plugin_graph_def graph_edges_def demo_config_def add_plugin_def
        plugin_tag_def bad_tag_def is_ws_def config_calls_def validate_edges_def unknown_call_def
        max_pipeline_depth_def Let_def)
  have st: "validate_settings demo_platform demo_config = Inr ()"
    by (simp add: validate_settings_def demo_platform_def demo_config_def)
  have "\<exists>rt. res_bind (res_fold (build_plugin demo_lib demo_platform) build_start (cf_plugins demo_config))
      (build_registry demo_lib demo_config) = Inr rt"
    by (simp add: demo_config_def build_plugin_def plugin_tag_def Let_def build_registry_def build_start_def
        put_exec_def fill_entry_def get_exec_def insert_execs_def)
  with n v st show ?thesis by (simp add: build_def)
qed

lemma handle_total_witness:
  "\<exists>rt r c' w'. build demo_lib demo_platform demo_config = Inr rt
     \<and> handle (demo_env\<lparr>en_reg := rt_registry rt\<rparr>) ''b'' demo_ctx (nanos 5) demo_world = (Inr r, c', w')"
proof -
  obtain rt where rt: "build demo_lib demo_platform demo_config = Inr rt" using demo_build by blast
  let ?env = "demo_env\<lparr>en_reg := rt_registry rt\<rparr>"
  have "calm ?env (nanos 100)" by (simp add: calm_def demo_env_def)
  moreover have "safe_world ?env (nanos 100) demo_world" by (simp add: safe_world_def demo_world_def)
  moreover have "en_reg ?env = rt_registry rt" by simp
  moreover have "w_now demo_world + nanos 5 \<le> nanos 100" by (simp add: demo_world_def)
  ultimately show ?thesis
    using rt handle_total [OF rt, of ?env "nanos 100" demo_world "nanos 5" "''b''" demo_ctx] by blast
qed

lemma configured_entry_served_witness:
  "\<exists>rt c' w'. build demo_lib demo_platform demo_config = Inr rt
     \<and> \<lparr>sv_exec = ''b'', sv_timeout = 5, sv_listeners = []\<rparr> \<in> set (cf_servers (rt_config rt))
     \<and> handle (demo_env\<lparr>en_reg := rt_registry rt\<rparr>) ''b'' demo_ctx (nanos 5) demo_world
         = (Inr (Inr ()), c', w')"
proof -
  obtain rt where rt: "build demo_lib demo_platform demo_config = Inr rt" using demo_build by blast
  let ?env = "demo_env\<lparr>en_reg := rt_registry rt\<rparr>"
  let ?s = "\<lparr>sv_exec = ''b'', sv_timeout = 5, sv_listeners = []\<rparr>"
  obtain cfg1 st where c: "normalize_entries demo_config = Inr cfg1" "build_registry demo_lib cfg1 st = Inr rt"
    using rt by (auto simp: build_def)
  have "cfg1 = demo_config"
    using c(1) by (simp add: normalize_entries_def demo_config_def normalize_entry_def trim_def
        trim_end_by_def trim_start_def trim_start_by_def trim_start_matches_def is_ws_def Let_def)
  with c(2) have s: "?s \<in> set (cf_servers (rt_config rt))"
    by (auto simp: build_registry_def Let_def demo_config_def fill_entry_def)
  have "calm ?env (nanos 100)" by (simp add: calm_def demo_env_def)
  moreover have "safe_world ?env (nanos 100) demo_world" by (simp add: safe_world_def demo_world_def)
  moreover have "en_reg ?env = rt_registry rt" by simp
  moreover have "w_now demo_world + nanos 5 \<le> nanos 100" by (simp add: demo_world_def)
  ultimately show ?thesis
    using rt s configured_entry_served [OF rt _ s, of ?env "nanos 100" demo_world "nanos 5" demo_ctx]
    by auto
qed

definition demo_loader :: "string list \<Rightarrow> loader" where
  "demo_loader inc = \<lparr>ld_canonicalize = Some, ld_read = (\<lambda>p. if p = ''/a'' then Some ''text'' else None),
     ld_serde = (\<lambda>_. Some (demo_config\<lparr>cf_include := inc\<rparr>)), ld_parent = (\<lambda>_. Some ''/'')\<rparr>"

lemma demo_load_own:
  "\<exists>cfg. load_own (demo_loader inc) ''/a'' = Inr cfg \<and> cf_include cfg = inc"
  by (simp add: load_own_def demo_loader_def config_from_yaml_def lift_server_plugins_def demo_config_def
      lift_plugin_def server_proto_def normalize_entries_def normalize_entry_def trim_def
      trim_end_by_def trim_start_def trim_start_by_def trim_start_matches_def is_ws_def Let_def
      stamp_base_def)

lemma load_file_clean_witness:
  "\<exists>cfg. load_file (demo_loader []) ''/a'' = Inr cfg
     \<and> list_all (\<lambda>p. server_proto (pc_ty p) = None \<and> pc_base p \<noteq> []) (cf_plugins cfg)"
proof -
  obtain cfg where own: "load_own (demo_loader []) ''/a'' = Inr cfg" "cf_include cfg = []"
    using demo_load_own by blast
  then have l: "load_file (demo_loader []) ''/a'' = Inr cfg"
    by (simp add: load_file_def load_with_stack.simps) (simp add: demo_loader_def)
  from load_file_clean [OF l] l show ?thesis by blast
qed

lemma include_cycles_rejected_witness:
  "\<exists>e. load_file (demo_loader [''/a'']) ''/a'' = Inl e"
proof (rule include_cycles_rejected)
  obtain cfg where own: "load_own (demo_loader [''/a'']) ''/a'' = Inr cfg" "cf_include cfg = [''/a'']"
    using demo_load_own by blast
  have "resolve_path (cf_base cfg) ''/a'' = ''/a''" by (simp add: resolve_path_def path_is_absolute_def)
  with file_includes.intros [OF own(1), of "''/a''"] own(2)
  have "file_includes (demo_loader [''/a'']) ''/a'' ''/a''" by simp
  then show "(file_includes (demo_loader [''/a'']))\<^sup>+\<^sup>+ ''/a'' ''/a''" by blast
qed simp

definition status_env :: "string env" where
  \<comment> \<open>a wire format in which [2] is a status request with identifier 7\<close>
  "status_env = demo_env\<lparr>en_lib := demo_lib\<lparr>
     wire_decode := (\<lambda>b. if b = [2] then Some (message_new\<lparr>m_id := 7, m_opcode := 2\<rparr>) else None),
     wire_encode := (\<lambda>m. Some [ucast (m_id m)])\<rparr>\<rparr>"

lemma datagram_reply_bound_witness:
  "\<exists>w' r. udp_serve status_env ''main'' 0 (V4 1) [2] demo_world = (Some [7], w')
     \<and> m_type r = MtResponse \<and> m_id r = 7 \<and> dns_encode (en_lib status_env) r = Inr [7]"
proof -
  have "\<exists>w'. udp_serve status_env ''main'' 0 (V4 1) [2] demo_world = (Some [7], w')"
    by (simp add: udp_serve_def status_env_def demo_env_def dns_decode_def next_id_def Let_def
        classify_incoming_def send_udp_def encode_udp_def dns_encode_def reject_def set_response_def
        make_response_def reply_skeleton_def ctx_new_def message_new_def udp_payload_max_def)
  then obtain w' where u: "udp_serve status_env ''main'' 0 (V4 1) [2] demo_world = (Some [7], w')" ..
  from datagram_reply_bound [OF this] obtain q r n where
    "dns_decode (en_lib status_env) [2] = Inr q" "m_type r = MtResponse" "m_id r = m_id q"
    "512 \<le> n" "dns_encode (en_lib status_env) r = Inr [7]
      \<or> (\<exists>full. dns_encode (en_lib status_env) r = Inr full \<and> n < length full)" by blast
  moreover have "q = message_new\<lparr>m_id := 7, m_opcode := 2\<rparr>"
    using calculation(1) by (simp add: status_env_def demo_env_def dns_decode_def)
  moreover have "dns_encode (en_lib status_env) r = Inr [ucast (m_id r)]"
    by (simp add: status_env_def demo_env_def dns_encode_def)
  ultimately show ?thesis using u by auto
qed

lemma session_answers_in_order_witness:
  "\<exists>rs asked. fst (serve_framed status_env ''main'' 0 PTcp None (framed [2] @ framed [2]) demo_world)
       = concat (map framed rs) \<and> read_frames (concat (map framed rs)) = rs
     \<and> list_all2 (frame_answers (en_lib status_env)) rs asked"
proof -
  have "wire_encode (en_lib status_env) m = Some b \<Longrightarrow> b \<noteq> []" for m b
    by (auto simp: status_env_def demo_env_def)
  from session_answers_in_order [of status_env "''main''" 0 PTcp None
      "framed [2] @ framed [2]" demo_world] this
  show ?thesis by blast
qed

end
