(* ===== verification/Service_Witnesses.thy ===== *)
theory Service_Witnesses
  imports Service_Laws Witnesses
begin

text \<open>
  A concrete service at which the properties of the whole program with hypotheses are applied: one
  UDP listener in front of a \<open>black_hole\<close>, and an API with one cache.
\<close>

definition udp_listener :: listener_config where
  "udp_listener = \<lparr>li_protocol = ''udp'', li_addr = ''127.0.0.1:53'', li_cert = None, li_key = None,
     li_url_path = None, li_idle_timeout = None, li_workers = None\<rparr>"

definition service_loader :: loader where
  "service_loader = \<lparr>ld_canonicalize = Some, ld_read = (\<lambda>p. if p = ''/a'' then Some ''text'' else None),
     ld_serde = (\<lambda>_. Some (demo_config\<lparr>cf_servers :=
       [\<lparr>sv_exec = ''$b'', sv_timeout = 5, sv_listeners = [udp_listener]\<rparr>]\<rparr>)), ld_parent = (\<lambda>_. Some ''/'')\<rparr>"

definition service_config :: config where
  "service_config = demo_config\<lparr>
     cf_plugins := [\<lparr>pc_tag = Some ''b'', pc_ty = ''black_hole'', pc_args = YNull, pc_base = ''/''\<rparr>],
     cf_servers := [\<lparr>sv_exec = ''b'', sv_timeout = 5, sv_listeners = [udp_listener]\<rparr>], cf_base := ''/''\<rparr>"

lemma service_load: "load_file service_loader ''/a'' = Inr service_config"
proof -
  have "load_own service_loader ''/a'' = Inr service_config"
    by (simp add: load_own_def service_loader_def config_from_yaml_def lift_server_plugins_def demo_config_def
        lift_plugin_def server_proto_def normalize_entries_def normalize_entry_def trim_def
        trim_end_by_def trim_start_def trim_start_by_def trim_start_matches_def is_ws_def Let_def
        stamp_base_def base_dir_def udp_listener_def service_config_def)
  then show ?thesis
    by (simp add: load_file_def load_with_stack.simps) (simp add: service_loader_def service_config_def demo_config_def)
qed

lemma udp_listener_addr: "parse_socket_addr ''127.0.0.1:53'' = Some (socket_addr_new (V4 0x7F000001) 53)"
  by (simp add: parse_socket_addr_def read_socket_v4_def read_port_def ip_parse_eval)

lemma service_build:
  "\<exists>rt. build demo_lib demo_platform service_config = Inr rt \<and> validate_service rt = Inr ()
     \<and> cf_servers (rt_config rt) = cf_servers service_config"
proof -
  have n: "normalize_entries service_config = Inr service_config"
    by (simp add: normalize_entries_def service_config_def demo_config_def normalize_entry_def trim_def
        trim_end_by_def trim_start_def trim_start_by_def trim_start_matches_def is_ws_def Let_def)
  have v: "validate_plugin_graph service_config = Inr ()"
    by (simp add: validate_plugin_graph_def graph_edges_def service_config_def demo_config_def add_plugin_def
        plugin_tag_def bad_tag_def is_ws_def config_calls_def validate_edges_def unknown_call_def
        max_pipeline_depth_def Let_def)
  have "to_ascii_lowercase ''udp'' = ''udp''" by (simp add: to_ascii_lowercase_def ascii_lower_def)
  then have st: "validate_settings demo_platform service_config = Inr ()"
    by (simp add: validate_settings_def demo_platform_def service_config_def demo_config_def
        validate_listener_def udp_listener_def udp_listener_addr Let_def)
  have "\<exists>rt. res_bind (res_fold (build_plugin demo_lib demo_platform) build_start (cf_plugins service_config))
      (build_registry demo_lib service_config) = Inr rt \<and> validate_service rt = Inr ()
      \<and> cf_servers (rt_config rt) = cf_servers service_config"
    by (simp add: service_config_def demo_config_def build_plugin_def plugin_tag_def Let_def
        build_registry_def build_start_def put_exec_def fill_entry_def get_exec_def insert_execs_def
        validate_service_def)
  with n v st show ?thesis by (simp add: build_def)
qed

definition demo_log :: log_ops where
  "demo_log = \<lparr>lo_env_filter = False, lo_filter = (\<lambda>_. True), lo_open = (\<lambda>_. True)\<rparr>"

lemma check_means_start_witness:
  "main_run demo_lib demo_platform (Some 4) demo_log service_loader ShutdownFirst (Check ''/a'')
     = Exit [''config ok (/a)'']
   \<and> main_run demo_lib demo_platform (Some 4) demo_log service_loader (ServeFirst None) (Start ''/a'')
     = Failed (''serve'', ConfigErr ''listener exited unexpectedly'')"
proof -
  obtain rt where "build demo_lib demo_platform service_config = Inr rt" "validate_service rt = Inr ()"
    using service_build by blast
  then have c: "main_run demo_lib demo_platform (Some 4) demo_log service_loader ShutdownFirst (Check ''/a'')
      = Exit [''config ok (/a)'']"
    by (simp add: main_run_def main_check_def with_context_def init_log_def log_default_def demo_log_def service_load)
  from check_means_start [OF this, of "ServeFirst None"] c show ?thesis by (simp add: demo_log_def serve_end_def)
qed

lemma served_after_reloads_witness:
  "\<exists>rt c' w'. build demo_lib demo_platform service_config = Inr rt
     \<and> handle (demo_env\<lparr>en_reg := rt_registry (reload_task demo_lib demo_platform ''/a''
            (Inr [service_loader, demo_loader []]) rt)\<rparr>) ''b'' demo_ctx (nanos 5) demo_world
         = (Inr (Inr ()), c', w')"
proof -
  obtain rt where rt: "build demo_lib demo_platform service_config = Inr rt"
      "cf_servers (rt_config rt) = cf_servers service_config"
    using service_build by blast
  let ?s = "\<lparr>sv_exec = ''b'', sv_timeout = 5, sv_listeners = [udp_listener]\<rparr>"
  let ?env = "demo_env\<lparr>en_reg := rt_registry (reload_task demo_lib demo_platform ''/a''
      (Inr [service_loader, demo_loader []]) rt)\<rparr>"
  have "?s \<in> set (cf_servers (rt_config rt))" by (simp add: rt(2) service_config_def)
  moreover have "calm ?env (nanos 100)" by (simp add: calm_def demo_env_def)
  moreover have "safe_world ?env (nanos 100) demo_world" by (simp add: safe_world_def demo_world_def)
  moreover have "en_reg ?env = rt_registry (reload_task demo_lib demo_platform ''/a''
      (Inr [service_loader, demo_loader []]) rt)" by simp
  moreover have "w_now demo_world + nanos 5 \<le> nanos 100" by (simp add: demo_world_def)
  ultimately have "\<exists>c' w'. handle ?env (sv_exec ?s) demo_ctx (nanos 5) demo_world = (Inr (Inr ()), c', w')"
    using served_after_reloads [OF rt(1), of ?s ?env "''/a''" "Inr [service_loader, demo_loader []]"
        "nanos 100" demo_world "nanos 5" demo_ctx] by blast
  with rt(1) show ?thesis by auto
qed

definition demo_web :: "string web" where
  "demo_web = \<lparr>wb_url = (\<lambda>s. Some \<lparr>ur_scheme = ''http'', ur_host = Some s, ur_port = None, ur_username = [],
       ur_password = None, ur_path = ''/'', ur_query = None, ur_fragment = None, ur_origin = s\<rparr>),
     wb_authority = (\<lambda>_. True), wb_flush_req = (\<lambda>_. Some None),
     wb_rdata_debug = (\<lambda>_. []), wb_rdata_display = (\<lambda>_. []), wb_type_display = (\<lambda>_. [])\<rparr>"

definition demo_query_req :: query_req where
  "demo_query_req = \<lparr>qr_name = ''a.test'', qr_qtype = ''1'', qr_entry = Some ''$b'', qr_ecs = None,
     qr_client_ip = None\<rparr>"

lemma flush_exact_witness:
  "\<exists>caches'. flush_handler demo_web [] [] [(''c'', cache_from_args ''c'' YNull)] = (Inr [''c''], caches')
     \<and> map_of caches' ''c'' = Some (cache_flush (cache_from_args ''c'' YNull))"
proof -
  let ?m = "[(''c'', cache_from_args ''c'' YNull)]"
  have f: "flush_handler demo_web [] [] ?m = (Inr [''c''], [(''c'', cache_flush (cache_from_args ''c'' YNull))])"
    by (simp add: flush_handler_def flush_req_def)
  have "cache_inv (cache_from_args ''c'' YNull)"
    using cache_ok_new [of demo_lib "''c''" YNull] by (simp add: cache_ok_def)
  with flush_exact [OF _ _ f] f show ?thesis by (simp add: alist_ok_def)
qed

end
