(* ===== verification/Console_Witnesses.thy ===== *)
theory Console_Witnesses
  imports Console_Laws Service_Witnesses
begin

text \<open>
  The properties of the admin API applied at concrete requests: a form of a foreign page, a health
  check, and two configurations with different credentials.
\<close>

definition demo_pages :: pages where
  "demo_pages = \<lparr>pg_asset = (\<lambda>p. p), pg_json = (\<lambda>_ _. Inl (422, ''no JSON'')), pg_bytes = Inr,
     pg_snapshot = (\<lambda>_. []), pg_system = (\<lambda>_. []), pg_plugins = (\<lambda>_. []), pg_query_resp = (\<lambda>_. []),
     pg_flushed = (\<lambda>_. [])\<rparr>"

definition demo_app :: app_state where
  "demo_app = \<lparr>as_id_prefix = 7, as_initial_started = 0\<rparr>"

definition demo_runtime :: "string \<Rightarrow> string \<Rightarrow> string runtime" where
  \<comment> \<open>with a password in the address of an upstream, and the file of a key\<close>
  "demo_runtime password keyfile = \<lparr>rt_registry = demo_registry,
     rt_config = \<lparr>cf_log = \<lparr>lg_level = ''info'', lg_file = None\<rparr>, cf_include = [],
       cf_plugins = [\<lparr>pc_tag = Some ''up'', pc_ty = ''forward'',
         pc_args = YMap [(YStr ''upstream'', YStr (''https://me:'' @ password @ ''@dns''))], pc_base = []\<rparr>],
       cf_servers = [\<lparr>sv_exec = ''up'', sv_timeout = 5, sv_listeners = [\<lparr>li_protocol = ''tls'',
         li_addr = ''127.0.0.1:853'', li_cert = Some ''cert'', li_key = Some keyfile, li_url_path = None,
         li_idle_timeout = None, li_workers = None\<rparr>]\<rparr>],
       cf_api_http = None, cf_base = []\<rparr>, rt_caches = []\<rparr>"

definition secret_web :: "string web" where
  \<comment> \<open>a parser for which all of the text is the password\<close>
  "secret_web = demo_web\<lparr>wb_url := (\<lambda>s. Some \<lparr>ur_scheme = ''https'', ur_host = Some ''dns'', ur_port = None,
       ur_username = ''me'', ur_password = Some s, ur_path = ''/'', ur_query = None, ur_fragment = None,
       ur_origin = []\<rparr>)\<rparr>"

definition foreign_flush :: request where
  "foreign_flush = \<lparr>rq_method = ''POST'', rq_path = ''/api/cache/flush'',
     rq_headers = [(''origin'', Some ''http://evil''), (''host'', Some ''dns'')], rq_body = []\<rparr>"

lemma api_changes_trusted_witness:
  "\<exists>r. api_request demo_env demo_web demo_pages demo_app (demo_runtime [] []) 1 foreign_flush demo_world
      = (Some r, demo_world) \<and> rs_status r = 403 \<and> hardened r"
proof -
  obtain x w' where r: "api_request demo_env demo_web demo_pages demo_app (demo_runtime [] []) 1 foreign_flush demo_world
      = (x, w')" by (metis prod.exhaust)
  have "foreign_source demo_web (rq_headers foreign_flush)"
    by (simp add: foreign_source_def get_all_def demo_web_def foreign_flush_def)
  with api_changes_trusted [OF r] have "w' = demo_world" "map_option rs_status x = Some 403"
    "\<forall>y. x = Some y \<longrightarrow> hardened y"
    by (auto simp: foreign_flush_def write_routes_def)
  with r show ?thesis by auto
qed

lemma api_always_answers_witness:
  "\<exists>rt r w'. build demo_lib demo_platform demo_config = Inr rt
    \<and> api_request (demo_env\<lparr>en_reg := rt_registry rt\<rparr>) demo_web demo_pages demo_app rt 1 foreign_flush demo_world
      = (Some r, w') \<and> (rs_status r = 200 \<or> 400 \<le> rs_status r \<and> rs_status r < 500)"
proof -
  obtain rt where rt: "build demo_lib demo_platform demo_config = Inr rt" using demo_build by blast
  let ?env = "demo_env\<lparr>en_reg := rt_registry rt\<rparr>"
  have "en_reg ?env = rt_registry rt" by simp
  moreover have "client_errors demo_pages" by (simp add: client_errors_def demo_pages_def)
  moreover have "calm ?env (nanos 100)" by (simp add: calm_def demo_env_def)
  moreover have "safe_world ?env (nanos 100) demo_world" by (simp add: safe_world_def demo_world_def)
  moreover have "w_now demo_world + nanos 5 \<le> nanos 100" by (simp add: demo_world_def)
  ultimately have "\<exists>r w'. api_request ?env demo_web demo_pages demo_app rt 1 foreign_flush demo_world = (Some r, w')
      \<and> (rs_status r = 200 \<or> 400 \<le> rs_status r \<and> rs_status r < 500)"
    by (rule api_always_answers [OF rt])
  with rt show ?thesis by blast
qed

lemma demo_secret_upstream:
  "public_upstreams secret_web \<lparr>pc_tag = Some ''up'', pc_ty = ''forward'',
     pc_args = YMap [(YStr ''upstream'', YStr (''https://me:'' @ password @ ''@dns''))], pc_base = []\<rparr>
   = [(None, Some (''https'', ''dns'', None))]"
  by (simp add: public_upstreams_def public_endpoint_def secret_web_def y_get_or_def spec_from_value_def
      List.map_filter_simps)

lemma api_hides_secrets_witness:
  "api_request demo_env secret_web demo_pages demo_app (demo_runtime ''a'' ''key1'') 1
      \<lparr>rq_method = ''GET'', rq_path = ''/api/system'', rq_headers = [], rq_body = []\<rparr> demo_world
   = api_request demo_env secret_web demo_pages demo_app (demo_runtime ''b'' ''key2'') 1
      \<lparr>rq_method = ''GET'', rq_path = ''/api/system'', rq_headers = [], rq_body = []\<rparr> demo_world"
proof (rule api_hides_secrets)
  show "public_servers (rt_config (demo_runtime ''a'' ''key1'')) = public_servers (rt_config (demo_runtime ''b'' ''key2''))"
    by (simp add: demo_runtime_def public_servers_def public_listener_def)
  show "public_plugins secret_web (rt_config (demo_runtime ''a'' ''key1''))
      = public_plugins secret_web (rt_config (demo_runtime ''b'' ''key2''))"
    using demo_secret_upstream [of "''a''"] demo_secret_upstream [of "''b''"]
    by (simp add: demo_runtime_def public_plugins_def plugin_tag_def)
qed (simp_all add: demo_runtime_def)

end
