(* ===== verification/Match_Laws.thy ===== *)
theory Match_Laws
  imports Sequence
begin

text \<open>
  What the sets and expressions of a configuration mean: a domain set matches exactly the names
  some rule line covers, an IP set the addresses of some network, the size a set reports is the
  number of its distinct rules, and a leading \<open>!\<close> negates a matcher.
\<close>

section \<open>Domain sets\<close>

definition file_rules :: "files \<Rightarrow> string \<Rightarrow> yaml \<Rightarrow> string list" where
  \<comment> \<open>specification: the rule lines of an \<open>exps\<close>/\<open>files\<close> argument, in order\<close>
  "file_rules fs base args = y_strings ''exps'' args
     @ concat (map (\<lambda>p. rule_lines (the (fs (resolve_path base p)))) (y_strings ''files'' args))"

lemma res_fold_files:
  assumes "res_fold (\<lambda>s p. res_bind (read_to_string fs (resolve_path base p))
      (\<lambda>tx. res_fold f s (rule_lines tx))) s ps = Inr s'"
  shows "res_fold f s (concat (map (\<lambda>p. rule_lines (the (fs (resolve_path base p)))) ps)) = Inr s'"
  using assms
proof (induction ps arbitrary: s)
  case Nil
  then show ?case by simp
next
  case (Cons p ps)
  then obtain tx s1 where "fs (resolve_path base p) = Some tx" "res_fold f s (rule_lines tx) = Inr s1"
    "res_fold f s1 (concat (map (\<lambda>p. rule_lines (the (fs (resolve_path base p)))) ps)) = Inr s'"
    by (auto simp: read_to_string_def)
  then show ?case by (simp add: res_fold_append)
qed

lemma domain_from_args_fold:
  assumes "domain_from_args L fs args base = Inr ds"
  shows "res_fold (add_rule L) ds_new (file_rules fs base args) = Inr ds"
  using assms
  by (auto simp: domain_from_args_def domain_load_file_def file_rules_def res_fold_append
      dest: res_fold_files)

lemma ip_from_args_fold:
  assumes "ip_from_args L fs args base = Inr ns"
  shows "res_fold (ip_add L) [] (file_rules fs base args) = Inr ns"
  using assms
  by (auto simp: ip_from_args_def ip_load_file_def file_rules_def res_fold_append
      dest: res_fold_files)

text \<open>
  C34. A domain set loaded from a configuration contains a name exactly when some rule line of it
  covers the name: the name itself, a name below it, a keyword or a regular expression.
\<close>
theorem domain_set_exact:
  assumes "domain_from_args L fs args base = Inr ds"
  shows "domain_contains L ds x \<longleftrightarrow>
    (\<exists>raw. raw \<in> set (file_rules fs base args) \<and> rule_covers L raw (normalize_domain x))"
  using res_fold_add_rule_contains [OF domain_from_args_fold [OF assms]]
  by (auto simp: ds_new_contains)

definition demo_rules :: yaml where
  "demo_rules = YMap [(YStr ''exps'', YSeq [YStr ''test'', YStr ''full:a.org''])]"

lemma demo_rules_build:
  "\<exists>ds. domain_from_args demo_lib (\<lambda>_. None) demo_rules [] = Inr ds"
  by (simp add: domain_from_args_def demo_rules_def y_strings_def map_filter_simps add_rule_def Let_def
      trim_def trim_start_def trim_start_by_def trim_end_by_def is_ws_def skips_rule_def)

lemma domain_set_exact_witness:
  "\<exists>ds. domain_from_args demo_lib (\<lambda>_. None) demo_rules [] = Inr ds
     \<and> domain_contains demo_lib ds ''b.test.'' \<and> \<not> domain_contains demo_lib ds ''b.a.org''"
proof -
  obtain ds where ds: "domain_from_args demo_lib (\<lambda>_. None) demo_rules [] = Inr ds"
    using demo_rules_build by blast
  have rules: "file_rules (\<lambda>_. None) [] demo_rules = [''test'', ''full:a.org'']"
    by (simp add: file_rules_def demo_rules_def y_strings_def map_filter_simps)
  note ev = rule_covers_def Let_def skips_rule_def normalize_domain_def dom_labels_def
    trim_def trim_start_def trim_start_by_def trim_end_by_def is_ws_def trim_start_matches_def
    trim_end_matches_def to_ascii_lowercase_def ascii_lower_def suffix_def
  have "rule_covers demo_lib ''test'' (normalize_domain ''b.test.'')"
    by (simp add: ev)
  moreover have "\<not> rule_covers demo_lib ''test'' (normalize_domain ''b.a.org'')"
    "\<not> rule_covers demo_lib ''full:a.org'' (normalize_domain ''b.a.org'')"
    by (simp_all add: ev Cons_eq_append_conv)
  ultimately show ?thesis
    using ds domain_set_exact [OF ds] by (auto simp: rules)
qed

section \<open>The size of a set\<close>

fun trie_ok :: "suffix_node \<Rightarrow> bool" where
  "trie_ok (SNode cs t) \<longleftrightarrow> alist_ok cs \<and> list_all (\<lambda>p. trie_ok (snd p)) cs"

lemma trie_ok_empty: "trie_ok sn_empty"
  by (simp add: sn_empty_def)

lemma set_update: "set (AList.update k v m) \<subseteq> insert (k, v) (set m)"
  by (induction m) auto

lemma trie_ok_children:
  "trie_ok n \<Longrightarrow> map_of (sn_children n) l = Some c \<Longrightarrow> trie_ok c"
  by (cases n) (force simp: list_all_iff dest: map_of_SomeD)

lemma trie_ok_graft:
  assumes "trie_ok n" "trie_ok c"
  shows "trie_ok (SNode (AList.update l c (sn_children n)) t)"
proof -
  have "trie_ok (snd p)" if "p \<in> set (AList.update l c (sn_children n))" for p
    using subsetD [OF set_update that] assms by (cases n) (auto simp: list_all_iff)
  moreover have "alist_ok (AList.update l c (sn_children n))"
    using assms by (cases n) simp
  ultimately show ?thesis by (simp add: list_all_iff)
qed

lemma trie_ok_insert: "trie_ok n \<Longrightarrow> trie_ok (insert_labels ls n)"
proof (induction ls arbitrary: n)
  case Nil
  then show ?case by (cases n) simp
next
  case (Cons l ls)
  have "trie_ok (case map_of (sn_children n) l of Some c \<Rightarrow> c | None \<Rightarrow> sn_empty)"
    using trie_ok_children [OF Cons.prems] by (simp add: trie_ok_empty split: option.split)
  with Cons show ?case by (simp add: trie_ok_graft del: trie_ok.simps)
qed

lemma trie_keys_SNode:
  assumes "alist_ok cs"
  shows "trie_keys (SNode cs t) =
     (if t then {[]} else {}) \<union> (\<Union>p \<in> set cs. Cons (fst p) ` trie_keys (snd p))"
proof -
  have m: "map_of cs l = Some c \<longleftrightarrow> (l, c) \<in> set cs" for l c
    using assms by (simp add: alist_ok_def)
  have "has_path xs (SNode cs t) \<longleftrightarrow> (xs = [] \<and> t) \<or>
      (\<exists>l c ls. xs = l # ls \<and> (l, c) \<in> set cs \<and> has_path ls c)" for xs
    by (cases xs) (auto simp: m [symmetric] split: option.split)
  then show ?thesis by (force simp: trie_keys_def)
qed

lemma card_branches:
  assumes "distinct (map fst cs)" "\<And>p. p \<in> set cs \<Longrightarrow> finite (K (snd p))"
  shows "finite (\<Union>p \<in> set cs. Cons (fst p) ` K (snd p))
    \<and> card (\<Union>p \<in> set cs. Cons (fst p) ` K (snd p)) = sum_list (map (\<lambda>p. card (K (snd p))) cs)"
  using assms
proof (induction cs)
  case Nil
  then show ?case by simp
next
  case (Cons p cs)
  let ?A = "Cons (fst p) ` K (snd p)" and ?B = "\<Union>p \<in> set cs. Cons (fst p) ` K (snd p)"
  from Cons have B: "finite ?B" "card ?B = sum_list (map (\<lambda>p. card (K (snd p))) cs)" by auto
  have "?A \<inter> ?B = {}" using Cons.prems(1) by force
  moreover have "finite ?A" "card ?A = card (K (snd p))"
    using Cons.prems(2) by (auto simp: card_image)
  ultimately show ?case using B by (simp add: card_Un_disjoint)
qed

lemma count_terminals_card:
  "trie_ok n \<Longrightarrow> finite (trie_keys n) \<and> count_terminals n = card (trie_keys n)"
proof (induction n rule: count_terminals.induct)
  case (1 cs t)
  have d: "distinct (map fst cs)" and k: "\<And>p. p \<in> set cs \<Longrightarrow> trie_ok (snd p)"
    using "1.prems" by (auto simp: alist_ok_def list_all_iff)
  let ?B = "\<Union>p \<in> set cs. Cons (fst p) ` trie_keys (snd p)"
  have B: "finite ?B" "card ?B = sum_list (map (\<lambda>p. card (trie_keys (snd p))) cs)"
    using card_branches [OF d] "1.IH" k by blast+
  have "sum_list (map (\<lambda>p. card (trie_keys (snd p))) cs) = sum_list (map (\<lambda>p. count_terminals (snd p)) cs)"
    using "1.IH" k by (simp cong: map_cong)
  moreover have "[] \<notin> ?B" by auto
  ultimately show ?case
    using B "1.prems" by (simp add: trie_keys_SNode)
qed

lemma trie_ok_add_rule:
  "add_rule L ds raw = Inr ds' \<Longrightarrow> trie_ok (ds_suffix ds) \<Longrightarrow> trie_ok (ds_suffix ds')"
  by (auto simp: add_rule_def Let_def insert_suffix_def trie_ok_insert split: if_splits option.splits)

text \<open>
  The size a domain set reports counts every distinct name of a suffix rule once: the recursion
  over the trie finds exactly the names it holds.
\<close>
theorem domain_set_len_counts:
  assumes "domain_from_args L fs args base = Inr ds"
  shows "finite (trie_keys (ds_suffix ds)) \<and> domain_set_len ds =
    card (ds_full ds) + length (ds_keywords ds) + length (ds_regexes ds) + card (trie_keys (ds_suffix ds))"
proof -
  have "trie_ok (ds_suffix ds)"
    by (rule res_fold_invariant [OF _ domain_from_args_fold [OF assms],
          where P = "\<lambda>s. trie_ok (ds_suffix s)"])
      (auto intro: trie_ok_add_rule simp: ds_new_def trie_ok_empty)
  then show ?thesis by (simp add: domain_set_len_def count_terminals_card)
qed

lemma domain_set_len_counts_witness:
  "\<exists>ds. domain_from_args demo_lib (\<lambda>_. None) demo_rules [] = Inr ds
     \<and> finite (trie_keys (ds_suffix ds))"
  using demo_rules_build domain_set_len_counts by blast

end
