(* ===== verification/Plugin_Laws.thy ===== *)
theory Plugin_Laws
  imports Match_Laws Pipeline_Laws
begin

text \<open>
  What single plugins and expressions guarantee: negated matchers, and the host table with the
  answers made of it.
\<close>

section \<open>Matcher expressions\<close>

lemma strip_bangs_flip: "strip_bangs (\<not> n) s = map_prod Not id (strip_bangs n s)"
proof (induction n s rule: strip_bangs.induct)
  case (1 n s)
  show ?case
    by (subst (1 2) strip_bangs.simps) (simp add: 1 [simplified] id_def split: option.split)
qed

lemma trim_commute: "trim_start (trim_end_by is_ws s) = trim s"
proof (cases "list_all is_ws s")
  case True
  then have a: "dropWhile is_ws s = []" "dropWhile is_ws (rev s) = []"
    by (simp_all add: list_all_iff dropWhile_eq_Nil_conv)
  show ?thesis unfolding trim_def trim_start_def trim_start_by_def trim_end_by_def a by simp
next
  case False
  then have "\<exists>x \<in> set s. \<not> is_ws x" by (simp add: list_all_iff)
  from split_list_first_prop [OF this]
  obtain us x vs where s: "s = us @ x # vs" "\<forall>c \<in> set us. is_ws c" "\<not> is_ws x" by blast
  have d: "dropWhile is_ws s = x # vs" using s by (simp add: dropWhile_append2)
  have e: "dropWhile is_ws (rev vs @ x # rev us) = dropWhile is_ws (rev vs @ [x]) @ rev us"
    using s(3) by (simp add: dropWhile_append)
  have "dropWhile is_ws (us @ rev (dropWhile is_ws (rev vs @ [x]))) = rev (dropWhile is_ws (rev vs @ [x]))"
  proof -
    have "rev (dropWhile is_ws (rev vs @ [x])) = x # rev (dropWhile is_ws (rev vs))"
      using s(3) by (simp add: dropWhile_append)
    with s(2,3) show ?thesis by (simp add: dropWhile_append2)
  qed
  then show ?thesis
    using s(1) d e by (simp add: trim_def trim_start_def trim_start_by_def trim_end_by_def)
qed

lemma trim_bang: "trim (CHR ''!'' # s) = CHR ''!'' # trim_end_by is_ws s"
proof -
  have "\<not> is_ws CHR ''!''" by (simp add: is_ws_def)
  then show ?thesis
    by (simp add: trim_def trim_start_def trim_start_by_def trim_end_by_def dropWhile_append)
qed

text \<open>
  A leading \<open>!\<close>, with or without white space after it and repeated any number of times,
  negates what the rest of a matcher expression means, and changes nothing about which expressions
  are accepted.
\<close>
theorem bang_negates:
  "case bind_matcher L reg e of
     Inl err \<Rightarrow> bind_matcher L reg (CHR ''!'' # e) = Inl err
   | Inr m \<Rightarrow> \<exists>m'. bind_matcher L reg (CHR ''!'' # e) = Inr m' \<and> (\<forall>c. matches L c m' \<longleftrightarrow> \<not> matches L c m)"
proof -
  obtain n s where ns: "strip_bangs False (trim e) = (n, s)" by (metis prod.exhaust)
  have "strip_bangs False (trim (CHR ''!'' # e)) = (\<not> n, s)"
    using strip_bangs_flip [of False "trim e"] ns
    by (simp add: trim_bang strip_bangs_prefix trim_commute)
  with ns show ?thesis by (cases "bind_matcher_atom L reg s") (auto simp: bind_matcher_def)
qed

section \<open>Hosts\<close>

definition host_lines :: "files \<Rightarrow> string \<Rightarrow> yaml \<Rightarrow> string list" where
  \<comment> \<open>specification: the lines of a \<open>hosts\<close> configuration, in order\<close>
  "host_lines fs base args = y_strings ''entries'' args
     @ concat (map (\<lambda>p. str_lines (the (fs (resolve_path base p)))) (y_strings ''files'' args))
     @ List.map_filter hosts_map_line
         (case Option.bind (y_get ''hosts'' args) y_as_map of None \<Rightarrow> [] | Some m \<Rightarrow> m)"

definition table_full :: "host_table \<Rightarrow> bool" where
  "table_full t \<longleftrightarrow> (\<forall>k. map_of t k \<noteq> Some [])"

lemma table_full_names:
  "res_fold (host_add_name L a) t ns = Inr t' \<Longrightarrow> table_full t \<Longrightarrow> table_full t'"
  by (induction ns arbitrary: t)
    (auto simp: host_add_name_def table_full_def host_push_def update_conv')

lemma table_full_line: "parse_hosts_line L t line = Inr t' \<Longrightarrow> table_full t \<Longrightarrow> table_full t'"
  by (auto simp: parse_hosts_line_def Let_def table_full_names split: if_splits option.splits)

lemma table_full_lines: "res_fold (parse_hosts_line L) t ls = Inr t' \<Longrightarrow> table_full t \<Longrightarrow> table_full t'"
  by (induction ls arbitrary: t) (auto simp: table_full_line)

lemma hosts_fold:
  assumes "res_fold (\<lambda>t p. hosts_load_file L fs t (resolve_path base p)) t ps = Inr t'"
  shows "res_fold (parse_hosts_line L) t
    (concat (map (\<lambda>p. str_lines (the (fs (resolve_path base p)))) ps)) = Inr t'"
  using assms
proof (induction ps arbitrary: t)
  case Nil
  then show ?case by simp
next
  case (Cons p ps)
  then obtain tx t1 where "fs (resolve_path base p) = Some tx"
    "res_fold (parse_hosts_line L) t (str_lines tx) = Inr t1"
    "res_fold (parse_hosts_line L) t1 (concat (map (\<lambda>p. str_lines (the (fs (resolve_path base p)))) ps)) = Inr t'"
    by (auto simp: hosts_load_file_def read_to_string_def)
  then show ?case by (simp add: res_fold_append)
qed

lemma hosts_from_args_fold:
  assumes "hosts_from_args L fs tag args base = Inr h"
  shows "res_fold (parse_hosts_line L) [] (host_lines fs base args) = Inr (ho_table h)"
  using assms by (auto simp: hosts_from_args_def host_lines_def Let_def res_fold_append dest!: hosts_fold)

text \<open>
  C38. The host table holds, for every name, the addresses its lines give it, in their order, and a
  name is known exactly when some line names it.
\<close>
theorem hosts_table_exact:
  assumes "hosts_from_args L fs tag args base = Inr h"
  shows "host_ips (ho_table h) key = concat (map (line_ips key) (host_lines fs base args))
    \<and> (hosts_known h name \<longleftrightarrow> concat (map (line_ips (host_key name)) (host_lines fs base args)) \<noteq> [])"
proof -
  note f = hosts_from_args_fold [OF assms]
  have t: "host_ips (ho_table h) k = concat (map (line_ips k) (host_lines fs base args))" for k
    using host_ips_lines [OF f, of k] by (simp add: host_ips_def)
  have "table_full (ho_table h)" by (rule table_full_lines [OF f]) (simp add: table_full_def)
  then have "hosts_known h name \<longleftrightarrow> host_ips (ho_table h) (host_key name) \<noteq> []"
    by (auto simp: hosts_known_def host_ips_def table_full_def split: option.split)
  with t show ?thesis by simp
qed

definition demo_hosts_args :: yaml where
  "demo_hosts_args = YMap [(YStr ''entries'', YSeq [YStr ''10.0.0.1 r.lan'', YStr ''# no line''])]"

lemma demo_host_line: "hosts_fields ''10.0.0.1 r.lan'' = Some (V4 0x0A000001, [''r.lan''])"
  by (simp add: hosts_fields_def Let_def is_ws_def ip_parse_eval)

lemma demo_line_eval:
  "trim ''10.0.0.1 r.lan'' = ''10.0.0.1 r.lan''" "trim [] = []"
  "host_key ''r.lan'' = ''r.lan''"
  by (simp_all add: trim_def trim_start_def trim_start_by_def trim_end_by_def is_ws_def host_key_def
      trim_end_matches_def to_ascii_lowercase_def ascii_lower_def)

lemma demo_from_ascii: "nm_from_ascii demo_lib n = Some n"
  by (simp add: demo_lib_def)

lemma hosts_table_exact_witness:
  "\<exists>h. hosts_from_args demo_lib (\<lambda>_. None) ''h'' demo_hosts_args [] = Inr h
     \<and> host_ips (ho_table h) ''r.lan'' = [V4 0x0A000001] \<and> hosts_known h ''R.lan.''"
proof -
  have lines: "host_lines (\<lambda>_. None) [] demo_hosts_args = [''10.0.0.1 r.lan'', ''# no line'']"
    by (simp add: host_lines_def demo_hosts_args_def y_strings_def map_filter_simps)
  have "\<exists>h. hosts_from_args demo_lib (\<lambda>_. None) ''h'' demo_hosts_args [] = Inr h"
    by (simp add: hosts_from_args_def Let_def demo_hosts_args_def y_strings_def map_filter_simps
        parse_hosts_line_def demo_line_eval demo_host_line host_add_name_def demo_from_ascii)
  then obtain h where h: "hosts_from_args demo_lib (\<lambda>_. None) ''h'' demo_hosts_args [] = Inr h"
    by blast
  have key: "host_key ''R.lan.'' = ''r.lan''"
    by (simp add: host_key_def trim_end_matches_def trim_end_by_def to_ascii_lowercase_def
        ascii_lower_def char_of_def bit_0)
  have "concat (map (line_ips ''r.lan'') (host_lines (\<lambda>_. None) [] demo_hosts_args)) = [V4 0x0A000001]"
    by (simp add: lines line_ips_def Let_def demo_line_eval demo_host_line)
  with hosts_table_exact [OF h, of "''r.lan''" "''R.lan.''"] h key show ?thesis by auto
qed

text \<open>
  A name of the host table is answered on the spot, with its addresses of the wanted family and
  nothing else, so the question never reaches an upstream; any other name is left alone.
\<close>
theorem hosts_answer_known_names:
  "let c' = hosts_exec L now h c; name = qname_str L c in
   if hosts_known h name
   then \<exists>r. c_response c' = Some r \<and> m_rcode r = NoError \<and> m_aa r
     \<and> m_answers r = hosts_lookup L h name (ctx_qtype c)
   else c' = c"
proof -
  have "hosts_lookup L h (qname_str L c) (ctx_qtype c) = []" if "\<not> hosts_known h (qname_str L c)"
    using that by (simp add: hosts_lookup_def hosts_known_def Let_def)
  then show ?thesis
    by (auto simp: hosts_exec_def Let_def set_response_def build_hosts_response_def
        reply_skeleton_def)
qed

end
