(* ===== verification/Operation_Witnesses.thy ===== *)
theory Operation_Witnesses
  imports Operation_Laws Answer_Laws Console_Witnesses Plugin_Laws
begin

text \<open>
  The properties of the whole service applied at a concrete one: a UDP listener in front of a host
  table.
\<close>

section \<open>A service with a host table\<close>

definition lan_server :: server_config where
  "lan_server = \<lparr>sv_exec = ''h'', sv_timeout = 5, sv_listeners = [udp_listener]\<rparr>"

definition lan_config :: config where
  "lan_config = demo_config\<lparr>
     cf_plugins := [\<lparr>pc_tag = Some ''h'', pc_ty = ''hosts'', pc_args = demo_hosts_args, pc_base = []\<rparr>],
     cf_servers := [lan_server]\<rparr>"

definition lan_hosts :: hosts where
  "lan_hosts = \<lparr>ho_tag = ''h'', ho_table = [(''r.lan'', [V4 0x0A000001])], ho_ttl = 60\<rparr>"

definition lan_query :: "string message" where
  "lan_query = message_new\<lparr>m_id := 7, m_rd := True,
     m_queries := [\<lparr>q_name = ''r.lan'', q_type = RtA, q_class = ClassIN\<rparr>]\<rparr>"

lemma lan_hosts_eval: "hosts_from_args demo_lib (\<lambda>_. None) ''h'' demo_hosts_args [] = Inr lan_hosts"
  by (simp add: hosts_from_args_def Let_def demo_hosts_args_def y_strings_def map_filter_simps
      parse_hosts_line_def demo_line_eval demo_host_line host_add_name_def host_push_def demo_from_ascii lan_hosts_def)

lemma lan_build:
  "\<exists>rt. build demo_lib demo_platform lan_config = Inr rt \<and> rg_execs (rt_registry rt) = [(''h'', PlHosts lan_hosts)]
     \<and> rt_caches rt = [] \<and> cf_servers (rt_config rt) = [lan_server] \<and> cf_api_http (rt_config rt) = None"
proof -
  have n: "normalize_entries lan_config = Inr lan_config"
    by (simp add: normalize_entries_def lan_config_def lan_server_def demo_config_def normalize_entry_def trim_def
        trim_end_by_def trim_start_def trim_start_by_def trim_start_matches_def is_ws_def Let_def)
  have v: "validate_plugin_graph lan_config = Inr ()"
    by (simp add: validate_plugin_graph_def graph_edges_def lan_config_def demo_config_def add_plugin_def
        plugin_tag_def bad_tag_def is_ws_def config_calls_def validate_edges_def unknown_call_def
        max_pipeline_depth_def Let_def)
  have "to_ascii_lowercase ''udp'' = ''udp''" by (simp add: to_ascii_lowercase_def ascii_lower_def)
  then have st: "validate_settings demo_platform lan_config = Inr ()"
    by (simp add: validate_settings_def demo_platform_def lan_config_def lan_server_def demo_config_def
        validate_listener_def udp_listener_def udp_listener_addr Let_def)
  have f: "pf_files demo_platform = (\<lambda>_. None)" by (simp add: demo_platform_def)
  have "\<exists>rt. res_bind (res_fold (build_plugin demo_lib demo_platform) build_start (cf_plugins lan_config))
      (build_registry demo_lib lan_config) = Inr rt \<and> rg_execs (rt_registry rt) = [(''h'', PlHosts lan_hosts)]
      \<and> rt_caches rt = [] \<and> cf_servers (rt_config rt) = [lan_server] \<and> cf_api_http (rt_config rt) = None"
    by (simp add: lan_config_def lan_server_def demo_config_def build_plugin_def plugin_tag_def Let_def f
        lan_hosts_eval build_registry_def build_start_def put_exec_def fill_entry_def get_exec_def insert_execs_def
        bind_cache_refresh_def split: option.split)
  with n v st show ?thesis by (simp add: build_def)
qed

definition lan_plant :: "string runtime \<Rightarrow> string plant" where
  "lan_plant rt = \<lparr>pl_lib = demo_lib, pl_platform = demo_platform, pl_path = ''/a'', pl_first = rt,
     pl_plans = [Inr (UdpPlan ''h'' (nanos 5) ''127.0.0.1:53'' 4)], pl_other = (\<lambda>_ w. w),
     pl_exchange = (\<lambda>_ _ _ _ _ _. (0, Inl (OtherErr []))), pl_web = demo_web, pl_pages = demo_pages,
     pl_app = demo_app, pl_base64 = (\<lambda>_. None), pl_base64_padded = (\<lambda>_. None)\<rparr>"

abbreviation lan_live :: "string runtime \<Rightarrow> string live" where
  "lan_live rt \<equiv> (live_new 0 rt)\<lparr>lv_world := (lv_world (live_new 0 rt))\<lparr>w_now := nanos 1\<rparr>\<rparr>"

definition lan_admitted :: "string runtime \<Rightarrow> bool" where
  "lan_admitted rt \<longleftrightarrow> representable (nanos 100) rt \<and> guarded (rt_registry rt)"

lemma lan_start:
  obtains rt where "build demo_lib demo_platform lan_config = Inr rt" "orderly (lan_plant rt) (nanos 100) lan_admitted"
    "live_reach (lan_plant rt) (nanos 100) lan_admitted (lan_live rt)"
    "rg_execs (rt_registry rt) = [(''h'', PlHosts lan_hosts)]"
    "\<And>rt'. lan_admitted rt' \<Longrightarrow> trusted (live_env (lan_plant rt) rt') \<and> guarded (rt_registry rt')"
proof -
  obtain rt where b: "build demo_lib demo_platform lan_config = Inr rt"
    and r: "rg_execs (rt_registry rt) = [(''h'', PlHosts lan_hosts)]" "rt_caches rt = []"
      "cf_servers (rt_config rt) = [lan_server]" "cf_api_http (rt_config rt) = None"
    using lan_build by blast
  have "to_ascii_lowercase ''udp'' = ''udp''" by (simp add: to_ascii_lowercase_def ascii_lower_def)
  then have "serve_plans demo_platform (Some 4) rt = Inr [Inr (UdpPlan ''h'' (nanos 5) ''127.0.0.1:53'' 4)]"
    by (simp add: serve_plans_def validate_service_def r lan_server_def listener_plan_def validate_listener_def
        udp_listener_def udp_listener_addr udp_worker_count_def Let_def)
  then have "started (lan_plant rt)" using b by (auto simp: started_def lan_plant_def)
  moreover have "representable (nanos 100) rt" by (simp add: representable_def r)
  moreover have "guarded (rt_registry rt)" by (simp add: guarded_def disciplined_def r)
  moreover have "calm (live_env (lan_plant rt) rt) T" "tame (live_env (lan_plant rt) rt)" for T
    by (simp_all add: calm_def tame_def lan_plant_def)
  moreover have "pl_first (lan_plant rt) = rt" by (simp add: lan_plant_def)
  ultimately have o: "orderly (lan_plant rt) (nanos 100) lan_admitted" and a: "lan_admitted rt"
    by (simp_all add: orderly_def lan_admitted_def)
  have "live_reach (lan_plant rt) (nanos 100) lan_admitted (live_new 0 (pl_first (lan_plant rt)))"
    by (rule live_reach.start) (simp_all add: lan_plant_def a)
  then have s: "live_reach (lan_plant rt) (nanos 100) lan_admitted (live_new 0 rt)" by (simp add: lan_plant_def)
  have "live_step (lan_plant rt) (nanos 100) (live_new 0 rt) Waited (lan_live rt)"
    by (rule live_step.waited) (simp_all add: live_new_def)
  from live_reach.step [OF s this] have l: "live_reach (lan_plant rt) (nanos 100) lan_admitted (lan_live rt)"
    by (simp add: live_new_def a)
  have t: "trusted (live_env (lan_plant rt) rt') \<and> guarded (rt_registry rt')" if "lan_admitted rt'" for rt'
  proof -
    have "trusted (live_env (lan_plant rt) rt')"
      by (auto simp: trusted_def wire_faithful_def debug_names_def lan_plant_def demo_lib_def inj_def dest: show_word_inj)
    then show ?thesis using that by (simp add: lan_admitted_def)
  qed
  from that [OF b o l r(1) t] show thesis .
qed

lemma hosts_entry_answers:
  assumes "get_exec entry (en_reg env) = Inr (PlHosts h)" "classify_incoming q = Process" "m_queries q = [x]"
    and "hosts_lookup (en_lib env) h (nm_ascii (en_lib env) (q_name x)) (q_type x) = rs" "rs \<noteq> []"
  shows "\<exists>c' w' m. handle env entry (ctx_new i now q cl pr) timeout w = (Inr (Inr ()), c', w')
    \<and> c_response c' = Some m \<and> m_answers m = rs"
proof -
  let ?s = "start_ctx i now q cl pr entry"
  let ?w = "meet_others env w"
  let ?c = "hosts_exec (en_lib env) (w_now ?w) h ?s"
  have start: "c_query ?s = q" "c_original ?s = q" "c_rewrites ?s = []" "\<not> c_strip ?s" "c_response ?s = None"
    by (simp_all add: begin_pipeline_def ctx_new_def)
  have n: "qname_str (en_lib env) ?s = nm_ascii (en_lib env) (q_name x)" "ctx_qtype ?s = q_type x"
    using start(1) assms(3) by (simp_all add: qname_str_def ctx_qname_def ctx_qtype_def)
  have c: "\<exists>m. c_response ?c = Some m \<and> m_answers m = rs" "c_rewrites ?c = []" "\<not> c_strip ?c"
    using assms(4,5) start unfolding hosts_exec_def Let_def n
    by (auto simp: set_response_def build_hosts_response_def push_trace_def)
  have cd: "call_depth = Suc 63" by (simp add: call_depth_def)
  have ex: "exec_tag call_depth env (w_now w + timeout) entry ?s w = (Inr (Inr Continue), ?c, ?w)"
    unfolding cd exec_tag.simps by (simp add: assms(1) exec_plugin_def)
  obtain y c' w' where f: "handle_finish env ?c ?w = (y, c', w')" by (metis prod.exhaust)
  have h: "handle env entry (ctx_new i now q cl pr) timeout w = (y, c', w')"
    using assms(2) ex f by (simp add: handle_def assms(1) start Let_def)
  from finish_plain [OF f c(2,3)] c(1) h show ?thesis by (auto simp: rebind_response_def)
qed

lemma lan_lookup: "hosts_lookup demo_lib lan_hosts ''r.lan'' RtA = [record_a ''r.lan.'' 60 0x0A000001]"
  by (simp add: hosts_lookup_def lan_hosts_def demo_line_eval demo_lib_def host_record_def map_filter_simps Let_def)

lemma service_answers_have_source_witness:
  "\<exists>rt c' w' m. handle (live_env (lan_plant rt) rt) ''h'' (ctx_new 1 0 lan_query None PUdp) (nanos 5)
      (lv_world (lan_live rt)) = (Inr (Inr ()), c', w') \<and> c_response c' = Some m
    \<and> m_answers m = [record_a ''r.lan.'' 60 0x0A000001]
    \<and> sourced (live_env (lan_plant rt) rt) (m_queries lan_query) (record_a ''r.lan.'' 60 0x0A000001)"
proof -
  obtain rt where o: "orderly (lan_plant rt) (nanos 100) lan_admitted"
    and l: "live_reach (lan_plant rt) (nanos 100) lan_admitted (lan_live rt)"
    and r: "rg_execs (rt_registry rt) = [(''h'', PlHosts lan_hosts)]"
    and t: "\<forall>rt'. lan_admitted rt' \<longrightarrow> trusted (live_env (lan_plant rt) rt') \<and> guarded (rt_registry rt')"
    using lan_start by metis
  let ?env = "live_env (lan_plant rt) rt"
  have "get_exec ''h'' (en_reg ?env) = Inr (PlHosts lan_hosts)" by (simp add: get_exec_def r)
  moreover have "classify_incoming lan_query = Process"
    by (simp add: classify_incoming_def lan_query_def message_new_def)
  moreover have "m_queries lan_query = [\<lparr>q_name = ''r.lan'', q_type = RtA, q_class = ClassIN\<rparr>]"
    by (simp add: lan_query_def)
  moreover have "hosts_lookup (en_lib ?env) lan_hosts (nm_ascii (en_lib ?env) ''r.lan'') RtA
      = [record_a ''r.lan.'' 60 0x0A000001]"
    using lan_lookup by (simp add: lan_plant_def demo_lib_def)
  ultimately obtain c' w' m where h: "handle ?env ''h'' (ctx_new 1 0 lan_query None PUdp) (nanos 5) (lv_world (lan_live rt))
      = (Inr (Inr ()), c', w')" "c_response c' = Some m" "m_answers m = [record_a ''r.lan.'' 60 0x0A000001]"
    using hosts_entry_answers [of "''h''" ?env lan_hosts lan_query _ _ 1 0 None PUdp "nanos 5" "lv_world (lan_live rt)"]
    by fastforce
  have h': "handle (live_env (lan_plant rt) (lv_runtime (lan_live rt))) ''h'' (ctx_new 1 0 lan_query None PUdp) (nanos 5)
      (lv_world (lan_live rt)) = (Inr (Inr ()), c', w')"
    using h(1) by (simp add: live_new_def)
  have "record_a ''r.lan.'' 60 0x0A000001 \<in> set (records m)" by (simp add: h(3) records_def)
  from service_answers_have_source [OF o t l h' h(2) this] h show ?thesis by (auto simp: live_new_def)
qed

lemma service_keeps_working_witness:
  "\<exists>rt c' w'. build demo_lib demo_platform lan_config = Inr rt
    \<and> handle (live_env (lan_plant rt) rt) ''h'' demo_ctx (nanos 5) (lv_world (lan_live rt)) = (Inr (Inr ()), c', w')"
proof -
  obtain rt where b: "build demo_lib demo_platform lan_config = Inr rt"
    and o: "orderly (lan_plant rt) (nanos 100) lan_admitted"
    and l: "live_reach (lan_plant rt) (nanos 100) lan_admitted (lan_live rt)"
    using lan_start by metis
  have "Inr (UdpPlan ''h'' (nanos 5) ''127.0.0.1:53'' 4) \<in> set (pl_plans (lan_plant rt))" by (simp add: lan_plant_def)
  moreover have "plan_entry (UdpPlan ''h'' (nanos 5) ''127.0.0.1:53'' 4) = Some (''h'', nanos 5)" by simp
  moreover have "w_now (lv_world (lan_live rt)) + nanos 5 \<le> nanos 100" by simp
  moreover have "lv_runtime (lan_live rt) = rt" by (simp add: live_new_def)
  ultimately have "\<exists>c' w'. handle (live_env (lan_plant rt) rt) ''h'' demo_ctx (nanos 5) (lv_world (lan_live rt))
      = (Inr (Inr ()), c', w')"
    using conjunct1 [OF service_keeps_working [OF o l]] by metis
  with b show ?thesis by blast
qed

lemma service_state_ok_witness:
  "\<exists>rt. build demo_lib demo_platform lan_config = Inr rt
    \<and> map_of (w_caches (lv_world (lan_live rt))) ''h'' = None
    \<and> safe_world (live_env (lan_plant rt) rt) (nanos 100) (lv_world (lan_live rt))"
proof -
  obtain rt where b: "build demo_lib demo_platform lan_config = Inr rt"
    and o: "orderly (lan_plant rt) (nanos 100) lan_admitted"
    and l: "live_reach (lan_plant rt) (nanos 100) lan_admitted (lan_live rt)"
    and r: "rg_execs (rt_registry rt) = [(''h'', PlHosts lan_hosts)]"
    using lan_start by metis
  have "get_exec ''h'' (rt_registry (lv_runtime (lan_live rt))) \<noteq> Inr PlCache"
    by (simp add: live_new_def get_exec_def r)
  with service_state_ok [OF o l] have "map_of (w_caches (lv_world (lan_live rt))) ''h'' = None"
    "safe_world (live_env (lan_plant rt) (lv_runtime (lan_live rt))) (nanos 100) (lv_world (lan_live rt))" by blast+
  with b show ?thesis by (auto simp: live_new_def)
qed

end
