(* ===== verification/Session.thy ===== *)
theory Session
  imports Server
begin

text \<open>
  A TCP or TLS session of \<^verbatim>\<open>src/server.rs\<close> as time goes by (\<open>serve_framed\<close>, \<open>write_tcp_response\<close>):
  the idle timeout of every read and write, a peer that is slow, closes or fails anywhere, and the
  runtime that is live when a request has been read.

  The input of a session is the bytes of the peer with the instants at which they arrive, and how
  it ends. What becomes of a write is up to the peer too. While the session waits, other tasks
  change the world and a reload may replace the runtime (\<open>sn_live\<close>).
\<close>

section \<open>Reads under a time limit\<close>

datatype read_result =
    ReadFull "u8 list" "(instant \<times> u8) list"
  | ReadEof
  | ReadFailed error

type_synonym input_end = "(instant \<times> error option) option"
  \<comment> \<open>when the peer closes, or the connection fails; \<open>None\<close> when it stays silent\<close>

fun read_exact ::
    "nat \<Rightarrow> instant \<Rightarrow> input_end \<Rightarrow> (instant \<times> u8) list \<Rightarrow> (instant \<times> read_result) option" where
  \<comment> \<open>when \<open>read_exact\<close> is ready and with what; an error of kind \<open>UnexpectedEof\<close> is \<open>ReadEof\<close>\<close>
  "read_exact 0 now en inp = Some (now, ReadFull [] inp)"
| "read_exact (Suc n) now en [] =
     (case en of
        None \<Rightarrow> None
      | Some (t, None) \<Rightarrow> Some (max now t, ReadEof)
      | Some (t, Some e) \<Rightarrow> Some (max now t, ReadFailed e))"
| "read_exact (Suc n) now en ((t, b) # inp) =
     (case read_exact n (max now t) en inp of
        Some (u, ReadFull bs rest) \<Rightarrow> Some (u, ReadFull (b # bs) rest)
      | x \<Rightarrow> x)"

definition in_limit :: "nat \<Rightarrow> instant \<Rightarrow> (instant \<times> 'a) option \<Rightarrow> instant \<times> 'a option" where
  \<comment> \<open>\<open>tokio::time::timeout\<close>\<close>
  "in_limit limit now x =
     (case x of
        None \<Rightarrow> (now + limit, None)
      | Some (t, r) \<Rightarrow> (if t \<le> now + limit then (t, Some r) else (now + limit, None)))"

definition read_request ::
    "nat \<Rightarrow> instant \<Rightarrow> input_end \<Rightarrow> (instant \<times> u8) list
      \<Rightarrow> instant \<times> (unit res + u8 list \<times> (instant \<times> u8) list)" where
  \<comment> \<open>header and body of one request, or how the session ends instead\<close>
  "read_request idle now en inp =
     (case in_limit idle now (read_exact 2 now en inp) of
        (t, None) \<Rightarrow> (t, Inl (Inr ()))
      | (t, Some ReadEof) \<Rightarrow> (t, Inl (Inr ()))
      | (t, Some (ReadFailed e)) \<Rightarrow> (t, Inl (Inl e))
      | (t, Some (ReadFull hdr rest)) \<Rightarrow>
          (let len = unat (of_be16 (hdr ! 0) (hdr ! 1)) in
           if len = 0 then (t, Inl (Inl (ProtocolErr ''bad length'')))
           else (case in_limit idle t (read_exact len t en rest) of
               (u, None) \<Rightarrow> (u, Inl (Inl (ProtocolErr ''idle timeout'')))
             | (u, Some ReadEof) \<Rightarrow> (u, Inl (Inl (IoErr ''unexpected end of file'')))
             | (u, Some (ReadFailed e)) \<Rightarrow> (u, Inl (Inl e))
             | (u, Some (ReadFull body rest')) \<Rightarrow> (u, Inr (body, rest')))))"

lemma read_exact_length:
  "read_exact n now en inp = Some (t, ReadFull bs rest) \<Longrightarrow>
     length bs = n \<and> length inp = n + length rest"
  by (induction n now en inp arbitrary: t bs rest rule: read_exact.induct)
    (auto split: option.splits prod.splits read_result.splits)

lemma in_limit_Some:
  "in_limit limit now x = (t, Some r) \<longleftrightarrow> x = Some (t, r) \<and> t \<le> now + limit"
  by (auto simp: in_limit_def split: option.splits prod.splits if_splits)

lemma read_request_length:
  "read_request idle now en inp = (t, Inr (body, rest)) \<Longrightarrow> length rest < length inp"
  by (auto simp: read_request_def in_limit_Some Let_def dest!: read_exact_length
      split: prod.splits option.splits read_result.splits if_splits)

section \<open>The session\<close>

record 'n session_net =
  sn_end :: input_end
  sn_write :: "instant \<Rightarrow> u8 list \<Rightarrow> instant option \<times> nat \<times> unit res"
    \<comment> \<open>when a write would be done, how much of a write that fails is sent, and how it ends\<close>
  sn_live :: "instant \<Rightarrow> 'n world \<Rightarrow> 'n env \<times> 'n world"

definition write_reply ::
    "nat \<Rightarrow> instant \<Rightarrow> (instant \<Rightarrow> u8 list \<Rightarrow> instant option \<times> nat \<times> unit res) \<Rightarrow> u8 list
      \<Rightarrow> instant \<times> u8 list \<times> unit res" where
  \<comment> \<open>length, body and flush, under one time limit: what is sent of them\<close>
  "write_reply idle now wr out =
     (if out = [] then (now, [], Inr ())
      else (case wr now out of (x, k, r) \<Rightarrow>
          (case in_limit idle now (map_option (\<lambda>t. (max now t, r)) x) of
             (t, None) \<Rightarrow> (t, take k out, Inl (ProtocolErr ''idle timeout''))
           | (t, Some (Inl e)) \<Rightarrow> (t, take k out, Inl e)
           | (t, Some (Inr _)) \<Rightarrow> (t, out, Inr ()))))"

function serve_session ::
    "'n session_net \<Rightarrow> string \<Rightarrow> nat \<Rightarrow> nat \<Rightarrow> client_proto \<Rightarrow> ip option \<Rightarrow> (instant \<times> u8) list
      \<Rightarrow> 'n world \<Rightarrow> u8 list \<times> unit res \<times> 'n world" where
  "serve_session net entry timeout idle proto peer inp w =
     (case read_request idle (w_now w) (sn_end net) inp of
        (t, Inl r) \<Rightarrow> ([], r, w\<lparr>w_now := t\<rparr>)
      | (t, Inr (body, rest)) \<Rightarrow>
          (case sn_live net t w of (env, w0) \<Rightarrow>
             (let w1 = w0\<lparr>w_now := t\<rparr> in
              case dns_decode (en_lib env) body of
                Inl e \<Rightarrow> ([], Inl e, w1)
              | Inr q \<Rightarrow>
                  (case framed_step env entry timeout proto peer q w1 of
                     (Inl e, w2) \<Rightarrow> ([], Inl e, w2)
                   | (Inr out, w2) \<Rightarrow>
                       (case write_reply idle (w_now w2) (sn_write net) out of
                          (u, sent, Inl e) \<Rightarrow> (sent, Inl e, w2\<lparr>w_now := u\<rparr>)
                        | (u, sent, Inr _) \<Rightarrow>
                            (case serve_session net entry timeout idle proto peer rest (w2\<lparr>w_now := u\<rparr>) of
                               (out', r, w3) \<Rightarrow> (sent @ out', r, w3)))))))"
  by pat_completeness auto
termination
  by (relation "measure (\<lambda>(net, entry, timeout, idle, proto, peer, inp, w). length inp)")
    (auto dest: read_request_length [OF sym])

declare serve_session.simps [simp del]

end
