(* ===== verification/Session_Laws.thy ===== *)
theory Session_Laws
  imports Session Wire_Laws
begin

text \<open>
  What a session over time guarantees: it answers as the untimed session does when the peer is
  never slow, what it sends are the replies in the order of the queries however the peer behaves
  and whatever runtimes are live meanwhile, and it is over within a bounded time.
\<close>

section \<open>Reading\<close>

lemma read_exact_bytes:
  "read_exact n now en inp = Some (t, ReadFull bs rest) \<Longrightarrow>
     length bs = n \<and> map snd inp = bs @ map snd rest"
  by (induction n now en inp arbitrary: t bs rest rule: read_exact.induct)
    (auto split: option.splits prod.splits read_result.splits)

lemma two_bytes: "length h = 2 \<Longrightarrow> h = [h ! 0, h ! 1]"
  by (cases h; cases "tl h") auto

lemma read_request_frame:
  assumes "read_request idle now en inp = (t, Inr (body, rest))"
  shows "read_frame (map snd inp) = Frame body (map snd rest)"
proof -
  from assms obtain u h r0 where h: "read_exact 2 now en inp = Some (u, ReadFull h r0)"
    and len: "unat (of_be16 (h ! 0) (h ! 1)) \<noteq> 0"
    and b: "read_exact (unat (of_be16 (h ! 0) (h ! 1))) u en r0 = Some (t, ReadFull body rest)"
    by (auto simp: read_request_def in_limit_Some Let_def
        split: prod.splits option.splits read_result.splits if_splits)
  from read_exact_bytes [OF h] two_bytes have "map snd inp = h ! 0 # h ! 1 # map snd r0"
    by (metis append_Cons append_Nil)
  with read_exact_bytes [OF b] len show ?thesis by (simp add: Let_def)
qed

section \<open>A peer that is never slow\<close>

definition prompt_net :: "'n env \<Rightarrow> 'n session_net" where
  \<comment> \<open>a peer that has sent everything and closed, and reads everything at once, and no other tasks\<close>
  "prompt_net env = \<lparr>sn_end = Some (0, None), sn_write = (\<lambda>t out. (Some t, length out, Inr ())),
     sn_live = (\<lambda>t w. (env, w))\<rparr>"

lemma read_exact_prompt:
  "read_exact n now (Some (0, None)) (map (Pair 0) bs) =
     Some (now, if n \<le> length bs then ReadFull (take n bs) (map (Pair 0) (drop n bs)) else ReadEof)"
proof (induction n arbitrary: bs)
  case 0
  show ?case by simp
next
  case (Suc n)
  then show ?case by (cases bs) auto
qed

lemma read_request_prompt:
  "read_request idle now (Some (0, None)) (map (Pair 0) bs) = (now, case read_frame bs of
      FrameEof \<Rightarrow> Inl (Inr ()) | FrameErr e \<Rightarrow> Inl (Inl e)
    | Frame body rest \<Rightarrow> Inr (body, map (Pair 0) rest))"
proof (cases bs rule: read_frame.cases)
  case (1 hi lo rest)
  then show ?thesis
    by (simp add: read_request_def read_exact_prompt in_limit_def numeral_2_eq_2 Let_def)
qed (simp_all add: read_request_def in_limit_def numeral_2_eq_2)

text \<open>
  With a peer that is never slow a session over time is the session on its bytes: the same output,
  the same end and the same world.
\<close>
theorem session_prompt:
  "serve_session (prompt_net env) entry timeout idle proto peer (map (Pair 0) bs) w
     = serve_framed env entry timeout proto peer bs w"
proof (induction env entry timeout proto peer bs w rule: serve_framed.induct)
  case (1 env entry timeout proto peer bs w)
  have net: "sn_end (prompt_net env) = Some (0, None)" "sn_live (prompt_net env) t v = (env, v)"
      "sn_write (prompt_net env) t out = (Some t, length out, Inr ())" for t v out
    by (simp_all add: prompt_net_def)
  have wr: "write_reply idle t (sn_write (prompt_net env)) out = (t, out, Inr ())" for t out
    by (simp add: write_reply_def net in_limit_def)
  show ?case
  proof (cases "read_frame bs")
    case (Frame body rest)
    show ?thesis
    proof (cases "dns_decode (en_lib env) body")
      case (Inl e)
      with Frame show ?thesis
        by (simp add: serve_session.simps serve_framed.simps read_request_prompt net)
    next
      case q: (Inr q)
      obtain y w' where step: "framed_step env entry timeout proto peer q w = (y, w')"
        by (metis prod.exhaust)
      show ?thesis
      proof (cases y)
        case (Inl e)
        with Frame q step show ?thesis
          by (simp add: serve_session.simps serve_framed.simps read_request_prompt net)
      next
        case (Inr out)
        from 1 [OF Frame q step [symmetric] Inr] Frame q step Inr show ?thesis
          by (subst serve_session.simps, subst serve_framed.simps)
            (simp add: read_request_prompt net wr)
      qed
    qed
  qed (simp_all add: serve_session.simps serve_framed.simps read_request_prompt net)
qed

section \<open>What is sent\<close>

lemma read_frame_cut:
  assumes "prefix out (framed b)" "out \<noteq> framed b" "length b \<le> 65535"
  shows "read_frames out = []"
proof -
  let ?n = "of_nat (length b) :: u16"
  have n: "unat ?n = length b" using assms(3) by (simp add: unat_of_nat)
  have fr: "framed b = be16 ?n ! 0 # be16 ?n ! 1 # b" unfolding framed_def by (subst be16_two) simp
  have "\<forall>c rest. read_frame out \<noteq> Frame c rest"
  proof (cases out rule: read_frame.cases)
    case (1 hi lo rest)
    with assms(1,2) fr have "hi = be16 ?n ! 0" "lo = be16 ?n ! 1" "length rest < length b"
      by (auto simp: prefix_def)
    with 1 n of_be16_be16 [of ?n] show ?thesis by (simp add: Let_def)
  qed simp_all
  then show ?thesis by (subst read_frames.simps) (simp split: frame.split)
qed

lemma read_frames_prefix:
  "list_all (\<lambda>b. b \<noteq> [] \<and> length b \<le> 65535) rs \<Longrightarrow> prefix out (concat (map framed rs)) \<Longrightarrow>
     prefix (read_frames out) rs"
proof (induction rs arbitrary: out)
  case Nil
  then show ?case by (simp add: read_frames_Nil)
next
  case (Cons r rs)
  show ?case
  proof (cases "prefix (framed r) out")
    case True
    then obtain out' where out: "out = framed r @ out'" by (auto simp: prefix_def)
    with Cons have "prefix (read_frames out') rs" by simp
    moreover have "read_frame out = Frame r out'"
      using Cons.prems(1) out by (simp add: read_frame_framed)
    ultimately show ?thesis by (subst read_frames.simps) simp
  next
    case False
    have "prefix out (framed r @ concat (map framed rs))" using Cons.prems(2) by simp
    then have "prefix out (framed r)"
      using False by (metis prefix_append prefix_order.eq_iff prefixI)
    moreover have "out \<noteq> framed r" using False by auto
    ultimately show ?thesis using Cons.prems(1) by (simp add: read_frame_cut)
  qed
qed

definition session_sent :: "'n lib \<Rightarrow> u8 list \<Rightarrow> u8 list \<Rightarrow> bool \<Rightarrow> bool" where
  \<comment> \<open>what was sent is a beginning of frames that answer requests of the input in their order, all
      of them when the session ends regularly\<close>
  "session_sent L bs out regular \<longleftrightarrow> (\<exists>rs asked. prefix out (concat (map framed rs))
     \<and> (regular \<longrightarrow> out = concat (map framed rs)) \<and> subseq asked (read_frames bs)
     \<and> list_all2 (frame_answers L) rs asked \<and> list_all (\<lambda>b. length b \<le> 65535) rs)"

lemma session_sent_Nil: "session_sent L bs [] regular"
  unfolding session_sent_def by (intro exI [of _ "[]"]) simp

lemma session_sent_drop:
  "session_sent L bs' out g \<Longrightarrow> read_frames bs = body # read_frames bs' \<Longrightarrow> session_sent L bs out g"
  unfolding session_sent_def by (metis list_emb_Cons)

lemma session_sent_reply:
  assumes "session_sent L bs' out g" "read_frames bs = body # read_frames bs'"
    and "frame_answers L b body" "length b \<le> 65535"
  shows "session_sent L bs (framed b @ out) g"
proof -
  obtain rs asked where rs: "prefix out (concat (map framed rs))" "g \<longrightarrow> out = concat (map framed rs)"
      "subseq asked (read_frames bs')" "list_all2 (frame_answers L) rs asked"
      "list_all (\<lambda>b. length b \<le> 65535) rs"
    using assms(1) unfolding session_sent_def by blast
  with assms show ?thesis
    unfolding session_sent_def by (intro exI [of _ "b # rs"] exI [of _ "body # asked"]) simp
qed

lemma session_sent_cut:
  assumes "prefix out (framed b)" "read_frames bs = body # read_frames bs'"
    and "frame_answers L b body" "length b \<le> 65535"
  shows "session_sent L bs out False"
proof -
  have "session_sent L bs (framed b @ []) True"
    by (rule session_sent_reply [OF session_sent_Nil assms(2-4)])
  with assms(1) show ?thesis unfolding session_sent_def by (auto intro: prefix_order.trans)
qed

lemma write_reply_cases:
  assumes "write_reply idle now wr out = (u, sent, r)"
  shows "prefix sent out \<and> (r = Inr () \<longrightarrow> sent = out) \<and> (out = [] \<longrightarrow> r = Inr ())"
  using assms
  by (auto simp: write_reply_def take_is_prefix split: if_splits prod.splits option.splits sum.splits)


lemma serve_session_answered:
  assumes "read_request idle (w_now w) (sn_end net) inp = (t, Inr (body, rest))"
    and "sn_live net t w = (env, w0)" "dns_decode (en_lib env) body = Inr q"
    and "framed_step env entry timeout proto peer q (w0\<lparr>w_now := t\<rparr>) = (Inr fr, w2)"
    and "write_reply idle (w_now w2) (sn_write net) fr = (u, sent, v)"
  shows "serve_session net entry timeout idle proto peer inp w = (case v of
      Inl e \<Rightarrow> (sent, Inl e, w2\<lparr>w_now := u\<rparr>)
    | Inr _ \<Rightarrow> (case serve_session net entry timeout idle proto peer rest (w2\<lparr>w_now := u\<rparr>) of
        (out, r, w3) \<Rightarrow> (sent @ out, r, w3)))"
  by (subst serve_session.simps) (simp add: assms split: sum.split)

lemma serve_session_sent:
  assumes "\<And>t w. en_lib (fst (sn_live net t w)) = L"
    and "serve_session net entry timeout idle proto peer inp w = (out, r, w')"
  shows "session_sent L (map snd inp) out (r = Inr ())"
  using assms
proof (induction net entry timeout idle proto peer inp w arbitrary: out r w' rule: serve_session.induct)
  case (1 net entry timeout idle proto peer inp w)
  note ih = 1(1) and lib = 1(2) and run = 1(3)
  obtain t x where req: "read_request idle (w_now w) (sn_end net) inp = (t, x)" by fastforce
  show ?case
  proof (cases x)
    case (Inl y)
    with req run show ?thesis by (auto simp: serve_session.simps session_sent_Nil)
  next
    case (Inr z)
    obtain body rest where z: "z = (body, rest)" by (cases z)
    obtain env w0 where live: "sn_live net t w = (env, w0)" by (cases "sn_live net t w")
    have L: "en_lib env = L" using lib [of t w] live by simp
    have frames: "read_frames (map snd inp) = body # read_frames (map snd rest)"
      using read_request_frame [OF req [unfolded Inr z]] by (subst read_frames.simps) simp
    show ?thesis
    proof (cases "dns_decode L body")
      case (Inl e)
      with req Inr z live L run show ?thesis by (auto simp: serve_session.simps session_sent_Nil)
    next
      case q: (Inr q)
      obtain y w2 where step: "framed_step env entry timeout proto peer q (w0\<lparr>w_now := t\<rparr>) = (y, w2)"
        by (metis prod.exhaust)
      show ?thesis
      proof (cases y)
        case (Inl e)
        with req \<open>x = Inr z\<close> z live L q step run show ?thesis
          by (auto simp: serve_session.simps session_sent_Nil)
      next
        case fr: (Inr fr)
        obtain u sent v where wr: "write_reply idle (w_now w2) (sn_write net) fr = (u, sent, v)"
          by (metis prod.exhaust)
        note wc = write_reply_cases [OF wr]
        obtain out' r' w3 where rec:
          "serve_session net entry timeout idle proto peer rest (w2\<lparr>w_now := u\<rparr>) = (out', r', w3)"
          by (metis prod.exhaust)
        have unfold: "(out, r) = (case v of Inl e \<Rightarrow> (sent, Inl e) | Inr _ \<Rightarrow> (sent @ out', r'))"
          using run L q rec serve_session_answered [OF req [unfolded Inr z] live _ step [unfolded fr] wr]
          by (auto split: sum.splits)
        have tail: "session_sent L (map snd rest) out' (r' = Inr ())" if "v = Inr ()"
        proof -
          have "dns_decode (en_lib env) body = Inr q" using q L by simp
          from ih [OF req [symmetric] Inr z [symmetric] live [symmetric] refl this step [symmetric] fr
              wr [symmetric] refl that lib rec] show ?thesis .
        qed
        show ?thesis
        proof (cases "fr = []")
          case True
          with wc unfold have "v = Inr ()" "out = out'" "r = r'" by auto
          with session_sent_drop [OF tail frames] show ?thesis by simp
        next
          case False
          obtain b where b: "fr = framed b" "length b \<le> 65535" "frame_answers L b body"
            using framed_step_answers [OF step [unfolded fr] False] q L by blast
          show ?thesis
          proof (cases v)
            case (Inl e)
            with unfold wc session_sent_cut [OF _ frames b(3,2)] b(1) show ?thesis by simp
          next
            case (Inr a)
            with unfold wc b(1) session_sent_reply [OF tail frames b(3,2)] show ?thesis by simp
          qed
        qed
      qed
    qed
  qed
qed

text \<open>
  C10. However slow the peer of a TCP or TLS session is, wherever it stops reading or closes, and
  whatever runtimes are live meanwhile: every complete frame it receives is the reply to one of its
  queries, with that query's identifier and question, in the order of the queries; and a session
  that ends without an error has sent nothing else.
\<close>
theorem session_sends_replies:
  assumes "\<And>t w. en_lib (fst (sn_live net t w)) = L"
    and "\<And>m b. wire_encode L m = Some b \<Longrightarrow> b \<noteq> []"
    and "serve_session net entry timeout idle proto peer inp w = (out, r, w')"
  shows "\<exists>asked. subseq asked (read_frames (map snd inp))
    \<and> list_all2 (frame_answers L) (read_frames out) asked
    \<and> (r = Inr () \<longrightarrow> out = concat (map framed (read_frames out)))"
proof -
  obtain rs asked where rs: "prefix out (concat (map framed rs))" "r = Inr () \<longrightarrow> out = concat (map framed rs)"
      "subseq asked (read_frames (map snd inp))" "list_all2 (frame_answers L) rs asked"
      "list_all (\<lambda>b. length b \<le> 65535) rs"
    using serve_session_sent [OF assms(1,3)] unfolding session_sent_def by blast
  have "b \<noteq> []" if "b \<in> set rs" for b
    using rs(4) that assms(2)
    by (auto simp: list_all2_conv_all_nth in_set_conv_nth frame_answers_def dns_encode_def)
  with rs(5) have ok: "list_all (\<lambda>b. b \<noteq> [] \<and> length b \<le> 65535) rs" by (auto simp: list_all_iff)
  obtain rs' where rs': "rs = read_frames out @ rs'"
    using read_frames_prefix [OF ok rs(1)] by (auto simp: prefix_def)
  with rs(4) obtain as1 as2 where "asked = as1 @ as2" "list_all2 (frame_answers L) (read_frames out) as1"
    by (auto simp: list_all2_append1)
  moreover have "subseq as1 (read_frames (map snd inp))"
    using rs(3) calculation(1) by (auto dest: list_emb_appendD intro: subseq_order.trans)
  moreover have "read_frames out = rs" if "r = Inr ()"
    using rs(2) that read_frames_concat [OF ok] by simp
  ultimately show ?thesis using rs(2) by metis
qed

section \<open>How long a session lasts\<close>

definition steady :: "'n lib \<Rightarrow> instant \<Rightarrow> 'n session_net \<Rightarrow> bool" where
  \<comment> \<open>whatever is live was built, and other tasks keep the caches and take no time\<close>
  "steady L T net \<longleftrightarrow> (\<forall>t w. \<exists>env w' pf cfg rt. sn_live net t w = (env, w') \<and> en_lib env = L
     \<and> build L pf cfg = Inr rt \<and> en_reg env = rt_registry rt \<and> (\<forall>T' \<le> T. calm env T')
     \<and> (t \<le> T \<longrightarrow> safe_world env T w \<longrightarrow> safe_world env T (w'\<lparr>w_now := t\<rparr>)))"

lemma safe_world_sooner: "safe_world env T w \<Longrightarrow> w_now w \<le> T' \<Longrightarrow> T' \<le> T \<Longrightarrow> safe_world env T' w"
proof -
  assume a: "safe_world env T w" "w_now w \<le> T'" "T' \<le> T"
  have sooner: "(T' + x) div 1000000000 < N" if "(T + x) div 1000000000 < N" for x N :: nat
    by (rule le_less_trans [OF div_le_mono that]) (use a(3) in simp)
  show ?thesis
    unfolding safe_world_def
  proof (intro conjI ballI)
    show "w_now w \<le> T'" by (rule a(2))
    show "(T' + nanos (2 ^ 32)) div 1000000000 < 2 ^ 63"
      by (rule sooner [OF a(1) [unfolded safe_world_def, THEN conjunct2, THEN conjunct1]])
    fix x
    assume m: "x \<in> set (w_caches w)"
    obtain t ca where x: "x = (t, ca)" by (cases x)
    then have "cache_ok (en_lib env) ca \<and> (T + ca_lazy_ttl ca) div 1000000000 < 2 ^ 63"
      using a(1) [unfolded safe_world_def, THEN conjunct2, THEN conjunct2, THEN bspec, OF m]
      by (simp only: prod.case)
    with sooner [of "ca_lazy_ttl ca" "2 ^ 63"]
    show "case x of (t, ca) \<Rightarrow> cache_ok (en_lib env) ca \<and> (T' + ca_lazy_ttl ca) div 1000000000 < 2 ^ 63"
      by (simp only: x prod.case simp_thms)
  qed
qed

lemma safe_world_lib: "en_lib env = en_lib env' \<Longrightarrow> safe_world env T w = safe_world env' T w"
  by (simp add: safe_world_def)

lemma read_exact_now: "read_exact n now en inp = Some (t, x) \<Longrightarrow> now \<le> t"
proof (induction n now en inp arbitrary: t x rule: read_exact.induct)
  case (3 n now en u b inp)
  from 3(2) obtain y where "read_exact n (max now u) en inp = Some (t, y)"
    by (auto split: option.splits prod.splits read_result.splits)
  from 3(1) [OF this] show ?case by simp
qed (auto split: option.splits prod.splits)

lemma in_limit_now:
  "in_limit limit now x = (t, y) \<Longrightarrow> (\<And>u z. x = Some (u, z) \<Longrightarrow> now \<le> u) \<Longrightarrow> now \<le> t \<and> t \<le> now + limit"
  by (auto simp: in_limit_def split: option.splits prod.splits if_splits)

lemmas in_limit_read = in_limit_now [OF _ read_exact_now]

lemma read_request_now:
  assumes "read_request idle now en inp = (t, x)"
  shows "now \<le> t \<and> t \<le> now + 2 * idle"
proof -
  obtain u y where h: "in_limit idle now (read_exact 2 now en inp) = (u, y)" by fastforce
  have hu: "now \<le> u \<and> u \<le> now + idle" using h by (rule in_limit_read)
  show ?thesis
  proof (cases "\<exists>hdr rest. y = Some (ReadFull hdr rest) \<and> unat (of_be16 (hdr ! 0) (hdr ! 1)) \<noteq> 0")
    case True
    then obtain hdr rest where y: "y = Some (ReadFull hdr rest)" "unat (of_be16 (hdr ! 0) (hdr ! 1)) \<noteq> 0"
      by blast
    obtain v z where b: "in_limit idle u (read_exact (unat (of_be16 (hdr ! 0) (hdr ! 1))) u en rest) = (v, z)"
      by fastforce
    have "t = v"
      using assms h y b by (auto simp: read_request_def Let_def split: option.splits read_result.splits)
    moreover have "u \<le> v \<and> v \<le> u + idle" using b by (rule in_limit_read)
    ultimately show ?thesis using hu by simp
  next
    case False
    then have "t = u"
      using assms h by (auto simp: read_request_def Let_def split: option.splits read_result.splits)
    with hu show ?thesis by auto
  qed
qed

lemma write_reply_now:
  assumes "write_reply idle now wr out = (t, x)"
  shows "now \<le> t \<and> t \<le> now + idle"
proof (cases "out = []")
  case True
  with assms show ?thesis by (simp add: write_reply_def)
next
  case False
  obtain y k r where w: "wr now out = (y, k, r)" by (metis prod.exhaust)
  obtain u z where l: "in_limit idle now (map_option (\<lambda>t. (max now t, r)) y) = (u, z)" by fastforce
  with assms False w have "t = u" by (auto simp: write_reply_def split: option.splits sum.splits)
  moreover have "now \<le> u \<and> u \<le> now + idle" by (rule in_limit_now [OF l]) auto
  ultimately show ?thesis by simp
qed

lemma framed_step_time:
  assumes "build L pf cfg = Inr rt" "en_lib env = L" "en_reg env = rt_registry rt" "\<forall>T' \<le> T. calm env T'"
    and "safe_world env T w" "w_now w + timeout \<le> T"
    and "framed_step env entry timeout proto peer q w = (y, w')"
  shows "w_now w' \<le> w_now w + timeout \<and> safe_world env T w'"
proof -
  let ?w = "w\<lparr>w_next_id := snd (next_id (w_next_id w))\<rparr>"
  let ?c = "ctx_new (w_next_id w) (w_now w) q peer proto"
  have w: "safe_world env T ?w" using assms(5) by simp
  obtain r c' w1 where h: "handle env entry ?c timeout ?w = (Inr r, c', w1)" "safe_world env T w1"
    using handle_ends [OF assms(1,3) _ w, of timeout entry ?c] assms(4,6) by auto
  have "safe_world env (w_now w + timeout) ?w"
    by (rule safe_world_sooner [OF w]) (use assms(6) in simp_all)
  then obtain r' c'' w1' where "handle env entry ?c timeout ?w = (Inr r', c'', w1')"
      "safe_world env (w_now w + timeout) w1'"
    using handle_ends [OF assms(1,3), of "w_now w + timeout" ?w timeout entry ?c] assms(4,6) by auto
  with h have "w_now w1 \<le> w_now w + timeout" by (simp add: safe_world_def)
  with h assms(5,7) show ?thesis
    by (auto simp: framed_step_def Let_def split: incoming.splits sum.splits)
qed

lemma serve_session_time:
  assumes "steady L T net" "safe_world env0 T w" "en_lib env0 = L"
    and "w_now w + Suc (length (read_frames (map snd inp))) * (3 * idle + timeout) \<le> T"
    and "serve_session net entry timeout idle proto peer inp w = (out, r, w')"
  shows "w_now w' \<le> w_now w + Suc (length (read_frames (map snd inp))) * (3 * idle + timeout)"
  using assms
proof (induction net entry timeout idle proto peer inp w arbitrary: out r w' rule: serve_session.induct)
  case (1 net entry timeout idle proto peer inp w)
  note ih = 1(1) and st = 1(2) and safe = 1(3,4) and room = 1(5) and run = 1(6)
  obtain t x where req: "read_request idle (w_now w) (sn_end net) inp = (t, x)" by fastforce
  note t = read_request_now [OF req]
  show ?case
  proof (cases x)
    case (Inl y)
    with req run have "w_now w' = t" by (auto simp: serve_session.simps)
    with t show ?thesis by simp
  next
    case (Inr z)
    obtain body rest where z: "z = (body, rest)" by (cases z)
    let ?n = "length (read_frames (map snd rest))"
    have frames: "length (read_frames (map snd inp)) = Suc ?n"
      using read_request_frame [OF req [unfolded Inr z]] by (subst read_frames.simps) simp
    obtain env w0 pf cfg rt where live: "sn_live net t w = (env, w0)" "en_lib env = L"
      "build L pf cfg = Inr rt" "en_reg env = rt_registry rt" "\<forall>T' \<le> T. calm env T'"
      and keep: "t \<le> T \<Longrightarrow> safe_world env T w \<Longrightarrow> safe_world env T (w0\<lparr>w_now := t\<rparr>)"
      using st unfolding steady_def by metis
    have tT: "t + timeout + idle \<le> T" using t room frames by simp
    have safe1: "safe_world env T (w0\<lparr>w_now := t\<rparr>)"
      using keep safe live(2) tT safe_world_lib [of env0 env] by simp
    show ?thesis
    proof (cases "dns_decode L body")
      case (Inl e)
      with req Inr z live run have "w_now w' = t" by (auto simp: serve_session.simps)
      with t show ?thesis by simp
    next
      case q: (Inr q)
      obtain y w2 where step: "framed_step env entry timeout proto peer q (w0\<lparr>w_now := t\<rparr>) = (y, w2)"
        by (metis prod.exhaust)
      have w2: "w_now w2 \<le> t + timeout" "safe_world env T w2"
        using framed_step_time [OF live(3,2,4,5) safe1 _ step] tT by simp_all
      show ?thesis
      proof (cases y)
        case (Inl e)
        with req \<open>x = Inr z\<close> z live q step run have "w_now w' = w_now w2"
          by (auto simp: serve_session.simps)
        with t w2 show ?thesis by simp
      next
        case fr: (Inr fr)
        obtain u sent v where wr: "write_reply idle (w_now w2) (sn_write net) fr = (u, sent, v)"
          by (metis prod.exhaust)
        note u = write_reply_now [OF wr]
        have dec: "dns_decode (en_lib env) body = Inr q" using q live(2) by simp
        note answered = serve_session_answered [OF req [unfolded Inr z] live(1) dec step [unfolded fr] wr]
        show ?thesis
        proof (cases v)
          case (Inl e)
          with run answered have "w_now w' = u" by auto
          with t w2 u show ?thesis by simp
        next
          case v: (Inr a)
          obtain out' where rec:
            "serve_session net entry timeout idle proto peer rest (w2\<lparr>w_now := u\<rparr>) = (out', r, w')"
            using run answered v by (auto split: prod.splits)
          have "safe_world env0 T (w2\<lparr>w_now := u\<rparr>)"
            using safe_world_now [OF w2(2), of u] u w2(1) tT safe_world_lib [of env0 env] safe(2) live(2)
            by simp
          with ih [OF req [symmetric] Inr z [symmetric] live(1) [symmetric] refl dec step [symmetric] fr
              wr [symmetric] refl v st _ safe(2) _ rec] room frames t w2 u
          show ?thesis by simp
        qed
      qed
    qed
  qed
qed

text \<open>
  C11. A session does not outlive its peer's activity: with \<open>n\<close> complete requests in its input it is over
  after at most \<open>n + 1\<close> times three idle timeouts and one request timeout, however the peer behaves,
  so that silent or dripping clients cannot hold a connection.
\<close>
theorem session_ends_in_time:
  assumes "steady L T net" "safe_world env T w" "en_lib env = L"
    and "n = length (read_frames (map snd inp))" "w_now w + Suc n * (3 * idle + timeout) \<le> T"
  shows "\<exists>out r w'. serve_session net entry timeout idle proto peer inp w = (out, r, w')
    \<and> w_now w' \<le> w_now w + Suc n * (3 * idle + timeout)"
  using serve_session_time [OF assms(1-3), of inp idle timeout] assms(4,5) by (metis prod.exhaust)

end
