(* ===== verification/Endpoint_Laws.thy ===== *)
theory Endpoint_Laws
  imports Endpoint Numbers
begin

text \<open>
  Normalising the address of an upstream is exact: the host and the port of the normalised text are
  those that were put in, for names, IPv4 and IPv6 addresses, and normalising again changes nothing.
\<close>

section \<open>What the address parsers consume\<close>

definition colons :: "string \<Rightarrow> nat" where
  "colons s = length (filter (\<lambda>c. c = CHR '':'') s)"

lemma colons_simps [simp]:
  "colons [] = 0" "colons (c # s) = (if c = CHR '':'' then Suc (colons s) else colons s)"
  "colons (a @ b) = colons a + colons b"
  by (simp_all add: colons_def)

lemma colons_0_iff: "colons s = 0 \<longleftrightarrow> CHR '':'' \<notin> set s"
  by (auto simp: colons_def filter_empty_conv)

definition addr_char :: "char \<Rightarrow> bool" where
  \<comment> \<open>a character of a numeric address\<close>
  "addr_char c \<longleftrightarrow> digit_val 16 c \<noteq> None \<or> c = CHR '':'' \<or> c = CHR ''.''"

lemma addr_char_not:
  "\<not> addr_char (CHR ''/'')" "\<not> addr_char (CHR ''['')" "\<not> addr_char (CHR '']'')"
  by (simp_all add: addr_char_def digit_val_def)

lemma digit_val_mono: "digit_val radix c = Some d \<Longrightarrow> radix \<le> 16 \<Longrightarrow> digit_val 16 c = Some d"
  by (auto simp: digit_val_def Let_def split: if_splits)

lemma read_number_eats:
  assumes "read_number radix m z b s = Some (n, r)" "radix \<le> 16"
  shows "\<exists>p. s = p @ r \<and> list_all addr_char p \<and> colons p = 0"
proof -
  let ?ds = "takeWhile (\<lambda>c. digit_val radix c \<noteq> None) s"
  have r: "r = drop (length ?ds) s"
    using assms(1) by (auto simp: read_number_def Let_def split: if_splits option.splits)
  have d: "digit_val 16 c \<noteq> None" if "c \<in> set ?ds" for c
    using set_takeWhileD [OF that] digit_val_mono [OF _ assms(2)] by fastforce
  have colon: "digit_val 16 (CHR '':'') = None" by (simp add: digit_val_def)
  have "CHR '':'' \<notin> set ?ds"
  proof
    assume "CHR '':'' \<in> set ?ds"
    with d have "digit_val 16 (CHR '':'') \<noteq> None" by blast
    with colon show False by simp
  qed
  then have "colons ?ds = 0" by (simp add: colons_0_iff)
  moreover have "list_all addr_char ?ds"
    unfolding list_all_iff addr_char_def using d by blast
  moreover have "s = ?ds @ r" unfolding r by (metis append_take_drop_id takeWhile_eq_take)
  ultimately show ?thesis by blast
qed

lemma read_char_eats: "read_char c s = Some r \<longleftrightarrow> s = c # r"
  by (auto simp: read_char_def split: list.splits)

lemma read_octets_eats:
  "read_octets n first s = Some (bs, r) \<Longrightarrow>
     \<exists>p. s = p @ r \<and> list_all addr_char p \<and> colons p = 0"
proof (induction n arbitrary: first s bs)
  case 0
  then show ?case by simp
next
  case (Suc n)
  obtain b s1 bs1 where 1: "read_sep first (CHR ''.'') (read_number 10 3 False 256) s = Some (b, s1)"
    and 2: "read_octets n False s1 = Some (bs1, r)"
    using Suc.prems by (auto split: option.splits)
  obtain p1 where p1: "s = p1 @ s1" "list_all addr_char p1" "colons p1 = 0"
  proof (cases first)
    case True
    with 1 read_number_eats [of 10 3 False 256 s b s1] that show thesis by (auto simp: read_sep_def)
  next
    case False
    with 1 obtain s0 where s0: "s = CHR ''.'' # s0" "read_number 10 3 False 256 s0 = Some (b, s1)"
      by (auto simp: read_sep_def bind_eq_Some_conv read_char_eats)
    from read_number_eats [OF s0(2)] obtain p where
      "s0 = p @ s1" "list_all addr_char p" "colons p = 0" by auto
    with s0(1) that [of "CHR ''.'' # p"] show thesis by (simp add: addr_char_def)
  qed
  from Suc.IH [OF 2] obtain p2 where "s1 = p2 @ r" "list_all addr_char p2" "colons p2 = 0" by blast
  with p1 show ?case by (intro exI [of _ "p1 @ p2"]) simp
qed

lemma read_ipv4_eats:
  "read_ipv4 s = Some (a, r) \<Longrightarrow> \<exists>p. s = p @ r \<and> list_all addr_char p \<and> colons p = 0"
  by (auto simp: read_ipv4_def dest: read_octets_eats)

definition eats_group :: "(string \<Rightarrow> ('a \<times> string) option) \<Rightarrow> bool" where
  "eats_group q \<longleftrightarrow> (\<forall>s x r. q s = Some (x, r) \<longrightarrow>
     (\<exists>p. s = p @ r \<and> list_all addr_char p \<and> colons p = 0))"

lemma eats_groups: "eats_group read_ipv4" "eats_group (read_number 16 4 True 65536)"
  unfolding eats_group_def using read_ipv4_eats read_number_eats [of 16] by simp_all

lemma read_sep_eats:
  assumes "read_sep first (CHR '':'') q s = Some (x, r)" "eats_group q"
  shows "\<exists>p. s = p @ r \<and> list_all addr_char p \<and> colons p = (if first then 0 else 1)"
proof (cases first)
  case True
  with assms show ?thesis by (auto simp: read_sep_def eats_group_def)
next
  case False
  with assms(1) obtain s0 where s0: "s = CHR '':'' # s0" "q s0 = Some (x, r)"
    by (auto simp: read_sep_def bind_eq_Some_conv read_char_eats)
  from assms(2) s0(2) obtain p where "s0 = p @ r" "list_all addr_char p" "colons p = 0"
    unfolding eats_group_def by blast
  with s0(1) False show ?thesis by (intro exI [of _ "CHR '':'' # p"]) (simp add: addr_char_def)
qed

lemma read_groups_eats:
  "read_groups n first s = (gs, b, r) \<Longrightarrow>
     \<exists>p. s = p @ r \<and> list_all addr_char p \<and> length gs \<le> colons p + (if first then 2 else 1)"
proof (induction n arbitrary: first s gs)
  case 0
  then show ?case by simp
next
  case (Suc n)
  let ?v4 = "if 0 < n then read_sep first (CHR '':'') read_ipv4 s else None"
  let ?hex = "read_sep first (CHR '':'') (read_number 16 4 True 65536) s"
  consider a r1 where "?v4 = Some (a, r1)" | "?v4 = None" "?hex = None"
    | g s1 where "?v4 = None" "?hex = Some (g, s1)"
    by (metis option.exhaust prod.exhaust)
  then show ?case
  proof cases
    case 1
    with Suc.prems have r: "gs = [ucast (drop_bit 16 a), ucast a]" "r1 = r" by auto
    from 1 have sep: "read_sep first (CHR '':'') read_ipv4 s = Some (a, r)" by (auto simp: r split: if_splits)
    from read_sep_eats [OF sep eats_groups(1)] obtain p where
      "s = p @ r" "list_all addr_char p" "colons p = (if first then 0 else 1)" by blast
    with r show ?thesis by (intro exI [of _ p]) auto
  next
    case 2
    with Suc.prems show ?thesis by (auto split: if_splits)
  next
    case 3
    obtain gs1 where gs1: "read_groups n False s1 = (gs1, b, r)" "gs = of_nat g # gs1"
      using Suc.prems 3 by (auto split: prod.splits)
    from read_sep_eats [OF 3(2) eats_groups(2)] obtain p1 where
      p1: "s = p1 @ s1" "list_all addr_char p1" "colons p1 = (if first then 0 else 1)" by blast
    from Suc.IH [OF gs1(1)] obtain p2 where
      "s1 = p2 @ r" "list_all addr_char p2" "length gs1 \<le> colons p2 + 1" by auto
    with p1 gs1(2) show ?thesis by (intro exI [of _ "p1 @ p2"]) auto
  qed
qed

lemma read_ipv6_eats:
  assumes "read_ipv6 s = Some (a, r)"
  shows "\<exists>p. s = p @ r \<and> list_all addr_char p \<and> 2 \<le> colons p"
proof -
  obtain hd6 v4 r0 where g: "read_groups 8 True s = (hd6, v4, r0)" by (cases "read_groups 8 True s")
  from read_groups_eats [OF g] obtain p where
    p: "s = p @ r0" "list_all addr_char p" "length hd6 \<le> colons p + 2" by auto
  show ?thesis
  proof (cases "length hd6 = 8")
    case True
    with assms g have "r = r0" by (simp add: read_ipv6_def)
    with p True show ?thesis by auto
  next
    case False
    with assms g obtain r1 tl6 v6 where
      "r0 = CHR '':'' # CHR '':'' # r1" "read_groups (8 - (length hd6 + 1)) True r1 = (tl6, v6, r)"
      by (auto simp: read_ipv6_def bind_eq_Some_conv read_char_eats
          split: if_splits option.splits prod.splits)
    moreover from read_groups_eats [OF this(2)] obtain p' where
      "r1 = p' @ r" "list_all addr_char p'" by auto
    ultimately show ?thesis
      using p by (intro exI [of _ "p @ CHR '':'' # CHR '':'' # p'"]) (simp add: addr_char_def)
  qed
qed

lemma parse_ipv6_text: "parse_ipv6 s = Some a \<Longrightarrow> list_all addr_char s \<and> 2 \<le> colons s"
  by (auto simp: parse_ipv6_def parse_all_def dest!: read_ipv6_eats split: option.splits prod.splits list.splits)

lemma parse_ipv4_text: "read_ipv4 s = Some (a, []) \<Longrightarrow> list_all addr_char s \<and> colons s = 0"
  by (auto dest: read_ipv4_eats)

lemma parse_ipv6_not_v4:
  assumes "parse_ipv6 s = Some a"
  shows "read_ipv4 s = None"
proof (rule ccontr)
  assume "read_ipv4 s \<noteq> None"
  then obtain b r where "read_ipv4 s = Some (b, r)" by auto
  then have "read_groups 8 True s = ([ucast (drop_bit 16 b), ucast b], True, r)"
    by (simp add: read_groups_numeral read_sep_def)
  then have "read_ipv6 s = None" by (simp add: read_ipv6_def)
  with assms show False by (simp add: parse_ipv6_def parse_all_def)
qed

lemma parse_ipaddr_v6: "parse_ipv6 s = Some a \<Longrightarrow> parse_ipaddr s = Some (V6 a)"
  by (simp add: parse_ipaddr_def parse_ipv6_not_v4)

section \<open>Ports as text\<close>

lemma radix_char_plus: "d < 16 \<Longrightarrow> radix_char d \<noteq> CHR ''+''"
proof
  assume d: "d < 16" "radix_char d = CHR ''+''"
  then have "of_char (radix_char d) = (43 :: nat)" by simp
  with d(1) show False by (simp add: radix_char_code split: if_splits)
qed

lemma radix_char_addr: "d < 16 \<Longrightarrow> addr_char (radix_char d) \<and> radix_char d \<noteq> CHR '':''"
proof -
  assume d: "d < 16"
  then have "digit_val 16 (radix_char d) \<noteq> None" by (simp add: digit_val_radix_char)
  moreover have "digit_val 16 (CHR '':'') = None" by (simp add: digit_val_def)
  ultimately show ?thesis by (auto simp: addr_char_def)
qed

lemma show_radix_nonempty: "show_radix (Suc f) radix n \<noteq> []"
  by (simp add: Let_def)

lemma parse_unsigned_show_nat:
  assumes "n < b"
  shows "parse_unsigned 10 b (show_nat n) = Some n"
proof -
  have "CHR ''+'' \<notin> set (show_nat n)"
    unfolding show_nat_def by (rule show_radix_free) (auto dest: radix_char_plus)
  moreover have "show_nat n \<noteq> []" unfolding show_nat_def by (rule show_radix_nonempty)
  moreover have "digits_val 10 0 (show_nat n) = Some n"
    unfolding show_nat_def by (rule digits_val_show_radix) simp_all
  ultimately show ?thesis
    using assms by (cases "show_nat n") (auto simp: parse_unsigned_def Let_def)
qed

lemma parse_show_word [simp]: "parse_word (show_word w :: string) = Some (w :: 'a::len word)"
  using unsigned_less [of w]
  by (simp add: parse_word_def show_word_def parse_unsigned_show_nat)

lemma show_word_no_colon: "CHR '':'' \<notin> set (show_word w)"
  unfolding show_word_def show_nat_def by (rule show_radix_free) (auto dest: radix_char_addr)

lemma show_word_no_slash: "CHR ''/'' \<notin> set (show_word w)"
  unfolding show_word_def show_nat_def
  by (rule show_radix_free) (auto dest: radix_char_addr simp: addr_char_not)

lemma show_word_no_bracket: "CHR '']'' \<notin> set (show_word w)"
  unfolding show_word_def show_nat_def
  by (rule show_radix_free) (auto dest: radix_char_addr simp: addr_char_not)

section \<open>Normalised addresses\<close>

lemma rsplit_once_at: "c \<notin> set b \<Longrightarrow> rsplit_once c (a @ c # b) = Some (a, b)"
proof -
  assume "c \<notin> set b"
  then have "split_once c (rev b @ c # rev a) = Some (rev b, rev a)"
    by (subst split_once_Some_iff) simp
  then show ?thesis by (simp add: rsplit_once_def)
qed

definition plain_host :: "string \<Rightarrow> bool" where
  \<comment> \<open>a host name or an IPv4 address: no colon, no slash, no opening bracket\<close>
  "plain_host h \<longleftrightarrow> list_all (\<lambda>c. c \<noteq> CHR '':'' \<and> c \<noteq> CHR ''/'' \<and> c \<noteq> CHR ''['') h"

lemma plain_hostD:
  "plain_host h \<Longrightarrow> CHR '':'' \<notin> set h \<and> CHR ''/'' \<notin> set h \<and> CHR ''['' \<notin> set h"
  by (auto simp: plain_host_def list_all_iff)

lemma no_bracket_prefix: "CHR ''['' \<notin> set s \<Longrightarrow> strip_prefix ''['' s = None"
  by (cases s) auto

lemma few_colons_not_v6: "colons s < 2 \<Longrightarrow> parse_ipv6 s = None"
  using parse_ipv6_text by (cases "parse_ipv6 s") (auto simp: not_less [symmetric])

definition named_endpoint :: "string \<Rightarrow> u16 \<Rightarrow> string" where
  "named_endpoint h d = h @ '':'' @ show_word d"

lemma named_endpoint_text:
  assumes "plain_host h"
  shows "split_char (CHR ''/'') (named_endpoint h d) = [named_endpoint h d]"
    "strip_prefix ''['' (named_endpoint h d) = None" "parse_ipv6 (named_endpoint h d) = None"
    "rsplit_once (CHR '':'') (named_endpoint h d) = Some (h, show_word d)"
    "colons (named_endpoint h d) = 1"
proof -
  note h = plain_hostD [OF assms]
  show "split_char (CHR ''/'') (named_endpoint h d) = [named_endpoint h d]"
    using h show_word_no_slash by (intro split_char_absent) (auto simp: named_endpoint_def)
  show "strip_prefix ''['' (named_endpoint h d) = None"
    using h by (cases h) (auto simp: named_endpoint_def)
  show c: "colons (named_endpoint h d) = 1"
    using h show_word_no_colon by (auto simp: named_endpoint_def colons_0_iff)
  show "parse_ipv6 (named_endpoint h d) = None" by (rule few_colons_not_v6) (simp add: c)
  show "rsplit_once (CHR '':'') (named_endpoint h d) = Some (h, show_word d)"
    using rsplit_once_at [OF show_word_no_colon] by (simp add: named_endpoint_def)
qed

lemma normalize_plain:
  assumes "plain_host h"
  shows "normalize_hostport h d = named_endpoint h d"
    "normalize_hostport (named_endpoint h d) e = named_endpoint h d"
    "host_of (named_endpoint h d) = h" "port_of (named_endpoint h d) e = d"
proof -
  note h = plain_hostD [OF assms]
  have "colons h = 0" using h by (simp add: colons_0_iff)
  then show "normalize_hostport h d = named_endpoint h d"
    using h by (simp add: normalize_hostport_def Let_def split_char_absent no_bracket_prefix
        few_colons_not_v6 flip: colons_def) (simp add: named_endpoint_def)
  note t = named_endpoint_text [OF assms, of d]
  show "normalize_hostport (named_endpoint h d) e = named_endpoint h d"
    by (simp add: normalize_hostport_def Let_def t flip: colons_def)
  show "host_of (named_endpoint h d) = h" by (simp add: host_of_def t)
  show "port_of (named_endpoint h d) e = d" by (simp add: port_of_def t)
qed

definition v6_endpoint :: "string \<Rightarrow> u16 \<Rightarrow> string" where
  "v6_endpoint h d = ''['' @ h @ '']:'' @ show_word d"

lemma split_once_str_found: "split_once_str pat (a @ pat @ b) \<noteq> None"
proof (induction a)
  case Nil
  have "strip_prefix pat (pat @ b) = Some b" by (simp add: strip_prefix_Some_iff)
  then show ?case by (cases "pat @ b") (auto split: option.split)
next
  case (Cons x a)
  then show ?case by (auto split: option.split)
qed

lemma v6_text:
  assumes "parse_ipv6 h = Some a"
  shows "CHR ''/'' \<notin> set h" "CHR ''['' \<notin> set h" "CHR '']'' \<notin> set h"
  using parse_ipv6_text [OF assms] addr_char_not by (auto simp: list_all_iff)

lemma normalize_v6:
  assumes "parse_ipv6 h = Some a"
  shows "normalize_hostport h d = v6_endpoint h d"
    "normalize_hostport (v6_endpoint h d) e = v6_endpoint h d"
    "host_of (v6_endpoint h d) = h" "port_of (v6_endpoint h d) e = d"
proof -
  note h = v6_text [OF assms]
  show "normalize_hostport h d = v6_endpoint h d"
    by (simp add: normalize_hostport_def Let_def split_char_absent h no_bracket_prefix assms v6_endpoint_def)
  have s: "split_char (CHR ''/'') (v6_endpoint h d) = [v6_endpoint h d]"
    using h show_word_no_slash by (intro split_char_absent) (auto simp: v6_endpoint_def)
  have p: "strip_prefix ''['' (v6_endpoint h d) = Some (h @ CHR '']'' # CHR '':'' # show_word d)"
    by (simp add: v6_endpoint_def)
  have i: "split_char (CHR '']'') (h @ CHR '']'' # CHR '':'' # show_word d) = [h, CHR '':'' # show_word d]"
    by (subst split_char_at) (simp_all add: h split_char_absent [OF show_word_no_bracket])
  have "split_once_str '']:'' (v6_endpoint h d) \<noteq> None"
    using split_once_str_found [of "'']:''" "''['' @ h" "show_word d"] by (simp add: v6_endpoint_def)
  then show "normalize_hostport (v6_endpoint h d) e = v6_endpoint h d"
    by (simp add: normalize_hostport_def Let_def s p)
  show "host_of (v6_endpoint h d) = h" by (simp add: host_of_def s p i)
  show "port_of (v6_endpoint h d) e = d" by (simp add: port_of_def s p i)
qed

text \<open>
  C40. The normalised address of an upstream without a port holds the host as it was written, be it a
  name, an IPv4 or an IPv6 address, and the default port; both are read back exactly, and a second
  normalisation changes nothing.
\<close>
theorem hostport_roundtrip:
  assumes "plain_host h \<or> parse_ipv6 h \<noteq> None"
  shows "host_of (normalize_hostport h d) = h \<and> port_of (normalize_hostport h d) e = d
    \<and> normalize_hostport (normalize_hostport h d) e = normalize_hostport h d"
  using assms normalize_plain normalize_v6 by auto

lemma hostport_roundtrip_witness:
  "host_of (normalize_hostport ''dns.test'' 853) = ''dns.test''
    \<and> port_of (normalize_hostport ''2001:db8::9'' 853) 53 = 853"
  using hostport_roundtrip [of "''dns.test''" 853 53] hostport_roundtrip [of "''2001:db8::9''" 853 53]
  by (simp add: plain_host_def ip_parse_eval)

lemma ipaddr_endpoint:
  assumes "parse_ipaddr h = Some a"
  shows "plain_host h \<or> parse_ipv6 h \<noteq> None"
proof (cases "parse_ipv6 h")
  case None
  with assms obtain b where "read_ipv4 h = Some (b, [])"
    by (auto simp: parse_ipaddr_def split: option.splits prod.splits if_splits)
  from parse_ipv4_text [OF this] addr_char_not have "plain_host h"
    by (auto simp: plain_host_def list_all_iff colons_0_iff)
  then show ?thesis ..
qed simp

end
