(* ===== verification/Upstream_Laws.thy ===== *)
theory Upstream_Laws
  imports Exchange_Laws Endpoint_Laws
begin

text \<open>
  The state the tasks of an upstream share. \<open>shared_state\<close> is a relation every change an exchange
  makes to that state satisfies; it then relates the states before and after a whole exchange,
  provided what other tasks do while the exchange waits satisfies it too. It is interpreted by the
  bound on the connection pool and by the stability of the destination.
\<close>

section \<open>Every change an exchange makes\<close>

named_theorems keeps

definition io_keeps :: "(('h, 'w) ustate \<Rightarrow> ('h, 'w) ustate \<Rightarrow> bool) \<Rightarrow> ('h, 'w, 'a) io \<Rightarrow> bool" where
  "io_keeps R m \<longleftrightarrow> (\<forall>dl now s x t s'. m dl now s = (x, t, s') \<longrightarrow> R s s')"

lemma io_keepsI: "(\<And>dl now s x t s'. m dl now s = (x, t, s') \<Longrightarrow> R s s') \<Longrightarrow> io_keeps R m"
  unfolding io_keeps_def by blast

lemma io_keepsD: "io_keeps R m \<Longrightarrow> m dl now s = (x, t, s') \<Longrightarrow> R s s'"
  unfolding io_keeps_def by blast

definition others_keep ::
    "(('h, 'w) ustate \<Rightarrow> ('h, 'w) ustate \<Rightarrow> bool) \<Rightarrow> ('h, 'w) netops \<Rightarrow> bool" where
  "others_keep R N \<longleftrightarrow> (\<forall>t s. R s (nt_other N t s))"

lemma keeps_cases [keeps]:
  "(\<And>x. r = Inr x \<Longrightarrow> io_keeps R (f x)) \<Longrightarrow> (\<And>e. r = Inl e \<Longrightarrow> io_keeps R (g e))
    \<Longrightarrow> io_keeps R (case r of Inl e \<Rightarrow> g e | Inr x \<Rightarrow> f x)"
  "(\<And>x. z = Some x \<Longrightarrow> io_keeps R (h x)) \<Longrightarrow> io_keeps R k
    \<Longrightarrow> io_keeps R (case z of None \<Rightarrow> k | Some x \<Rightarrow> h x)"
  "io_keeps R a \<Longrightarrow> io_keeps R b \<Longrightarrow> io_keeps R (if c then a else b)"
  "(\<And>x y. io_keeps R (j x y)) \<Longrightarrow> io_keeps R (case p of (x, y) \<Rightarrow> j x y)"
  by (auto split: sum.split option.split prod.split)

lemma keeps_map_err [keeps]: "io_keeps R m \<Longrightarrow> io_keeps R (io_map_err g m)"
  by (rule io_keepsI)
    (auto simp: io_map_err_def dest: io_keepsD split: prod.splits outcome.splits sum.splits)

lemma keeps_attempt [keeps]: "io_keeps R m \<Longrightarrow> io_keeps R (io_attempt m)"
  by (rule io_keepsI) (auto simp: io_attempt_def dest: io_keepsD split: prod.splits outcome.splits)

lemma keeps_timeout [keeps]: "io_keeps R m \<Longrightarrow> io_keeps R (io_timeout l m)"
  by (rule io_keepsI)
    (auto simp: io_timeout_def dest: io_keepsD split: prod.splits outcome.splits sum.splits if_splits)

locale shared_state =
  fixes R :: "('h, 'w) ustate \<Rightarrow> ('h, 'w) ustate \<Rightarrow> bool"
  assumes refl: "R s s"
    and trans: "R a b \<Longrightarrow> R b c \<Longrightarrow> R a c"
    and net: "R s (s\<lparr>u_net := w\<rparr>)"
    and cached: "R s (s\<lparr>u_cache := m\<rparr>)"
    and take: "u_pool s = Some p \<Longrightarrow> pool_take now p = (x, p') \<Longrightarrow> R s (s\<lparr>u_pool := Some p'\<rparr>)"
    and put: "R s (s\<lparr>u_pool := map_option (pool_put now h) (u_pool s)\<rparr>)"
    and init: "u_dest s = None \<Longrightarrow> R s (s\<lparr>u_dest := Some d\<rparr>)"
begin

lemma keeps_pure [keeps]:
  "io_keeps R (io_res r)" "io_keeps R (io_random N)" "io_keeps R io_pool_take"
  "io_keeps R (io_pool_put h)" "io_keeps R (cache_get host)" "io_keeps R (cache_set host addrs)"
  "io_keeps R (get_or_init d)" "io_keeps R (expect_pool what)" "io_keeps R (expect_part b what)"
  by (auto intro!: io_keepsI simp: io_res_def io_random_def io_pool_take_def io_pool_put_def
      cache_get_def cache_set_def get_or_init_def expect_pool_def expect_part_def
      intro: refl net cached take put init split: prod.splits option.splits)

lemma keeps_await [keeps]: "others_keep R N \<Longrightarrow> io_keeps R (io_await N f)"
  by (rule io_keepsI)
    (auto simp: io_await_def Let_def others_keep_def intro: trans [OF net] split: prod.splits if_splits)

lemma keeps_bind [keeps]:
  assumes "io_keeps R m" "\<And>x. io_keeps R (f x)"
  shows "io_keeps R (io_bind m f)"
proof (rule io_keepsI)
  fix dl now s x t s'
  assume b: "io_bind m f dl now s = (x, t, s')"
  obtain y u s1 where m: "m dl now s = (y, u, s1)" by (cases "m dl now s")
  note first = io_keepsD [OF assms(1) m]
  show "R s s'"
  proof (cases "\<exists>v. y = Done (Inr v)")
    case True
    then obtain v where "f v dl u s1 = (x, t, s')" using b m by (auto simp: io_bind_def)
    from trans [OF first io_keepsD [OF assms(2) this]] show ?thesis .
  next
    case False
    with b m first show ?thesis by (auto simp: io_bind_def split: outcome.splits sum.splits)
  qed
qed

lemma keeps_framed [keeps]: "others_keep R N \<Longrightarrow> io_keeps R (framed_exchange L N h q)"
  unfolding framed_exchange_def write_framed_def read_framed_def Let_def by (intro keeps)

lemma keeps_fresh [keeps]:
  "others_keep R N \<Longrightarrow> io_keeps R (tcp_fresh N dest)"
  "others_keep R N \<Longrightarrow> io_keeps R (tls_fresh N dest sni)"
  unfolding tls_fresh_def tcp_fresh_def by (intro keeps; assumption)+

lemma keeps_pooled [keeps]:
  "others_keep R N \<Longrightarrow> io_keeps R fresh \<Longrightarrow> io_keeps R (exchange_pooled L N fresh q)"
  unfolding exchange_pooled_def reuse_stream_def by (intro keeps)

lemma keeps_udp_loop [keeps]: "others_keep R N \<Longrightarrow> io_keeps R (udp_recv_loop L N sock dest q n)"
  by (induction n) (auto simp: udp_accept_def intro!: keeps)

lemma keeps_udp [keeps]: "others_keep R N \<Longrightarrow> io_keeps R (udp_exchange_addr L N dest q)"
  unfolding udp_exchange_addr_def by (intro keeps)

lemma keeps_lookup [keeps]: "others_keep R N \<Longrightarrow> io_keeps R (bootstrap_lookup L N boot host budget qt)"
  unfolding bootstrap_lookup_def bootstrap_query_def Let_def by (intro keeps)

lemma keeps_bootstrap [keeps]:
  assumes "others_keep R N"
  shows "io_keeps R (bootstrap_ips L N boot host budget)"
proof (rule io_keepsI)
  fix dl now s x t s'
  assume b: "bootstrap_ips L N boot host budget dl now s = (x, t, s')"
  show "R s s'"
  proof (cases "bootstrap_socket boot")
    case (Inl e)
    with b show ?thesis by (auto simp: bootstrap_ips_def intro: refl)
  next
    case (Inr a)
    let ?l = "bootstrap_lookup L N a (trim_end_matches CHR ''.'' host) budget"
    obtain xa ta sa where la: "?l RtA dl now s = (xa, ta, sa)" by (cases "?l RtA dl now s")
    obtain xb tb sb where lb: "?l RtAAAA dl now sa = (xb, tb, sb)" by (cases "?l RtAAAA dl now sa")
    note k = keeps_lookup [OF assms]
    have "s' = sb" using b
      by (auto simp: bootstrap_ips_def Inr la lb Let_def split: outcome.splits sum.splits)
    with trans [OF io_keepsD [OF k la] io_keepsD [OF k lb]] show ?thesis by simp
  qed
qed

lemma keeps_dest [keeps]:
  "others_keep R N \<Longrightarrow> io_keeps R (resolve_spec L N sp target budget)"
  "others_keep R N \<Longrightarrow> io_keeps R (resolve_host L N r host budget)"
  unfolding resolve_spec_def resolve_host_def resolve_target_def Let_def by (intro keeps; assumption)+

lemma keeps_cached_dest [keeps]:
  assumes "others_keep R N"
  shows "io_keeps R (cached_dest L N sp target budget)"
proof -
  have b: "io_keeps R (io_bind (resolve_spec L N sp target budget) get_or_init)"
    using assms by (intro keeps)
  show ?thesis
    by (rule io_keepsI) (auto simp: cached_dest_def dest: io_keepsD [OF b] intro: refl split: option.splits)
qed

lemma keeps_inner: "others_keep R N \<Longrightarrow> io_keeps R (exchange_inner L N up q limit)"
  unfolding exchange_inner_def Let_def doh_exchange_def tcp_exchange_pooled_def tls_exchange_pooled_def
  by (cases "up_kind up") (auto intro!: keeps)

lemma keeps_exchange: "others_keep R N \<Longrightarrow> io_keeps R (upstream_exchange L N up q limit)"
  unfolding upstream_exchange_def by (intro keeps keeps_inner)

end

section \<open>The pool\<close>

definition pool_bound :: "('h, 'w) ustate \<Rightarrow> ('h, 'w) ustate \<Rightarrow> bool" where
  \<comment> \<open>a pool is neither made nor lost, keeps its settings and does not outgrow its capacity\<close>
  "pool_bound s s' \<longleftrightarrow>
     (case (u_pool s, u_pool s') of
        (None, None) \<Rightarrow> True
      | (Some p, Some p') \<Rightarrow> sp_cap p' = sp_cap p \<and> sp_idle p' = sp_idle p
          \<and> (length (sp_slots p) \<le> sp_cap p \<longrightarrow> length (sp_slots p') \<le> sp_cap p')
      | _ \<Rightarrow> False)"

lemma take_slot_split:
  "take_slot now idle slots = (x, r) \<Longrightarrow>
     (case x of
        None \<Rightarrow> r = [] \<and> (\<forall>y \<in> set slots. idle \<le> now - snd y)
      | Some h \<Rightarrow> \<exists>old t. slots = old @ (h, t) # r \<and> now - t < idle \<and> (\<forall>y \<in> set old. idle \<le> now - snd y))"
proof (induction slots)
  case Nil
  then show ?case by auto
next
  case (Cons y slots)
  obtain h t where y: "y = (h, t)" by (cases y)
  show ?case
  proof (cases "now - t < idle")
    case True
    with Cons.prems y have "x = Some h" "r = slots" by auto
    with True y show ?thesis by (auto intro: exI [of _ "[]"])
  next
    case False
    with Cons.prems y have "take_slot now idle slots = (x, r)" by simp
    note ih = Cons.IH [OF this]
    show ?thesis
    proof (cases x)
      case None
      with ih y False show ?thesis by auto
    next
      case (Some g)
      with ih obtain old u where "slots = old @ (g, u) # r" "now - u < idle"
          "\<forall>y \<in> set old. idle \<le> now - snd y" by auto
      with y False Some show ?thesis by (auto intro!: exI [of _ "(h, t) # old"])
    qed
  qed
qed

lemma pool_take_shrinks:
  "pool_take now p = (x, p') \<Longrightarrow> sp_cap p' = sp_cap p \<and> sp_idle p' = sp_idle p
     \<and> length (sp_slots p') \<le> length (sp_slots p)"
  by (auto simp: pool_take_def split: prod.splits option.splits dest!: take_slot_split)

lemma pool_put_bound:
  "sp_cap (pool_put now h p) = sp_cap p" "sp_idle (pool_put now h p) = sp_idle p"
  "length (sp_slots p) \<le> sp_cap p \<Longrightarrow> length (sp_slots (pool_put now h p)) \<le> sp_cap p"
  by (auto simp: pool_put_def)

interpretation pooled: shared_state pool_bound
proof
  show "pool_bound a c" if "pool_bound a b" "pool_bound b c" for a b c :: "('h, 'w) ustate"
    using that by (auto simp: pool_bound_def split: option.splits)
qed (auto simp: pool_bound_def pool_put_bound dest: pool_take_shrinks split: option.split)

section \<open>The destination\<close>

definition dest_stable :: "('h, 'w) ustate \<Rightarrow> ('h, 'w) ustate \<Rightarrow> bool" where
  "dest_stable s s' \<longleftrightarrow> (\<forall>d. u_dest s = Some d \<longrightarrow> u_dest s' = Some d)"

interpretation settled: shared_state dest_stable
  by unfold_locales (auto simp: dest_stable_def)

section \<open>An upstream over its lifetime\<close>

inductive upstream_reach ::
    "'n lib \<Rightarrow> ('h, 'w) netops \<Rightarrow> upstream \<Rightarrow> ('h, 'w) ustate \<Rightarrow> ('h, 'w) ustate \<Rightarrow> bool"
  for L N up s0 where
  start: "upstream_reach L N up s0 s0"
| exchange: "upstream_reach L N up s0 s \<Longrightarrow> upstream_exchange L N up q limit dl now s = (x, t, s')
    \<Longrightarrow> upstream_reach L N up s0 s'"

lemma upstream_reach_pool:
  assumes "upstream_reach L N up s0 s" "others_keep pool_bound N"
  shows "pool_bound s0 s"
  using assms(1)
proof induction
  case start
  show ?case by (rule pooled.refl)
next
  case (exchange s q limit dl now x t s')
  from pooled.trans [OF exchange.IH io_keepsD [OF pooled.keeps_exchange [OF assms(2)] exchange.hyps(2)]]
  show ?case .
qed

lemma upstream_reach_dest:
  assumes "upstream_reach L N up s0 s" "others_keep dest_stable N"
  shows "dest_stable s0 s"
  using assms(1)
proof induction
  case start
  show ?case by (rule settled.refl)
next
  case (exchange s q limit dl now x t s')
  from settled.trans [OF exchange.IH io_keepsD [OF settled.keeps_exchange [OF assms(2)] exchange.hyps(2)]]
  show ?case .
qed

text \<open>
  C30. However many exchanges run on an upstream, one after another or at once, it holds at most
  eight idle connections, and none for UDP and DoH; an upstream of TCP or TLS never loses its pool,
  so that the \<open>expect\<close> of the code cannot fail.
\<close>
theorem pool_stays_bounded:
  assumes "upstream_connect http tls w sp = Inr (up, s0)" "others_keep pool_bound N"
    and "upstream_reach L N up s0 s"
  shows "(u_pool s \<noteq> None) = (case up_kind up of KTcp _ \<Rightarrow> True | KTls _ _ \<Rightarrow> True | _ \<Rightarrow> False)
    \<and> (case u_pool s of None \<Rightarrow> True
       | Some p \<Rightarrow> length (sp_slots p) \<le> 8 \<and> sp_idle p = us_idle_timeout sp)
    \<and> (case up_kind up of KTls _ _ \<Rightarrow> up_tls up | KDoh _ \<Rightarrow> up_http up | _ \<Rightarrow> True)"
proof -
  have "u_pool s0 = (case up_kind up of KTcp _ \<Rightarrow> Some (pool_new 8 (us_idle_timeout sp))
      | KTls _ _ \<Rightarrow> Some (pool_new 8 (us_idle_timeout sp)) | _ \<Rightarrow> None)
    \<and> (case up_kind up of KTls _ _ \<Rightarrow> up_tls up | KDoh _ \<Rightarrow> up_http up | _ \<Rightarrow> True)"
    using assms(1) by (auto simp: upstream_connect_def pool_cap_def split: kind.splits prod.splits)
  with upstream_reach_pool [OF assms(3,2)] show ?thesis
    by (cases "up_kind up") (auto simp: pool_bound_def pool_new_def split: option.splits)
qed

text \<open>
  The pool hands out the connection put back last, unless it has been idle too long: then it and
  every older one like it are closed, and a connection handed out has been idle for less than the
  timeout.
\<close>
theorem pool_hands_out_fresh:
  "case pool_take now p of
     (None, p') \<Rightarrow> sp_slots p' = [] \<and> list_all (\<lambda>y. sp_idle p \<le> now - snd y) (sp_slots p)
   | (Some h, p') \<Rightarrow> \<exists>old t. sp_slots p = old @ (h, t) # sp_slots p' \<and> now - t < sp_idle p
       \<and> list_all (\<lambda>y. sp_idle p \<le> now - snd y) old"
proof -
  obtain x r where t: "take_slot now (sp_idle p) (sp_slots p) = (x, r)"
    by (cases "take_slot now (sp_idle p) (sp_slots p)")
  from take_slot_split [OF t] show ?thesis
    by (auto simp: pool_take_def t list_all_iff split: option.splits)
qed

text \<open>
  The destination of an upstream is resolved once: whatever address the first resolution gives,
  every later exchange uses it at once, without a lookup, though several may have been resolving at
  the same time.
\<close>
theorem destination_settled:
  assumes "cached_dest L N sp target budget dl now s = (Done (Inr d), t, s')"
    and "others_keep dest_stable N" "upstream_reach L N up s' s''"
  shows "cached_dest L N sp' target' budget' dl' now' s'' = (Done (Inr d), now', s'')"
proof -
  have "u_dest s' = Some d"
    using assms(1)
    by (auto simp: cached_dest_def get_or_init_def io_bind_Done split: option.splits)
  with upstream_reach_dest [OF assms(3,2)] have "u_dest s'' = Some d" by (simp add: dest_stable_def)
  then show ?thesis by (simp add: cached_dest_def)
qed

section \<open>Literal addresses\<close>

text \<open>
  An upstream given by an IP address is reached at that address and port without asking anyone:
  neither the bootstrap server nor the system resolver is used, and nothing of the state changes.
\<close>
theorem literal_needs_no_lookup:
  assumes "parse_ipaddr h = Some a" "us_dial_addr sp = None" "pr_pins r = []"
  shows "resolve_spec L N sp (normalize_hostport h p) budget dl now s
      = (Done (Inr (socket_addr_new a p)), now, s)
    \<and> resolve_host L N r h budget dl now s = (Done (Inr [socket_addr_new a 0]), now, s)"
proof -
  have "host_of (normalize_hostport h p) = h" "port_of (normalize_hostport h p) 53 = p"
    using ipaddr_endpoint [OF assms(1)] normalize_plain normalize_v6 by auto
  with assms show ?thesis by (simp add: resolve_spec_def resolve_host_def io_res_def)
qed

section \<open>Bootstrap\<close>

lemma insort_key_last:
  "insort_key f x (as @ bs) = as @ insort_key f x bs" if "\<And>y. y \<in> set as \<Longrightarrow> \<not> f x \<le> f y"
  using that by (induction as) auto

lemma insort_key_first: "(\<And>y. y \<in> set bs \<Longrightarrow> f x \<le> f y) \<Longrightarrow> insort_key f x bs = x # bs"
  by (cases bs) auto

lemma sort_key_partition:
  "sort_key (\<lambda>x. \<not> P x) xs = filter P xs @ filter (\<lambda>x. \<not> P x) xs"
proof (induction xs)
  case Nil
  then show ?case by simp
next
  case (Cons x xs)
  show ?case
  proof (cases "P x")
    case True
    with Cons show ?thesis by (simp add: insort_key_first)
  next
    case False
    then have "insort_key (\<lambda>x. \<not> P x) x (filter P xs @ filter (\<lambda>x. \<not> P x) xs)
        = filter P xs @ insort_key (\<lambda>x. \<not> P x) x (filter (\<lambda>x. \<not> P x) xs)"
      by (intro insort_key_last) auto
    also have "insort_key (\<lambda>x. \<not> P x) x (filter (\<lambda>x. \<not> P x) xs) = x # filter (\<lambda>x. \<not> P x) xs"
      by (rule insort_key_first) (use False in auto)
    finally show ?thesis using Cons False by simp
  qed
qed

lemma remdups_adj_partition:
  assumes "list_all P as" "list_all (\<lambda>x. \<not> P x) bs"
  shows "filter P (remdups_adj (as @ bs)) @ filter (\<lambda>x. \<not> P x) (remdups_adj (as @ bs)) = remdups_adj (as @ bs)"
proof -
  have neg: "filter P (remdups_adj bs) = []" "filter (\<lambda>x. \<not> P x) (remdups_adj bs) = remdups_adj bs"
    using assms(2) by (auto simp: list_all_iff filter_empty_conv)
  show ?thesis
    using assms(1)
  proof (induction as rule: remdups_adj.induct)
    case 1
    then show ?case by (simp add: neg)
  next
    case (2 x)
    have h: "bs = b # bs' \<Longrightarrow> x \<noteq> b" for b bs' using 2 assms(2) by auto
    show ?case using 2 neg h by (cases bs) auto
  next
    case (3 x y as)
    then show ?case by auto
  qed
qed

lemma order_ips_v4_first:
  "filter is_ipv4 (order_ips ips) @ filter (\<lambda>a. \<not> is_ipv4 a) (order_ips ips) = order_ips ips"
  unfolding order_ips_def sort_key_partition by (rule remdups_adj_partition) (auto simp: list_all_iff)

lemma order_ips_set: "set (order_ips ips) = set ips"
  unfolding order_ips_def sort_key_partition by auto

text \<open>
  A bootstrap lookup uses what either family gives when the other fails or is too slow, and
  prefers IPv4 however late it arrives: the addresses found are exactly those of the two replies,
  the IPv4 ones first.
\<close>
theorem bootstrap_prefers_ipv4:
  assumes "bootstrap_socket boot = Inr b"
    and "bootstrap_lookup L N b (trim_end_matches (CHR ''.'') host) budget RtA dl now s = (Done (Inr ra), ta, sa)"
    and "bootstrap_lookup L N b (trim_end_matches (CHR ''.'') host) budget RtAAAA dl now sa = (Done (Inr rb), tb, sb)"
    and "found_ips ra \<noteq> [] \<or> found_ips rb \<noteq> []"
  shows "\<exists>ips. bootstrap_ips L N boot host budget dl now s = (Done (Inr ips), max ta tb, sb)
    \<and> set ips = set (found_ips ra) \<union> set (found_ips rb)
    \<and> ips = filter is_ipv4 ips @ filter (\<lambda>a. \<not> is_ipv4 a) ips"
proof -
  let ?found = "if ta \<le> tb then found_ips ra @ found_ips rb else found_ips rb @ found_ips ra"
  have "bootstrap_ips L N boot host budget dl now s = (Done (Inr (order_ips ?found)), max ta tb, sb)"
    using assms by (auto simp: bootstrap_ips_def Let_def)
  moreover have "set (order_ips ?found) = set (found_ips ra) \<union> set (found_ips rb)"
    by (auto simp: order_ips_set)
  ultimately show ?thesis using order_ips_v4_first [of ?found] by metis
qed

section \<open>Datagrams that do not answer\<close>

definition matching_reply :: "'n lib \<Rightarrow> 'n message \<Rightarrow> u8 list \<Rightarrow> 'n message option" where
  "matching_reply L q d = (case dns_decode L d of
     Inl e \<Rightarrow> None | Inr r \<Rightarrow> if answers_query L q r then Some r else None)"

definition udp_sent ::
    "'n lib \<Rightarrow> ('h, 'w) netops \<Rightarrow> socket_addr \<Rightarrow> 'n message \<Rightarrow> instant \<Rightarrow> instant \<Rightarrow> ('h, 'w) ustate
      \<Rightarrow> 'h \<Rightarrow> instant \<Rightarrow> ('h, 'w) ustate \<Rightarrow> bool" where
  \<comment> \<open>specification: a socket of the destination's family was bound, connected to it, and sent the query\<close>
  "udp_sent L N dest q dl now s sock t s' \<longleftrightarrow> (\<exists>t1 s1 t2 s2 bytes.
     io_await N (nt_udp_bind N (if is_ipv4 (sa_ip dest) then ''0.0.0.0:0'' else ''[::]:0'')) dl now s
       = (Done (Inr sock), t1, s1)
     \<and> io_await N (nt_udp_connect N sock dest) dl t1 s1 = (Done (Inr ()), t2, s2)
     \<and> dns_encode L q = Inr bytes
     \<and> io_await N (nt_udp_send N sock bytes) dl t2 s2 = (Done (Inr ()), t, s'))"

fun udp_receives ::
    "('h, 'w) netops \<Rightarrow> 'h \<Rightarrow> instant \<Rightarrow> instant \<Rightarrow> ('h, 'w) ustate \<Rightarrow> u8 list list
      \<Rightarrow> instant \<Rightarrow> ('h, 'w) ustate \<Rightarrow> bool" where
  \<comment> \<open>specification: from now on the socket hands over these datagrams one after the other, the last of
      them at the given instant and in the given state\<close>
  "udp_receives N sock dl now s [] t s' \<longleftrightarrow> t = now \<and> s' = s"
| "udp_receives N sock dl now s (d # ds) t s' \<longleftrightarrow>
     (\<exists>t1 s1. io_await N (nt_udp_recv N sock) dl now s = (Done (Inr d), t1, s1)
       \<and> udp_receives N sock dl t1 s1 ds t s')"

lemma take_response_other: "\<not> answers_query L q r \<Longrightarrow> \<exists>e. take_response L q r = Inl e"
  by (auto simp: answers_query_def take_response_def)

lemma udp_exchange_sent:
  "udp_sent L N dest q dl now s sock t s' \<Longrightarrow>
     udp_exchange_addr L N dest q dl now s = udp_recv_loop L N sock dest q 4 dl t s'"
  by (auto simp: udp_sent_def udp_exchange_addr_def io_bind_def io_res_def simp del: udp_recv_loop.simps)

lemma udp_recv_loop_skips:
  "udp_receives N sock dl now s ds t s' \<Longrightarrow> \<forall>d \<in> set ds. matching_reply L q d = None \<Longrightarrow>
     udp_recv_loop L N sock dest q (length ds + n) dl now s = udp_recv_loop L N sock dest q n dl t s'"
proof (induction ds arbitrary: now s)
  case (Cons d ds)
  then obtain t1 s1 where r: "io_await N (nt_udp_recv N sock) dl now s = (Done (Inr d), t1, s1)"
    "udp_receives N sock dl t1 s1 ds t s'" by auto
  have "matching_reply L q d = None" using Cons.prems(2) by simp
  then have "udp_recv_loop L N sock dest q (Suc (length ds + n)) dl now s
      = udp_recv_loop L N sock dest q (length ds + n) dl t1 s1"
    using r(1) by (auto simp: io_bind_def matching_reply_def dest!: take_response_other
      split: sum.splits if_splits)
  with Cons.IH [OF r(2)] Cons.prems(2) show ?case by simp
qed simp

lemma udp_recv_loop_takes:
  assumes "io_await N (nt_udp_recv N sock) dl now s = (Done (Inr d), t, s')" "matching_reply L q d = Some r"
  shows "udp_recv_loop L N sock dest q (Suc n) dl now s = udp_accept L N dest q r dl t s'"
  using assms
  by (auto simp: io_bind_def matching_reply_def answers_query_def take_response_def split: sum.splits if_splits)

lemma udp_receives_snoc:
  "udp_receives N sock dl now s (ds @ [d]) t s' \<longleftrightarrow>
     (\<exists>t1 s1. udp_receives N sock dl now s ds t1 s1
       \<and> io_await N (nt_udp_recv N sock) dl t1 s1 = (Done (Inr d), t, s'))"
  by (induction ds arbitrary: now s) auto

lemma udp_exchange_outcome:
  assumes "udp_sent L N dest q dl now s sock t0 s0" "udp_receives N sock dl t0 s0 ds t s'"
    and "\<forall>d \<in> set ds. matching_reply L q d = None" "length ds + n = 4"
  shows "udp_exchange_addr L N dest q dl now s = udp_recv_loop L N sock dest q n dl t s'"
  using udp_recv_loop_skips [OF assms(2,3), of dest n] udp_exchange_sent [OF assms(1)] assms(4) by simp

text \<open>
  C29. A UDP exchange binds a socket of the destination's family, connects it, sends the query and
  looks at no more than four datagrams, as they arrive. It takes the first that answers the query, when
  no more than three came before it: undecodable ones and forged ones with another identifier, opcode or
  question are skipped. A reply that is not truncated is the result; a truncated one is asked for again
  over TCP. Four datagrams that do not answer end the exchange with an error, and so does a receive that
  fails or does not end in time.
\<close>
theorem udp_takes_first_match:
  assumes "udp_sent L N dest q dl now s sock t0 s0" "udp_receives N sock dl t0 s0 ds t s'"
    and "\<forall>d \<in> set ds. matching_reply L q d = None"
  shows "(length ds = 4 \<longrightarrow> udp_exchange_addr L N dest q dl now s
        = (Done (Inl (ProtocolErr ''no matching udp response'')), t, s'))
    \<and> (\<forall>d r t1 s1. length ds < 4 \<longrightarrow> io_await N (nt_udp_recv N sock) dl t s' = (Done (Inr d), t1, s1) \<longrightarrow>
        matching_reply L q d = Some r \<longrightarrow>
        udp_exchange_addr L N dest q dl now s = udp_accept L N dest q r dl t1 s1
          \<and> (\<not> m_tc r \<longrightarrow> udp_exchange_addr L N dest q dl now s = (Done (Inr r), t1, s1)))
    \<and> (\<forall>e t1 s1. length ds < 4 \<longrightarrow> io_await N (nt_udp_recv N sock) dl t s' = (Done (Inl e), t1, s1) \<longrightarrow>
        udp_exchange_addr L N dest q dl now s = (Done (Inl e), t1, s1))
    \<and> (\<forall>t1 s1. length ds < 4 \<longrightarrow> io_await N (nt_udp_recv N sock) dl t s' = (Late, t1, s1) \<longrightarrow>
        udp_exchange_addr L N dest q dl now s = (Late, t1, s1))"
proof -
  note out = udp_exchange_outcome [OF assms]
  have more: "\<exists>n. udp_exchange_addr L N dest q dl now s = udp_recv_loop L N sock dest q (Suc n) dl t s'"
    if "length ds < 4"
    using out [of "Suc (3 - length ds)"] that by auto
  have "udp_exchange_addr L N dest q dl now s = udp_accept L N dest q r dl t1 s1"
    if "length ds < 4" "io_await N (nt_udp_recv N sock) dl t s' = (Done (Inr d), t1, s1)"
      "matching_reply L q d = Some r" for d r t1 s1
    using more [OF that(1)] udp_recv_loop_takes [OF that(2,3)] by metis
  moreover have "udp_exchange_addr L N dest q dl now s = (Done (Inl e), t1, s1)"
    if "length ds < 4" "io_await N (nt_udp_recv N sock) dl t s' = (Done (Inl e), t1, s1)" for e t1 s1
    using more [OF that(1)] that(2) by (auto simp: io_bind_def)
  moreover have "udp_exchange_addr L N dest q dl now s = (Late, t1, s1)"
    if "length ds < 4" "io_await N (nt_udp_recv N sock) dl t s' = (Late, t1, s1)" for t1 s1
    using more [OF that(1)] that(2) by (auto simp: io_bind_def)
  moreover have "udp_accept L N dest q r dl t1 s1 = (Done (Inr r), t1, s1)" if "\<not> m_tc r" for r t1 s1
    using that by (simp add: udp_accept_def io_res_def)
  ultimately show ?thesis using out [of 0] by (simp add: io_res_def)
qed

end
