(* ===== verification/Upstream_Witnesses.thy ===== *)
theory Upstream_Witnesses
  imports Upstream_Laws
begin

text \<open>
  A concrete network at which the properties of upstreams with hypotheses are applied: what is sent
  on a UDP socket arrives on it as the answer to its question.
\<close>

definition echo_query :: "record_type \<Rightarrow> string message" where
  "echo_query t = message_new\<lparr>m_rd := True,
     m_queries := [\<lparr>q_name = ''r.test.'', q_type = t, q_class = ClassIN\<rparr>]\<rparr>"

definition echo_reply :: "record_type \<Rightarrow> string message" where
  "echo_reply t = message_new\<lparr>m_type := MtResponse,
     m_queries := [\<lparr>q_name = ''r.test.'', q_type = t, q_class = ClassIN\<rparr>],
     m_answers := [if t = RtA then record_a ''r.test.'' 60 5 else record_aaaa ''r.test.'' 60 6]\<rparr>"

definition echo_lib :: "string lib" where
  "echo_lib = demo_lib\<lparr>
     wire_encode := (\<lambda>m. Some [ucast (q_type (hd (m_queries m)))]),
     wire_decode := (\<lambda>b. case b of [t] \<Rightarrow> Some (echo_reply (ucast t)) | _ \<Rightarrow> None)\<rparr>"

definition echo_net :: "(unit, u8 list list) netops" where
  "echo_net = \<lparr>nt_other = (\<lambda>t s. s), nt_random = (\<lambda>w. (0, w)),
     nt_udp_bind = (\<lambda>_ now w. (now, Inr (), w)), nt_udp_connect = (\<lambda>_ _ now w. (now, Inr (), w)),
     nt_udp_send = (\<lambda>_ b now w. (now + 1, Inr (), [b])),
     nt_udp_recv = (\<lambda>_ now w. case w of [] \<Rightarrow> (now + nanos 9, Inl (IoErr []), [])
        | d # ds \<Rightarrow> (now, Inr d, ds)),
     nt_tcp_connect = (\<lambda>_ now w. (now + 1, Inr (), w)), nt_nodelay = (\<lambda>_. Inr ()),
     nt_server_name = (\<lambda>_. Inr ()), nt_tls_connect = (\<lambda>_ _ now w. (now, Inr (), w)),
     nt_write = (\<lambda>_ b now w. (now, Inr (), w @ [b])), nt_flush = (\<lambda>_ now w. (now, Inr (), w)),
     nt_read = (\<lambda>_ n now w. case w of [] \<Rightarrow> (now, Inl (IoErr []), []) | d # ds \<Rightarrow> (now, Inr d, ds)),
     nt_post = (\<lambda>_ _ now w. (now, Inl (OtherErr []), w)), nt_body = (\<lambda>_ now w. (now, Inl (OtherErr []), w)),
     nt_lookup_host = (\<lambda>_ _ now w. (now, Inr [], w)), nt_lookup_target = (\<lambda>_ now w. (now, Inr [], w))\<rparr>"

definition echo_spec :: "string \<Rightarrow> upstream_spec" where
  "echo_spec a = \<lparr>us_addr = a, us_dial_addr = None, us_bootstrap = None, us_idle_timeout = nanos 10,
     us_insecure = False, us_tag = None\<rparr>"

definition echo_state :: "(unit, u8 list list) ustate" where
  "echo_state = \<lparr>u_dest = Some (socket_addr_new (V4 9) 53), u_pool = None, u_cache = [], u_net = []\<rparr>"

definition echo_up :: upstream where
  "echo_up = \<lparr>up_spec = echo_spec ''192.0.2.1'', up_kind = KUdp ''192.0.2.1:53'', up_http = False,
     up_resolver = None, up_tls = False\<rparr>"

lemmas echo_defs = echo_net_def echo_lib_def echo_query_def echo_reply_def echo_spec_def
  echo_state_def echo_up_def io_bind_def io_res_def io_await_def Let_def

lemma echo_others: "others_keep R echo_net \<longleftrightarrow> (\<forall>s. R s s)"
  by (simp add: others_keep_def echo_net_def)

lemma udp_recv_loop_4:
  "udp_recv_loop L N sock dest q 4 =
     io_bind (io_await N (nt_udp_recv N sock)) (\<lambda>buf.
     case dns_decode L buf of
       Inl e \<Rightarrow> udp_recv_loop L N sock dest q 3
     | Inr resp \<Rightarrow>
         (case take_response L q resp of
            Inl e \<Rightarrow> udp_recv_loop L N sock dest q 3
          | Inr reply \<Rightarrow> udp_accept L N dest q reply))"
proof -
  have "(4 :: nat) = Suc 3" by simp
  then show ?thesis by (simp only: udp_recv_loop.simps)
qed

lemma echo_answers:
  assumes "t = RtA \<or> t = RtAAAA" "now + 1 \<le> dl"
  shows "udp_exchange_addr echo_lib echo_net dest (echo_query t) dl now s
    = (Done (Inr (echo_reply t)), now + 1, s\<lparr>u_net := []\<rparr>)"
  using assms
  by (auto simp: udp_exchange_addr_def udp_recv_loop_4 echo_defs dns_encode_def dns_decode_def
      take_response_def queries_eq_def query_eq_def demo_lib_def message_new_def udp_accept_def)

lemma echo_exchange:
  "upstream_exchange echo_lib echo_net echo_up (echo_query RtA) (nanos 1) (nanos 5) 0 echo_state
    = (Done (Inr (echo_reply RtA)), 1, echo_state)"
  by (simp add: upstream_exchange_def io_timeout_def exchange_inner_def echo_up_def cached_dest_def
      echo_state_def io_map_err_def echo_answers Let_def io_bind_def io_res_def)

lemma exchange_reply_matches_witness:
  "upstream_exchange echo_lib echo_net echo_up (echo_query RtA) (nanos 1) (nanos 5) 0 echo_state
      = (Done (Inr (echo_reply RtA)), 1, echo_state)
    \<and> m_type (echo_reply RtA) = MtResponse \<and> \<not> m_tc (echo_reply RtA)"
  using exchange_reply_matches [OF echo_exchange] echo_exchange by (simp add: echo_up_def)

lemma exchange_in_time_witness:
  "\<exists>r t s'. upstream_exchange echo_lib echo_net echo_up (echo_query RtA) (nanos 1) (nanos 5) 0 echo_state
      = (Done r, t, s') \<and> t \<le> nanos 1"
  using exchange_in_time [of 0 "nanos 1" "nanos 5" echo_lib echo_net echo_up "echo_query RtA" echo_state]
  by auto

lemma tcp_connects:
  "\<exists>up (s0 :: (unit, u8 list list) ustate).
    upstream_connect (\<lambda>_. Inr ()) (\<lambda>_. Inr ()) [] (echo_spec ''tcp://192.0.2.1'') = Inr (up, s0)
    \<and> up_kind up = KTcp ''192.0.2.1:53''"
proof -
  have "normalize_hostport ''192.0.2.1'' 53 = ''192.0.2.1:53''"
    by (simp add: endpoint_eval ip_parse_eval show_word_def show_nat_def show_radix_numeral
        char_of_def bit_0)
  then have "connect_kind (echo_spec ''tcp://192.0.2.1'') = Inr (KTcp ''192.0.2.1:53'')"
    by (simp add: connect_kind_def echo_spec_def trim_def trim_end_by_def trim_start_def
        trim_start_by_def is_ws_def split_scheme_def Let_def)
  then show ?thesis by (simp add: upstream_connect_def Let_def)
qed

lemma pool_stays_bounded_witness:
  "\<exists>up s0 x t s p. upstream_connect (\<lambda>_. Inr ()) (\<lambda>_. Inr ()) [] (echo_spec ''tcp://192.0.2.1'') = Inr (up, s0)
    \<and> upstream_exchange echo_lib echo_net up (echo_query RtA) (nanos 1) (nanos 5) 0 s0 = (x, t, s)
    \<and> u_pool s = Some p \<and> length (sp_slots p) \<le> 8"
proof -
  obtain up and s0 :: "(unit, u8 list list) ustate" where c: "upstream_connect (\<lambda>_. Inr ()) (\<lambda>_. Inr ()) [] (echo_spec ''tcp://192.0.2.1'')
      = Inr (up, s0)" "up_kind up = KTcp ''192.0.2.1:53''"
    using tcp_connects by blast
  obtain x t s where e: "upstream_exchange echo_lib echo_net up (echo_query RtA) (nanos 1) (nanos 5) 0 s0
      = (x, t, s)"
    by (metis prod.exhaust)
  have "others_keep pool_bound echo_net" by (simp add: echo_others pooled.refl)
  from pool_stays_bounded [OF c(1) this upstream_reach.exchange [OF upstream_reach.start e]] c e
  show ?thesis by (auto split: option.splits)
qed

lemma destination_settled_witness:
  "\<exists>s' x t s''. cached_dest echo_lib echo_net (echo_spec ''192.0.2.1'') ''192.0.2.1:53'' 0 0 0
        (echo_state\<lparr>u_dest := None\<rparr>) = (Done (Inr (socket_addr_new (V4 3221225985) 53)), 0, s')
    \<and> upstream_exchange echo_lib echo_net echo_up (echo_query RtA) (nanos 1) (nanos 5) 0 s' = (x, t, s'')
    \<and> cached_dest echo_lib echo_net (echo_spec ''192.0.2.1'') ''192.0.2.1:53'' 0 7 7 s''
        = (Done (Inr (socket_addr_new (V4 3221225985) 53)), 7, s'')"
proof -
  let ?d = "socket_addr_new (V4 3221225985) 53"
  let ?s = "echo_state\<lparr>u_dest := Some ?d\<rparr>"
  have 1: "cached_dest echo_lib echo_net (echo_spec ''192.0.2.1'') ''192.0.2.1:53'' 0 0 0
      (echo_state\<lparr>u_dest := None\<rparr>) = (Done (Inr ?d), 0, ?s)"
    by (simp add: cached_dest_def resolve_spec_def echo_spec_def endpoint_eval ip_parse_eval io_bind_def
        io_res_def get_or_init_def)
  obtain x t s'' where e: "upstream_exchange echo_lib echo_net echo_up (echo_query RtA) (nanos 1) (nanos 5) 0 ?s
      = (x, t, s'')"
    by (metis prod.exhaust)
  have "others_keep dest_stable echo_net" by (simp add: echo_others settled.refl)
  from destination_settled [OF 1 this upstream_reach.exchange [OF upstream_reach.start e]] 1 e
  show ?thesis by blast
qed

lemma literal_needs_no_lookup_witness:
  "resolve_spec echo_lib echo_net (echo_spec ''192.0.2.1'') (normalize_hostport ''192.0.2.1'' 53) 0 9 3 echo_state
    = (Done (Inr (socket_addr_new (V4 3221225985) 53)), 3, echo_state)"
proof -
  have "parse_ipaddr ''192.0.2.1'' = Some (V4 3221225985)" by (simp add: ip_parse_eval)
  from literal_needs_no_lookup [OF this, of "echo_spec ''192.0.2.1''" "\<lparr>pr_pins = [], pr_bootstrap = None\<rparr>"
      echo_lib echo_net 53 0 9 3 echo_state]
  show ?thesis by (simp add: echo_spec_def)
qed

lemma echo_lookup:
  assumes "t = RtA \<or> t = RtAAAA" "now + nanos 1 \<le> dl"
  shows "\<exists>ips. ips \<noteq> [] \<and> bootstrap_lookup echo_lib echo_net b ''r.test'' (nanos 1) t dl now s
    = (Done (Inr (Inr (Some ips))), now + 1, s\<lparr>u_net := []\<rparr>)"
proof -
  have q: "build_query echo_lib 0 ''r.test.'' t = Inr (echo_query t)"
    by (simp add: build_query_def echo_lib_def demo_lib_def echo_query_def message_new_def)
  have r: "io_random echo_net d n s = (Done (Inr 0), n, s)" for d n s
    by (simp add: io_random_def echo_net_def)
  have m: "min dl (now + min 1000000000 bootstrap_query_timeout) = now + 1000000000"
    using assms(2) by (simp add: bootstrap_query_timeout_def)
  have "bootstrap_query echo_lib echo_net b ''r.test'' t (now + nanos 1) now s
      = (Done (Inr (List.map_filter (\<lambda>r. rdata_ip (rr_data r)) (m_answers (echo_reply t)))), now + 1, s\<lparr>u_net := []\<rparr>)"
    using echo_answers [OF assms(1), of now "now + nanos 1"]
    by (simp add: bootstrap_query_def Let_def io_bind_def r io_map_err_def io_res_def q)
  moreover have "List.map_filter (\<lambda>r. rdata_ip (rr_data r)) (m_answers (echo_reply t)) \<noteq> []"
    by (simp add: echo_reply_def record_a_def record_aaaa_def map_filter_simps)
  ultimately show ?thesis by (simp add: bootstrap_lookup_def io_attempt_def io_timeout_def m)
qed

lemma bootstrap_prefers_ipv4_witness:
  "\<exists>ips t s'. bootstrap_ips echo_lib echo_net ''192.0.2.1'' ''r.test.'' (nanos 1) (nanos 5) 0 echo_state
      = (Done (Inr ips), t, s') \<and> ips = filter is_ipv4 ips @ filter (\<lambda>a. \<not> is_ipv4 a) ips"
proof -
  have b: "bootstrap_socket ''192.0.2.1'' = Inr (socket_addr_new (V4 3221225985) 53)"
    by (simp add: bootstrap_socket_def parse_ip_port_def Let_def trim_def trim_end_by_def trim_start_def
        trim_start_by_def is_ws_def parse_socket_addr_def read_socket_v4_def read_socket_v6_def
        read_port_def ip_parse_eval)
  have h: "trim_end_matches (CHR ''.'') ''r.test.'' = ''r.test''"
    by (simp add: trim_end_matches_def trim_end_by_def)
  let ?l = "bootstrap_lookup echo_lib echo_net (socket_addr_new (V4 3221225985) 53) ''r.test'' (nanos 1)"
  obtain xa where xa: "xa \<noteq> []"
    "?l RtA (nanos 5) 0 echo_state = (Done (Inr (Inr (Some xa))), 0 + 1, echo_state\<lparr>u_net := []\<rparr>)"
    using echo_lookup [of RtA 0 "nanos 5"] by auto
  obtain xb where xb: "xb \<noteq> []"
    "?l RtAAAA (nanos 5) 0 (echo_state\<lparr>u_net := []\<rparr>)
       = (Done (Inr (Inr (Some xb))), 0 + 1, echo_state\<lparr>u_net := []\<rparr>)"
    using echo_lookup [of RtAAAA 0 "nanos 5" _ "echo_state\<lparr>u_net := []\<rparr>"] by auto
  from bootstrap_prefers_ipv4 [OF b, of echo_lib echo_net "''r.test.''" "nanos 1" "nanos 5" 0 echo_state]
    xa xb show ?thesis
    unfolding h by (fastforce simp: found_ips_def)
qed

definition noisy_net :: "(unit, u8 list list) netops" where
  \<comment> \<open>before the answer come an empty datagram and the answer to another question\<close>
  "noisy_net = echo_net\<lparr>nt_udp_send := (\<lambda>_ b now w. (now + 1, Inr (), [[], [28], b]))\<rparr>"

lemma udp_takes_first_match_witness:
  "udp_exchange_addr echo_lib noisy_net (socket_addr_new (V4 9) 53) (echo_query RtA) 5 0 echo_state
    = (Done (Inr (echo_reply RtA)), 1, echo_state)"
proof -
  have sent: "udp_sent echo_lib noisy_net (socket_addr_new (V4 9) 53) (echo_query RtA) 5 0 echo_state () 1
      (echo_state\<lparr>u_net := [[], [28], [1]]\<rparr>)"
    by (simp add: udp_sent_def noisy_net_def echo_defs dns_encode_def)
  have got: "udp_receives noisy_net () 5 1 (echo_state\<lparr>u_net := [[], [28], [1]]\<rparr>) [[], [28]] 1
      (echo_state\<lparr>u_net := [[1]]\<rparr>)"
    by (simp add: noisy_net_def echo_defs)
  have none: "\<forall>d \<in> set [[], [28]]. matching_reply echo_lib (echo_query RtA) d = None"
    and some: "matching_reply echo_lib (echo_query RtA) [1] = Some (echo_reply RtA)"
    by (simp_all add: matching_reply_def dns_decode_def echo_lib_def answers_query_def echo_query_def
        echo_reply_def queries_eq_def query_eq_def demo_lib_def message_new_def)
  have recv: "io_await noisy_net (nt_udp_recv noisy_net ()) 5 1 (echo_state\<lparr>u_net := [[1]]\<rparr>)
      = (Done (Inr [1]), 1, echo_state)"
    by (simp add: noisy_net_def echo_defs)
  have tc: "\<not> m_tc (echo_reply RtA)" by (simp add: echo_reply_def message_new_def)
  have len: "length [[], [28] :: u8 list] < 4" by simp
  from udp_takes_first_match [OF sent got none] len recv some tc show ?thesis by blast
qed

end
