(* ===== verification/Network_Witnesses.thy ===== *)
theory Network_Witnesses
  imports Answer_Laws Session_Laws Upstream_Witnesses Service_Witnesses
begin

text \<open>
  The properties of requests over the network and of timed sessions, applied at the concrete network
  of \<open>Upstream_Witnesses\<close> and the concrete service of \<open>Service_Witnesses\<close>.
\<close>

definition echo_forward :: forward where
  "echo_forward = \<lparr>fw_tag = ''up'', fw_upstreams = [echo_up], fw_concurrent = 1, fw_timeout_ms = 1000\<rparr>"

definition echo_registry :: "string registry" where
  "echo_registry = \<lparr>rg_execs = [(''up'', PlForward echo_forward)], rg_sets = \<lparr>rg_domains = [], rg_ips = []\<rparr>,
     rg_default_entry = Some ''up''\<rparr>"

definition echo_env :: "string env" where
  "echo_env = \<lparr>en_lib = echo_lib, en_reg = echo_registry, en_other = (\<lambda>_ w. w),
     en_exchange = net_exchange echo_lib echo_registry echo_net (\<lambda>_ _ _. echo_state)\<rparr>"

lemma echo_outcome:
  "outcome_of echo_lib echo_net (\<lambda>_ _ _. echo_state) k tag echo_forward 0 (echo_query RtA) 0
     = (1, Inr (echo_reply RtA))"
  by (simp add: outcome_of_def upstream_outcome_def upstream_exchange_def io_timeout_def exchange_inner_def
      echo_up_def cached_dest_def echo_state_def io_map_err_def echo_answers Let_def io_bind_def io_res_def
      echo_forward_def forward_limit_def)

lemma forward_entry_answers_witness:
  "\<exists>c' w' r. handle echo_env ''up'' (ctx_new 0 0 (echo_query RtA) None PUdp) (nanos 5) demo_world
      = (Inr (Inr ()), c', w') \<and> w_now w' \<le> nanos 1 \<and> c_response c' = Some r
    \<and> m_answers r = [record_a ''r.test.'' 60 5] \<and> m_id r = 0"
proof -
  let ?st = "\<lambda>_ _ _. echo_state"
  obtain x c' w' where h: "handle echo_env ''up'' (ctx_new 0 0 (echo_query RtA) None PUdp) (nanos 5) demo_world
      = (x, c', w')" by (metis prod.exhaust)
  let ?w1 = "meet_others echo_env demo_world"
  have n: "networked echo_env echo_net ?st" by (simp add: networked_def echo_env_def)
  have e: "get_exec ''up'' (en_reg echo_env) = Inr (PlForward echo_forward)"
    by (simp add: echo_env_def echo_registry_def get_exec_def)
  have q: "classify_incoming (echo_query RtA) = Process"
    by (simp add: classify_incoming_def echo_query_def message_new_def)
  have w: "w_now ?w1 = 0" "en_lib echo_env = echo_lib" "w_now demo_world = 0"
    by (simp_all add: meet_others_def echo_env_def demo_world_def Let_def)
  have l: "forward_limit echo_forward = nanos 1" "race_width echo_forward = 1"
    by (simp_all add: forward_limit_def echo_forward_def race_width_def)
  have a: "m_answers (echo_reply RtA) = [record_a ''r.test.'' 60 5]" "m_id (echo_query RtA) = 0"
    by (simp_all add: echo_reply_def echo_query_def message_new_def)
  from forward_entry_answers [OF n e q refl _ h] have *: "x = Inr (Inr ())" "w_now w' \<le> nanos 1"
    "case c_response c' of None \<Rightarrow> False | Some r \<Rightarrow> m_answers r = [record_a ''r.test.'' 60 5] \<and> m_id r = 0"
    by (auto simp: w l a echo_outcome split: option.splits)
  with h show ?thesis by (cases "c_response c'") auto
qed

section \<open>Sessions\<close>

definition chatty_net :: "string session_net" where
  \<comment> \<open>a peer that takes a second to read a reply and then stays silent\<close>
  "chatty_net = \<lparr>sn_end = None, sn_write = (\<lambda>t out. (Some (t + nanos 1), 0, Inr ())),
     sn_live = (\<lambda>t w. (status_env, w))\<rparr>"

lemma session_sends_replies_witness:
  "\<exists>out r w' asked. serve_session chatty_net ''main'' 0 (nanos 10) PTcp None (map (Pair 3) (framed [2])) demo_world
      = (out, r, w') \<and> list_all2 (frame_answers (en_lib status_env)) (read_frames out) asked
    \<and> subseq asked [[2]]"
proof -
  obtain out r w' where s: "serve_session chatty_net ''main'' 0 (nanos 10) PTcp None (map (Pair 3) (framed [2]))
      demo_world = (out, r, w')" by (metis prod.exhaust)
  have 1: "en_lib (fst (sn_live chatty_net t w)) = en_lib status_env" for t w by (simp add: chatty_net_def)
  have 2: "wire_encode (en_lib status_env) m = Some b \<Longrightarrow> b \<noteq> []" for m b
    by (auto simp: status_env_def demo_env_def)
  have 3: "read_frames (map snd (map (Pair (3 :: nat)) (framed [2]))) = [[2]]"
    using read_frames_concat [of "[[2]]"] by (simp add: comp_def)
  have "\<exists>asked. subseq asked (read_frames (map snd (map (Pair (3 :: nat)) (framed [2]))))
    \<and> list_all2 (frame_answers (en_lib status_env)) (read_frames out) asked
    \<and> (r = Inr () \<longrightarrow> out = concat (map framed (read_frames out)))"
    by (rule session_sends_replies [OF 1 _ s]) (rule 2)
  with s show ?thesis unfolding 3 by blast
qed

lemma session_ends_in_time_witness:
  "\<exists>rt out r w'. build demo_lib demo_platform service_config = Inr rt
    \<and> serve_session \<lparr>sn_end = None, sn_write = (\<lambda>t out. (None, 0, Inr ())),
         sn_live = (\<lambda>t w. (demo_env\<lparr>en_reg := rt_registry rt\<rparr>, w))\<rparr>
       ''b'' (nanos 5) (nanos 10) PTcp None (map (Pair 3) (framed [1])) demo_world = (out, r, w')
    \<and> w_now w' \<le> nanos 70"
proof -
  obtain rt where rt: "build demo_lib demo_platform service_config = Inr rt" using service_build by blast
  let ?env = "demo_env\<lparr>en_reg := rt_registry rt\<rparr>"
  let ?net = "\<lparr>sn_end = None, sn_write = (\<lambda>t out. (None, 0, Inr ())), sn_live = (\<lambda>t w. (?env, w))\<rparr> :: string session_net"
  have "calm ?env T'" for T' by (simp add: calm_def demo_env_def)
  moreover have "en_lib ?env = demo_lib" by (simp add: demo_env_def)
  ultimately have "steady demo_lib (nanos 100) ?net"
    using rt by (auto simp: steady_def safe_world_def intro!: exI [of _ demo_platform] exI [of _ service_config] exI [of _ rt])
  moreover have "safe_world demo_env (nanos 100) demo_world" by (simp add: safe_world_def demo_world_def)
  moreover have "en_lib demo_env = demo_lib" by (simp add: demo_env_def)
  moreover have "1 = length (read_frames (map snd (map (Pair (3 :: nat)) (framed [1]))))"
    using read_frames_concat [of "[[1]]"] by (simp add: comp_def)
  moreover have "w_now demo_world + Suc 1 * (3 * nanos 10 + nanos 5) \<le> nanos 100" by (simp add: demo_world_def)
  ultimately have "\<exists>out r w'. serve_session ?net ''b'' (nanos 5) (nanos 10) PTcp None (map (Pair 3) (framed [1])) demo_world
      = (out, r, w') \<and> w_now w' \<le> w_now demo_world + Suc 1 * (3 * nanos 10 + nanos 5)"
    by (rule session_ends_in_time)
  then show ?thesis using rt by (auto simp: demo_world_def)
qed

end
