(* ===== verification/Accept.thy ===== *)
theory Accept
  imports Listeners "HOL-Library.Multiset"
begin

text \<open>
  The accept loops of \<^verbatim>\<open>src/server.rs\<close> as step relations over time: \<open>spawn_tcp\<close>, where each
  TLS handshake is a task of its own that holds a permit, and \<open>TlsIncoming::accept\<close>, where the
  handshakes of the HTTPS listener are polled by the loop itself. A connection is a number.

  In both, time passes only as far as no timer is due, since a due timer is served first. The HTTPS
  loop serves none while it sleeps after a failed \<open>accept\<close>, so its timers can be late by that much.
\<close>

definition max_tls_handshakes :: nat where
  "max_tls_handshakes = 128"

definition accept_pause :: nat where
  \<comment> \<open>50 milliseconds\<close>
  "accept_pause = 50000000"

type_synonym handshakes = "(nat \<times> instant) list"
  \<comment> \<open>connections with the instants at which their handshakes time out\<close>

section \<open>The stream listener\<close>

record stream_state =
  ss_now :: instant
  ss_handshakes :: handshakes
  ss_sessions :: "nat list"
  ss_failed :: "nat list"
  ss_refused :: "nat list"

definition stream_start :: "instant \<Rightarrow> stream_state" where
  "stream_start now = \<lparr>ss_now = now, ss_handshakes = [], ss_sessions = [], ss_failed = [], ss_refused = []\<rparr>"

definition stream_accept :: "bool \<Rightarrow> nat \<Rightarrow> nat \<Rightarrow> stream_state \<Rightarrow> stream_state" where
  \<comment> \<open>what the loop does with an accepted connection; it is dropped when no permit is free\<close>
  "stream_accept tls limit c s =
     (if \<not> tls then s\<lparr>ss_sessions := ss_sessions s @ [c]\<rparr>
      else if length (ss_handshakes s) < max_tls_handshakes
      then s\<lparr>ss_handshakes := ss_handshakes s @ [(c, ss_now s + limit)]\<rparr>
      else s\<lparr>ss_refused := ss_refused s @ [c]\<rparr>)"

definition stream_done :: "nat \<Rightarrow> instant \<Rightarrow> bool \<Rightarrow> stream_state \<Rightarrow> stream_state" where
  \<comment> \<open>the task of a connection after its handshake; the permit is given back in either case\<close>
  "stream_done c d ok s =
     (let s' = s\<lparr>ss_handshakes := remove1 (c, d) (ss_handshakes s)\<rparr> in
      if ok then s'\<lparr>ss_sessions := ss_sessions s @ [c]\<rparr> else s'\<lparr>ss_failed := ss_failed s @ [c]\<rparr>)"

inductive stream_step ::
    "bool \<Rightarrow> nat \<Rightarrow> nat option \<Rightarrow> stream_state \<Rightarrow> stream_state \<Rightarrow> bool" for tls limit where
  \<comment> \<open>a step is labelled with the connection it accepts\<close>
  accept: "stream_step tls limit (Some c) s (stream_accept tls limit c s)"
| accept_error: "stream_step tls limit None s s"
| handshake: "(c, d) \<in> set (ss_handshakes s) \<Longrightarrow> stream_step tls limit None s (stream_done c d ok s)"
| expire: "(c, d) \<in> set (ss_handshakes s) \<Longrightarrow> d \<le> ss_now s \<Longrightarrow>
    stream_step tls limit None s (stream_done c d False s)"
| pass: "ss_now s \<le> t \<Longrightarrow> list_all (\<lambda>(c, d). t \<le> d) (ss_handshakes s) \<Longrightarrow>
    stream_step tls limit None s (s\<lparr>ss_now := t\<rparr>)"

section \<open>The HTTPS listener\<close>

record https_state =
  hs_now :: instant
  hs_sleep :: instant
  hs_pending :: handshakes
  hs_ready :: "((nat \<times> instant) \<times> bool) list"
  hs_sessions :: "nat list"
  hs_failed :: "nat list"
  hs_refused :: "nat list"

definition https_start :: "instant \<Rightarrow> https_state" where
  "https_start now = \<lparr>hs_now = now, hs_sleep = now, hs_pending = [], hs_ready = [], hs_sessions = [],
     hs_failed = [], hs_refused = []\<rparr>"

definition awake :: "https_state \<Rightarrow> bool" where
  "awake s \<longleftrightarrow> hs_sleep s \<le> hs_now s"

definition due :: "https_state \<Rightarrow> bool" where
  \<comment> \<open>a handshake that has ended is polled before the socket (\<open>biased\<close>), as is one whose time is over\<close>
  "due s \<longleftrightarrow> hs_ready s \<noteq> [] \<or> list_ex (\<lambda>(c, d). d < hs_now s) (hs_pending s)"

definition https_accept :: "nat \<Rightarrow> nat \<Rightarrow> https_state \<Rightarrow> https_state" where
  "https_accept limit c s =
     (if max_tls_handshakes \<le> length (hs_pending s) + length (hs_ready s)
      then s\<lparr>hs_refused := hs_refused s @ [c]\<rparr>
      else s\<lparr>hs_pending := hs_pending s @ [(c, hs_now s + limit)]\<rparr>)"

definition https_complete :: "nat \<Rightarrow> instant \<Rightarrow> bool \<Rightarrow> https_state \<Rightarrow> https_state" where
  "https_complete c d ok s = s\<lparr>hs_pending := remove1 (c, d) (hs_pending s),
     hs_ready := hs_ready s @ [((c, d), ok)]\<rparr>"

definition https_next :: "https_state \<Rightarrow> https_state" where
  \<comment> \<open>the first branch of the \<open>select\<close>: a connection is returned, an error is passed over\<close>
  "https_next s =
     (case hs_ready s of
        [] \<Rightarrow> s
      | ((c, d), ok) # rs \<Rightarrow>
          (if ok then s\<lparr>hs_ready := rs, hs_sessions := hs_sessions s @ [c]\<rparr>
           else s\<lparr>hs_ready := rs, hs_failed := hs_failed s @ [c]\<rparr>))"

inductive https_step :: "nat \<Rightarrow> nat option \<Rightarrow> https_state \<Rightarrow> https_state \<Rightarrow> bool" for limit where
  complete: "awake s \<Longrightarrow> (c, d) \<in> set (hs_pending s) \<Longrightarrow> https_step limit None s (https_complete c d ok s)"
| expire: "awake s \<Longrightarrow> (c, d) \<in> set (hs_pending s) \<Longrightarrow> d \<le> hs_now s \<Longrightarrow>
    https_step limit None s (https_complete c d False s)"
| yield: "awake s \<Longrightarrow> hs_ready s \<noteq> [] \<Longrightarrow> https_step limit None s (https_next s)"
| accept: "awake s \<Longrightarrow> \<not> due s \<Longrightarrow> https_step limit (Some c) s (https_accept limit c s)"
| accept_error: "awake s \<Longrightarrow> \<not> due s \<Longrightarrow> https_step limit None s (s\<lparr>hs_sleep := hs_now s + accept_pause\<rparr>)"
| pass: "hs_now s \<le> t \<Longrightarrow>
    (if awake s then hs_ready s = [] \<and> list_all (\<lambda>(c, d). t \<le> d) (hs_pending s) else t \<le> hs_sleep s) \<Longrightarrow>
    https_step limit None s (s\<lparr>hs_now := t\<rparr>)"

section \<open>What the loops share\<close>

inductive runs :: "('l \<Rightarrow> 's \<Rightarrow> 's \<Rightarrow> bool) \<Rightarrow> 's \<Rightarrow> 'l list \<Rightarrow> 's \<Rightarrow> bool" for step where
  runs_Nil: "runs step s [] s"
| runs_snoc: "runs step s ls s' \<Longrightarrow> step l s' s'' \<Longrightarrow> runs step s (ls @ [l]) s''"

text \<open>
  The contract of a loop with a bounded number of handshakes: an invariant under which no handshake
  is later than \<open>slack\<close> past its time limit, and no connection gets lost.
\<close>

locale handshake_loop =
  fixes step :: "nat option \<Rightarrow> 's \<Rightarrow> 's \<Rightarrow> bool" and now :: "'s \<Rightarrow> instant"
    and held :: "'s \<Rightarrow> handshakes" and settled :: "'s \<Rightarrow> nat multiset"
    and inv :: "'s \<Rightarrow> bool" and limit slack :: nat
  assumes step_inv: "inv s \<Longrightarrow> step l s s' \<Longrightarrow> inv s'"
    and step_now: "step l s s' \<Longrightarrow> now s \<le> now s'"
    and step_conns: "step l s s' \<Longrightarrow> image_mset fst (mset (held s')) + settled s' =
      image_mset fst (mset (held s)) + settled s + mset_set (set_option l)"
    and held_bound: "inv s \<Longrightarrow> length (held s) \<le> max_tls_handshakes"
    and held_time: "inv s \<Longrightarrow> (c, d) \<in> set (held s) \<Longrightarrow> now s \<le> d + slack \<and> d \<le> now s + limit"
begin

lemma run_inv: "runs step s ls s' \<Longrightarrow> inv s \<Longrightarrow> inv s'"
  by (induction rule: runs.induct) (auto intro: step_inv)

lemma run_now: "runs step s ls s' \<Longrightarrow> now s \<le> now s'"
  by (induction rule: runs.induct) (auto intro: le_trans step_now)

lemma run_conns:
  "runs step s ls s' \<Longrightarrow> image_mset fst (mset (held s')) + settled s' =
     image_mset fst (mset (held s)) + settled s + mset (List.map_filter id ls)"
proof (induction rule: runs.induct)
  case (runs_snoc s ls s' l s'')
  then show ?case using step_conns [OF runs_snoc.hyps(2)] by (cases l) (simp_all add: List.map_filter_def)
qed simp

lemma turnover:
  assumes "inv s" "runs step s ls s'" "now s + limit + slack < now s'"
  shows "set (held s) \<inter> set (held s') = {}"
proof -
  have "d + slack < now s'" if "(c, d) \<in> set (held s)" for c d
    using held_time [OF assms(1) that] assms(3) by simp
  moreover have "now s' \<le> d + slack" if "(c, d) \<in> set (held s')" for c d
    using held_time [OF run_inv [OF assms(2,1)] that] by simp
  ultimately show ?thesis by fastforce
qed

lemma contract:
  assumes "inv s0" "held s0 = []" "settled s0 = {#}" "runs step s0 ls s" "runs step s ls' s'"
  shows "length (held s) \<le> max_tls_handshakes
    \<and> image_mset fst (mset (held s)) + settled s = mset (List.map_filter id ls)
    \<and> (now s + limit + slack < now s' \<longrightarrow> set (held s) \<inter> set (held s') = {})"
proof -
  have "inv s" by (rule run_inv [OF assms(4,1)])
  with held_bound run_conns [OF assms(4)] turnover [OF _ assms(5)] assms(2,3) show ?thesis by simp
qed

end

section \<open>The stream listener keeps the contract\<close>

definition stream_inv :: "nat \<Rightarrow> stream_state \<Rightarrow> bool" where
  "stream_inv limit s \<longleftrightarrow> length (ss_handshakes s) \<le> max_tls_handshakes
     \<and> (\<forall>(c, d) \<in> set (ss_handshakes s). ss_now s \<le> d \<and> d \<le> ss_now s + limit)"

definition stream_settled :: "stream_state \<Rightarrow> nat multiset" where
  "stream_settled s = mset (ss_sessions s) + mset (ss_failed s) + mset (ss_refused s)"

lemma set_remove1_in: "x \<in> set (remove1 y xs) \<Longrightarrow> x \<in> set xs"
  using set_remove1_subset by fastforce

lemma fst_mset_remove1:
  "(c, d) \<in> set hs \<Longrightarrow> image_mset fst (mset hs) = add_mset c (image_mset fst (mset (remove1 (c, d) hs)))"
  by (metis fst_conv image_mset_add_mset insert_DiffM mset_remove1 set_mset_mset)

lemma stream_inv_done: "stream_inv limit s \<Longrightarrow> stream_inv limit (stream_done c d ok s)"
  by (auto simp: stream_inv_def stream_done_def Let_def length_remove1 dest!: set_remove1_in)

lemma stream_inv_step: "stream_step tls limit l s s' \<Longrightarrow> stream_inv limit s \<Longrightarrow> stream_inv limit s'"
proof (induction rule: stream_step.induct)
  case (accept c s)
  then show ?case by (auto simp: stream_inv_def stream_accept_def max_tls_handshakes_def)
next
  case (pass s t)
  then show ?case by (fastforce simp: stream_inv_def list_all_iff)
qed (simp_all add: stream_inv_done)

lemma stream_conns_done:
  "(c, d) \<in> set (ss_handshakes s) \<Longrightarrow>
     image_mset fst (mset (ss_handshakes (stream_done c d ok s))) + stream_settled (stream_done c d ok s)
       = image_mset fst (mset (ss_handshakes s)) + stream_settled s"
  by (simp add: stream_done_def stream_settled_def Let_def fst_mset_remove1 del: mset_remove1)

lemma stream_conns_step:
  "stream_step tls limit l s s' \<Longrightarrow>
     image_mset fst (mset (ss_handshakes s')) + stream_settled s'
       = image_mset fst (mset (ss_handshakes s)) + stream_settled s + mset_set (set_option l)"
proof (induction rule: stream_step.induct)
  case (accept c s)
  show ?case by (simp add: stream_accept_def stream_settled_def)
qed (simp_all add: stream_conns_done, simp add: stream_settled_def)

interpretation stream_loop:
  handshake_loop "stream_step tls limit" ss_now ss_handshakes stream_settled "stream_inv limit" limit 0
  for tls limit
proof
  show "stream_inv limit s'" if "stream_inv limit s" "stream_step tls limit l s s'" for s l s'
    using that by (blast intro: stream_inv_step)
  show "ss_now s \<le> ss_now s'" if "stream_step tls limit l s s'" for l s s'
    using that by cases (auto simp: stream_accept_def stream_done_def Let_def)
qed (auto simp: stream_inv_def stream_conns_step)

section \<open>The HTTPS listener keeps the contract\<close>

definition https_held :: "https_state \<Rightarrow> handshakes" where
  "https_held s = hs_pending s @ map fst (hs_ready s)"

definition https_settled :: "https_state \<Rightarrow> nat multiset" where
  "https_settled s = mset (hs_sessions s) + mset (hs_failed s) + mset (hs_refused s)"

definition https_inv :: "nat \<Rightarrow> https_state \<Rightarrow> bool" where
  \<comment> \<open>while the loop sleeps nothing is ready and no timer is later than the end of the sleep allows\<close>
  "https_inv limit s \<longleftrightarrow> length (https_held s) \<le> max_tls_handshakes
     \<and> (\<forall>(c, d) \<in> set (https_held s). max (hs_now s) (hs_sleep s) \<le> d + accept_pause \<and> d \<le> hs_now s + limit)
     \<and> (awake s \<or> hs_ready s = [])"

lemma https_inv_fewer:
  assumes "https_inv limit s" "awake s" "hs_now s' = hs_now s" "hs_sleep s' = hs_sleep s"
    and "set (https_held s') \<subseteq> set (https_held s)" "length (https_held s') \<le> length (https_held s)"
  shows "https_inv limit s'"
  using assms by (auto simp: https_inv_def awake_def)

lemma https_inv_complete:
  assumes "https_inv limit s" "awake s" "(c, d) \<in> set (hs_pending s)"
  shows "https_inv limit (https_complete c d ok s)"
  using length_pos_if_in_set [OF assms(3)] assms
  by (intro https_inv_fewer [OF assms(1,2)])
    (auto simp: https_complete_def https_held_def length_remove1 dest: set_remove1_in)

lemma https_inv_next:
  assumes "https_inv limit s" "awake s"
  shows "https_inv limit (https_next s)"
  by (rule https_inv_fewer [OF assms]) (auto simp: https_next_def https_held_def split: list.split)

lemma https_inv_step: "https_step limit l s s' \<Longrightarrow> https_inv limit s \<Longrightarrow> https_inv limit s'"
proof (induction rule: https_step.induct)
  case (accept s c)
  then show ?case
    by (auto simp: https_inv_def https_accept_def https_held_def awake_def max_tls_handshakes_def)
next
  case (accept_error s)
  then show ?case by (fastforce simp: https_inv_def https_held_def awake_def due_def list_ex_iff not_less)
next
  case (pass s t)
  then show ?case
    by (fastforce simp: https_inv_def https_held_def awake_def list_all_iff split: if_splits)
qed (simp_all add: https_inv_complete https_inv_next)

lemma https_conns_step:
  "https_step limit l s s' \<Longrightarrow>
     image_mset fst (mset (https_held s')) + https_settled s'
       = image_mset fst (mset (https_held s)) + https_settled s + mset_set (set_option l)"
proof (induction rule: https_step.induct)
  case (accept s c)
  show ?case by (simp add: https_accept_def https_settled_def https_held_def)
next
  case (yield s)
  show ?case by (auto simp: https_next_def https_settled_def https_held_def split: list.split)
qed (simp_all add: https_complete_def https_settled_def https_held_def fst_mset_remove1 del: mset_remove1)

interpretation https_loop:
  handshake_loop "https_step limit" hs_now https_held https_settled "https_inv limit" limit accept_pause
  for limit
proof
  show "https_inv limit s'" if "https_inv limit s" "https_step limit l s s'" for s l s'
    using that by (blast intro: https_inv_step)
  show "hs_now s \<le> hs_now s'" if "https_step limit l s s'" for l s s'
    using that by cases (auto simp: https_accept_def https_complete_def https_next_def split: list.split)
qed (auto simp: https_inv_def https_conns_step)

end
