(* ===== verification/Accept_Laws.thy ===== *)
theory Accept_Laws
  imports Accept
begin

text \<open>
  What the accept loops promise under any flood of connections: a bounded number of handshakes, none
  of which lasts longer than its time limit, and no connection that is forgotten.
\<close>

abbreviation handshake_limit :: "listener_config \<Rightarrow> nat" where
  "handshake_limit l \<equiv> min (listener_idle l) tls_handshake_timeout"

lemma handshake_limit_le: "handshake_limit l \<le> nanos 10"
  by (simp add: tls_handshake_timeout_def)

text \<open>
  C17. However many connections a TCP or TLS listener gets, and however they behave, at most 128 TLS
  handshakes are under way. Every connection accepted so far is in a handshake, in a session, or was
  closed after a failed handshake or for want of a free slot. No handshake under way at some point is
  still under way more than ten seconds later, so stalled peers cannot keep the slots.
\<close>
theorem stream_listener_never_starves:
  assumes "runs (stream_step tls (handshake_limit l)) (stream_start now) ls s"
    and "runs (stream_step tls (handshake_limit l)) s ls' s'"
  shows "length (ss_handshakes s) \<le> 128
    \<and> image_mset fst (mset (ss_handshakes s)) + mset (ss_sessions s) + mset (ss_failed s) + mset (ss_refused s)
        = mset (List.map_filter id ls)
    \<and> (ss_now s + nanos 10 < ss_now s' \<longrightarrow> set (ss_handshakes s) \<inter> set (ss_handshakes s') = {})"
  using stream_loop.contract [OF _ _ _ assms] handshake_limit_le [of l]
  by (simp add: stream_inv_def stream_start_def stream_settled_def max_tls_handshakes_def add_ac)

definition tls_listener :: listener_config where
  "tls_listener = \<lparr>li_protocol = ''tls'', li_addr = ''127.0.0.1:853'', li_cert = Some ''c'', li_key = Some ''k'',
     li_url_path = None, li_idle_timeout = None, li_workers = None\<rparr>"

lemma tls_listener_limit: "handshake_limit tls_listener = nanos 10"
  by (simp add: tls_listener_def listener_idle_def tls_handshake_timeout_def)

lemma stream_listener_never_starves_witness:
  "\<exists>s s'. runs (stream_step True (handshake_limit tls_listener)) (stream_start 0) [Some 7] s
     \<and> runs (stream_step True (handshake_limit tls_listener)) s [None, None, None] s'
     \<and> map fst (ss_handshakes s) = [7] \<and> nanos 10 < ss_now s'
     \<and> set (ss_handshakes s) \<inter> set (ss_handshakes s') = {}"
proof -
  let ?step = "stream_step True (handshake_limit tls_listener)"
  let ?s = "stream_accept True (nanos 10) 7 (stream_start 0)"
  let ?s1 = "?s\<lparr>ss_now := nanos 10\<rparr>" and ?s2 = "stream_done 7 (nanos 10) False (?s\<lparr>ss_now := nanos 10\<rparr>)"
  let ?s3 = "?s2\<lparr>ss_now := nanos 11\<rparr>"
  note eval = stream_accept_def stream_start_def stream_done_def Let_def max_tls_handshakes_def
  have r: "runs ?step (stream_start 0) ([] @ [Some 7]) ?s"
    unfolding tls_listener_limit by (rule runs_snoc, rule runs_Nil, rule stream_step.accept)
  have "?step None ?s ?s1" by (rule stream_step.pass) (simp_all add: eval)
  moreover have "?step None ?s1 ?s2" by (rule stream_step.expire) (simp_all add: eval)
  moreover have "?step None ?s2 ?s3" by (rule stream_step.pass) (simp_all add: eval)
  ultimately have r': "runs ?step ?s ((([] @ [None]) @ [None]) @ [None]) ?s3"
    by (blast intro: runs.intros)
  have "nanos 10 < ss_now ?s3" "map fst (ss_handshakes ?s) = [7]" "ss_now ?s = 0" by (simp_all add: eval)
  with stream_listener_never_starves [OF r r'] r r' show ?thesis by (intro exI [of _ ?s] exI [of _ ?s3]) simp
qed

text \<open>
  C18. The HTTPS listener, whose handshakes the accept loop polls itself, makes the same promise: at most
  128 handshakes, no connection forgotten, and none under way for longer than ten seconds and the pause
  the loop makes after a failed \<open>accept\<close>.
\<close>
theorem https_listener_never_starves:
  assumes "runs (https_step (handshake_limit l)) (https_start now) ls s"
    and "runs (https_step (handshake_limit l)) s ls' s'"
  shows "length (https_held s) \<le> 128
    \<and> image_mset fst (mset (https_held s)) + mset (hs_sessions s) + mset (hs_failed s) + mset (hs_refused s)
        = mset (List.map_filter id ls)
    \<and> (hs_now s + nanos 10 + accept_pause < hs_now s' \<longrightarrow> set (https_held s) \<inter> set (https_held s') = {})"
  using https_loop.contract [OF _ _ _ assms] handshake_limit_le [of l]
  by (simp add: https_inv_def https_start_def https_held_def awake_def https_settled_def max_tls_handshakes_def add_ac)

lemma https_listener_never_starves_witness:
  "\<exists>s s'. runs (https_step (handshake_limit tls_listener)) (https_start 0) [Some 7] s
     \<and> runs (https_step (handshake_limit tls_listener)) s [None, None, None, None] s'
     \<and> map fst (https_held s) = [7] \<and> hs_failed s' = [7] \<and> nanos 10 + accept_pause < hs_now s'
     \<and> set (https_held s) \<inter> set (https_held s') = {}"
proof -
  let ?step = "https_step (handshake_limit tls_listener)"
  let ?s = "https_accept (nanos 10) 7 (https_start 0)"
  let ?s1 = "?s\<lparr>hs_now := nanos 10\<rparr>"
  let ?s2 = "https_complete 7 (nanos 10) False ?s1"
  let ?s3 = "https_next ?s2"
  let ?s4 = "?s3\<lparr>hs_now := nanos 11\<rparr>"
  note eval = https_accept_def https_start_def max_tls_handshakes_def https_complete_def https_next_def awake_def
    due_def https_held_def accept_pause_def
  have r: "runs ?step (https_start 0) ([] @ [Some 7]) ?s"
    unfolding tls_listener_limit by (rule runs_snoc, rule runs_Nil, rule https_step.accept) (simp_all add: eval)
  have "?step None ?s ?s1" by (rule https_step.pass) (simp_all add: eval)
  moreover have "?step None ?s1 ?s2" by (rule https_step.expire) (simp_all add: eval)
  moreover have "?step None ?s2 ?s3" by (rule https_step.yield) (simp_all add: eval)
  moreover have "?step None ?s3 ?s4" by (rule https_step.pass) (simp_all add: eval)
  ultimately have r': "runs ?step ?s (((([] @ [None]) @ [None]) @ [None]) @ [None]) ?s4"
    by (blast intro: runs.intros)
  have "nanos 10 + accept_pause < hs_now ?s4" "map fst (https_held ?s) = [7]" "hs_failed ?s4 = [7]" "hs_now ?s = 0"
    by (simp_all add: eval)
  with https_listener_never_starves [OF r r'] r r' show ?thesis
    by (intro exI [of _ ?s] exI [of _ ?s4]) simp
qed

end
