(* ===== verification/Step_Laws.thy ===== *)
theory Step_Laws
  imports Plugin_Laws
begin

text \<open>
  Guarantees of the steps that call or race other parts: the subnets the \<open>ecs\<close> plugin sends, the
  built-in steps, the winner of a race of upstreams, the preference of a fallback, and what a call
  of a plugin can return.
\<close>

section \<open>Client subnets\<close>

definition ipnet_law :: "'n lib \<Rightarrow> bool" where
  \<comment> \<open>documented behaviour of \<open>IpNet::new\<close> and \<open>network\<close>: a legal prefix is accepted, and the
      network address is the address with its host bits cleared\<close>
  "ipnet_law L \<longleftrightarrow> (\<forall>a p. unat p \<le> (if is_ipv4 a then 32 else 128) \<longrightarrow>
     (\<exists>n. net_new L a p = Some n \<and> net_network L n = mask_ip a p))"

lemma masked_law:
  assumes "ipnet_law L"
  shows "masked L a p = (mask_ip a (min p (if is_ipv4 a then 32 else 128)), min p (if is_ipv4 a then 32 else 128))"
proof -
  let ?p = "min p (if is_ipv4 a then 32 else 128)"
  have "unat ?p \<le> (if is_ipv4 a then 32 else 128)"
    by (auto simp: min_def word_le_nat_alt)
  with assms obtain n where "net_new L a ?p = Some n" "net_network L n = mask_ip a ?p"
    unfolding ipnet_law_def by blast
  then show ?thesis by (simp add: masked_def Let_def)
qed

lemma parse_mask_le: "parse_mask args key d b = Inr m \<Longrightarrow> d \<le> b \<Longrightarrow> m \<le> b"
proof -
  assume a: "parse_mask args key d b = Inr m" "d \<le> b"
  have "ucast n \<le> b" if "n \<le> (ucast b :: u64)" for n :: u64
  proof -
    have b: "unat b < 256" using unsigned_less [of b] by (simp add: word_less_nat_alt)
    then have "unat (ucast b :: u64) = unat b" by (simp add: unsigned_ucast_eq take_bit_nat_eq_self)
    with that have n: "unat n \<le> unat b" by (simp add: word_le_nat_alt)
    with b have "unat (ucast n :: u8) = unat n" by (simp add: unsigned_ucast_eq take_bit_nat_eq_self)
    with n show ?thesis by (simp add: word_le_nat_alt)
  qed
  with a show ?thesis by (auto simp: parse_mask_def split: option.splits if_splits)
qed

lemma ecs_exec_subnet:
  "ecs_of (c_query (ecs_exec L now p c)) =
     (if ecs_of (c_query c) \<noteq> None \<and> \<not> ec_force p then ecs_of (c_query c)
      else (case ecs_pick p c of
          None \<Rightarrow> ecs_of (c_query c)
        | Some (a, m) \<Rightarrow> Some \<lparr>cs_addr = fst (masked L a m), cs_source = snd (masked L a m), cs_scope = 0\<rparr>))"
  by (auto simp: ecs_exec_def Let_def case_prod_beta split: option.split)

text \<open>
  C35. An automatic \<open>ecs\<close> plugin changes the subnet of a query only to that of a public client
  address, cut to a configured prefix with the host bits cleared, so that it never sends a private
  address or more of an address than configured.
\<close>
theorem ecs_auto_subnet:
  assumes "ipnet_law L" "ecs_from_args tag args = Inr p" "ec_auto p"
    and "ecs_of (c_query (ecs_exec L now p c)) = Some cs" "ecs_of (c_query c) \<noteq> Some cs"
  shows "\<exists>a. c_client c = Some a \<and> is_public_ip a \<and> cs_scope cs = 0
    \<and> cs_source cs = (if is_ipv4 a then ec_mask4 p else ec_mask6 p)
    \<and> cs_source cs \<le> (if is_ipv4 a then 32 else 128) \<and> cs_addr cs = mask_ip a (cs_source cs)"
proof -
  have m: "ec_mask4 p \<le> 32" "ec_mask6 p \<le> 128"
    using assms(2) by (auto simp: ecs_from_args_def Let_def dest!: parse_mask_le split: if_splits)
  from assms(4,5) obtain a k where pick: "ecs_pick p c = Some (a, k)"
    "cs = \<lparr>cs_addr = fst (masked L a k), cs_source = snd (masked L a k), cs_scope = 0\<rparr>"
    by (auto simp: ecs_exec_subnet split: if_splits option.splits)
  with assms(3) have a: "c_client c = Some a" "is_public_ip a"
    "k = (if is_ipv4 a then ec_mask4 p else ec_mask6 p)"
    by (auto simp: ecs_pick_def split: option.splits if_splits)
  with m have "min k (if is_ipv4 a then 32 else 128) = k" by (simp add: min_def)
  with a pick(2) m show ?thesis by (simp add: masked_law [OF assms(1)])
qed

definition demo_auto :: yaml where
  "demo_auto = YMap [(YStr ''auto'', YBool True)]"

lemma ipnet_law_demo: "ipnet_law demo_lib"
  by (simp add: ipnet_law_def demo_lib_def)

lemma ecs_auto_subnet_witness:
  "\<exists>p cs. ecs_from_args ''e'' demo_auto = Inr p
     \<and> ecs_of (c_query (ecs_exec demo_lib 0 p (ctx_new 0 0 message_new (Some (V4 0x08080808)) PUdp))) = Some cs
     \<and> cs_addr cs = V4 0x08080800 \<and> cs_source cs = 24"
proof -
  let ?c = "ctx_new 0 0 message_new (Some (V4 0x08080808)) PUdp :: string ctx"
  let ?p = "\<lparr>ec_tag = ''e'', ec_auto = True, ec_ipv4 = None, ec_ipv6 = None, ec_force = False,
      ec_mask4 = 24, ec_mask6 = 48\<rparr>"
  have p: "ecs_from_args ''e'' demo_auto = Inr ?p"
    by (simp add: ecs_from_args_def demo_auto_def opt_parse_def y_bool_or_def parse_mask_def Let_def)
  have pub: "is_public_ip (V4 0x08080808)" by code_simp
  have none: "ecs_of (c_query ?c) = None" by (simp add: ctx_new_def message_new_def ecs_of_def)
  have "ecs_pick ?p ?c = Some (V4 0x08080808, 24)" using pub by (simp add: ecs_pick_def ctx_new_def)
  with none obtain cs where cs: "ecs_of (c_query (ecs_exec demo_lib 0 ?p ?c)) = Some cs"
    by (simp add: ecs_exec_subnet)
  have "ecs_of (c_query ?c) \<noteq> Some cs" using none by simp
  from ecs_auto_subnet [OF ipnet_law_demo p _ cs this]
  have "cs_source cs = 24 \<and> cs_addr cs = mask_ip (V4 0x08080808) 24" by (auto simp: ctx_new_def)
  moreover have "mask_ip (V4 0x08080808) 24 = V4 0x08080800" by code_simp
  ultimately show ?thesis using p cs by auto
qed

section \<open>Built-in steps\<close>

text \<open>
  A step that was parsed never fails when it runs, the assertion of \<open>Ord::clamp\<close> included, and
  a \<open>ttl\<close> step leaves every answer and authority record between its bounds.
\<close>
theorem parsed_step_succeeds:
  assumes "builtin_parse s = Inr b"
  shows "\<exists>a c'. builtin_apply b c = (Inr a, c')
    \<and> (case b of BTtl lo hi \<Rightarrow> lo \<le> hi \<and> (case c_response c' of None \<Rightarrow> True
         | Some r \<Rightarrow> list_all (\<lambda>x. lo \<le> rr_ttl x \<and> rr_ttl x \<le> hi) (m_answers r @ m_name_servers r))
       | _ \<Rightarrow> True)"
proof (cases b)
  case (BTtl lo hi)
  have le: "lo \<le> hi"
    using assms BTtl
    by (auto simp: builtin_parse_def Let_def parse_ttl_range_def split: if_splits option.splits)
  have c: "lo \<le> the (rust_clamp lo hi x) \<and> the (rust_clamp lo hi x) \<le> hi" for x
    using rust_clamp_total [OF le, of x] rust_clamp_Some by fastforce
  have bound: "list_all (\<lambda>x. lo \<le> rr_ttl x \<and> rr_ttl x \<le> hi)
      (map (\<lambda>r. r\<lparr>rr_ttl := the (rust_clamp lo hi (rr_ttl r))\<rparr>) rs)" for rs :: "'a rr list"
    using c by (simp add: list_all_iff)
  show ?thesis
    using le bound BTtl
    by (cases "c_response c") (simp_all add: apply_ttl_clamp_def res_map_clamp_total)
qed auto

lemma parsed_step_succeeds_witness:
  "\<exists>c'. builtin_apply (BTtl 60 600) (ctx_new 0 0 message_new None PUdp :: string ctx) = (Inr Continue, c')"
proof -
  have "builtin_parse ''ttl 60-600'' = Inr (BTtl 60 600)"
    by (simp add: builtin_parse_def Let_def trim_def trim_start_def trim_start_by_def trim_end_by_def
        is_ws_def nth_or_def next_part_def parse_ttl_range_def parse_word_def parse_unsigned_def
        digit_val_def)
  from parsed_step_succeeds [OF this, of "ctx_new 0 0 message_new None PUdp :: string ctx"]
  show ?thesis by (auto simp: apply_ttl_clamp_def ctx_new_def)
qed

section \<open>Races\<close>

lemma arrivals_sorted: "sorted (map (\<lambda>x. fst (snd x)) (arrivals n ans))"
  by (simp add: arrivals_def comp_def)

lemma set_arrivals: "set (arrivals n ans) = (\<lambda>i. (i, ans i)) ` {..<n}"
  by (auto simp: arrivals_def)

lemma race_winner_earliest:
  assumes "sorted (map (\<lambda>x. fst (snd x)) xs)" "x \<in> set xs" "usable_arrival x = Some m"
    and "fst (snd x) \<le> deadline"
  shows "\<exists>y \<in> set xs. fst (snd y) \<le> fst (snd x) \<and> usable_arrival y \<noteq> None
    \<and> race_winner deadline lu xs = Some (usable_arrival y)"
  using assms
proof (induction xs arbitrary: lu)
  case Nil
  then show ?case by simp
next
  case (Cons y ys)
  have le: "fst (snd y) \<le> fst (snd x)" using Cons.prems by auto
  show ?case
  proof (cases "usable_arrival y")
    case (Some m')
    with le Cons.prems(4) show ?thesis by auto
  next
    case None
    with Cons.prems(2,3) have "x \<in> set ys" by auto
    with Cons.IH Cons.prems le None show ?thesis by auto
  qed
qed

lemma usable_arrival_Some:
  "usable_arrival (i, t, r) = Some m \<longleftrightarrow> r = Inr m \<and> is_usable_response m"
  by (auto simp: usable_arrival_def split: sum.splits)

text \<open>
  C36. A usable reply of any raced upstream in time means the \<open>forward\<close> plugin answers, in time, with
  a usable reply that arrived no later, given the identifier of the query.
\<close>
theorem forward_first_usable:
  assumes "i < race_width p" "ans i = (t, Inr m)" "is_usable_response m" "t \<le> deadline"
  shows "\<exists>j t' m'. j < race_width p \<and> ans j = (t', Inr m') \<and> is_usable_response m' \<and> t' \<le> t
    \<and> \<not> fr_cancelled (forward_exec p deadline now ans c mx)
    \<and> c_response (fr_ctx (forward_exec p deadline now ans c mx))
        = Some (m'\<lparr>m_id := m_id (c_query c), m_type := MtResponse\<rparr>)"
proof (cases "race_width p = 1")
  case True
  with assms show ?thesis
    by (intro exI [of _ 0] exI [of _ t] exI [of _ m])
      (auto simp: forward_exec_def forward_single_def Let_def set_response_def)
next
  case False
  let ?xs = "arrivals (race_width p) ans"
  have x: "(i, t, Inr m) \<in> set ?xs" using assms(1,2) by (force simp: set_arrivals)
  have u: "usable_arrival (i, t, Inr m) = Some m" using assms(3) by (simp add: usable_arrival_Some)
  from race_winner_earliest [OF arrivals_sorted x u, of deadline None] assms(4)
  obtain y where y: "y \<in> set ?xs" "fst (snd y) \<le> t" "usable_arrival y \<noteq> None"
    "race_winner deadline None ?xs = Some (usable_arrival y)"
    by auto
  obtain j t' r where yj: "y = (j, t', r)" by (cases y)
  with y(3) obtain m' where m': "usable_arrival y = Some m'" by auto
  then have r: "r = Inr m'" "is_usable_response m'" by (simp_all add: yj usable_arrival_Some)
  have "race_result c (Some (Some m')) (forward_exec p deadline now ans c mx)"
    using race_loop_winner [of c deadline None ?xs p None now mx] y(4) m' False
    by (simp add: forward_exec_def)
  then have "\<not> fr_cancelled (forward_exec p deadline now ans c mx)
    \<and> c_response (fr_ctx (forward_exec p deadline now ans c mx))
        = Some (m'\<lparr>m_id := m_id (c_query c), m_type := MtResponse\<rparr>)"
    by (simp add: race_result_def response_from_def)
  moreover have "j < race_width p" "ans j = (t', Inr m')" "t' \<le> t"
    using y(1,2) yj r by (auto simp: set_arrivals)
  ultimately show ?thesis using r(2) by blast
qed

definition demo_upstream :: "string \<Rightarrow> upstream" where
  "demo_upstream addr = \<lparr>up_spec = \<lparr>us_addr = addr, us_dial_addr = None, us_bootstrap = None,
       us_idle_timeout = nanos 10, us_insecure = False, us_tag = None\<rparr>,
     up_kind = KUdp addr, up_http = False, up_resolver = None, up_tls = False\<rparr>"

definition demo_forward :: forward where
  "demo_forward = \<lparr>fw_tag = ''f'', fw_upstreams = [demo_upstream ''192.0.2.1'', demo_upstream ''192.0.2.2''], fw_concurrent = 2, fw_timeout_ms = 5000\<rparr>"

lemma forward_first_usable_witness:
  "\<exists>m'. c_response (fr_ctx (forward_exec demo_forward 100 0
       (\<lambda>i. if i = 0 then (7, Inl (OtherErr [])) else (9, Inr (message_new\<lparr>m_type := MtResponse\<rparr>)))
       (ctx_new 0 0 (message_new :: string message) None PUdp) (metrics_new 0))) = Some m'"
proof -
  have "1 < race_width demo_forward" by (simp add: race_width_def demo_forward_def)
  from forward_first_usable [OF this, where ?ans = "\<lambda>i. if i = 0 then (7, Inl (OtherErr []))
      else (9, Inr (message_new\<lparr>m_type := MtResponse\<rparr>))" and t = 9 and deadline = 100
      and m = "message_new\<lparr>m_type := MtResponse\<rparr>" and now = 0
      and c = "ctx_new 0 0 message_new None PUdp" and mx = "metrics_new 0"]
  show ?thesis by (auto simp: is_usable_response_def message_new_def)
qed

section \<open>Fallback\<close>

text \<open>
  C37. When the primary of a fallback has a wanted answer within the threshold, the fallback answers
  with it, in both modes and however fast the secondary is.
\<close>
theorem fallback_prefers_primary:
  assumes "get_exec (fb_primary f) (en_reg env) = Inr pl" "get_exec (fb_secondary f) (en_reg env) = Inr pl'"
    and "forked c w = (p0, w0)"
    and "call (min deadline (w_now w + fb_threshold f)) (fb_primary f) p0
      (if fb_standby f then snd (forked c w0) else w0) = (Inr (Inr a), p1, w1)"
    and "has_wanted_ans p1"
    and "\<And>d s v. fst (call d (fb_secondary f) s v) \<noteq> Inl Overflow \<and> fst (call d (fb_secondary f) s v) \<noteq> Inl Crash"
  shows "\<exists>c' w'. fallback_run env call deadline f c w = (Inr (Inr Continue), c', w')
    \<and> c_response c' = c_response p1"
proof (cases "fb_standby f")
  case False
  with assms(1-5) show ?thesis
    by (simp add: fallback_run_def fallback_serial_def absorb_def)
next
  case True
  obtain s0 w0' where f2: "forked c w0 = (s0, w0')" by (metis prod.exhaust)
  obtain r' s1 w2 where cl: "call (min deadline (w_now w1)) (fb_secondary f) s0 (w1\<lparr>w_now := w_now w\<rparr>) = (r', s1, w2)"
    by (metis prod.exhaust)
  with assms(6) have "r' \<noteq> Inl Overflow" "r' \<noteq> Inl Crash" by (metis fst_conv)+
  with True assms(1-5) f2 cl show ?thesis
    by (simp add: fallback_run_def fallback_standby_def absorb_def)
qed

definition demo_answer :: "string message" where
  "demo_answer = message_new\<lparr>m_type := MtResponse, m_answers := [record_a ''a.test.'' 60 1]\<rparr>"

definition demo_call :: "string caller" where
  \<comment> \<open>a pipeline in which every plugin answers at once\<close>
  "demo_call d t c w = (Inr (Inr Continue), c\<lparr>c_response := Some demo_answer\<rparr>, w)"

definition demo_fallback :: fallback where
  "demo_fallback = \<lparr>fb_tag = ''fb'', fb_primary = ''p'', fb_secondary = ''s'', fb_threshold = 5,
     fb_standby = True\<rparr>"

definition demo_fallback_env :: "string env" where
  "demo_fallback_env = \<lparr>en_lib = demo_lib, en_reg = \<lparr>rg_execs = [(''p'', PlNoEcs ''p''), (''s'', PlNoEcs ''s'')],
     rg_sets = \<lparr>rg_domains = [], rg_ips = []\<rparr>, rg_default_entry = None\<rparr>,
     en_other = (\<lambda>_ w. w), en_exchange = (\<lambda>_ _ _ _ _. (0, Inl (OtherErr [])))\<rparr>"

lemma fallback_prefers_primary_witness:
  "\<exists>c' w'. fallback_run demo_fallback_env demo_call 100 demo_fallback (ctx_new 0 0 message_new None PUdp)
       \<lparr>w_caches = [], w_metrics = metrics_new 0, w_next_id = 0, w_jobs = [], w_now = 0, w_tick = 0\<rparr>
     = (Inr (Inr Continue), c', w') \<and> c_response c' = Some demo_answer"
proof -
  let ?w = "\<lparr>w_caches = [], w_metrics = metrics_new 0, w_next_id = 0, w_jobs = [], w_now = 0, w_tick = 0\<rparr>
    :: string world" and ?c = "ctx_new 0 0 message_new None PUdp :: string ctx"
  obtain p0 w0 where fk: "forked ?c ?w = (p0, w0)" by (metis prod.exhaust)
  then have p0: "c_query p0 = message_new" by (auto simp: forked_def next_id_def fork_def ctx_new_def)
  have e: "get_exec (fb_primary demo_fallback) (en_reg demo_fallback_env) = Inr (PlNoEcs ''p'')"
    "get_exec (fb_secondary demo_fallback) (en_reg demo_fallback_env) = Inr (PlNoEcs ''s'')"
    by (simp_all add: demo_fallback_def demo_fallback_env_def get_exec_def)
  have "has_wanted_ans (p0\<lparr>c_response := Some demo_answer\<rparr>)"
    using p0 by (simp add: has_wanted_ans_def demo_answer_def message_new_def record_a_def ctx_qtype_def)
  from fallback_prefers_primary [where call = demo_call, OF e fk demo_call_def this] show ?thesis
    by (simp add: demo_call_def)
qed

section \<open>What a call returns\<close>

text \<open>
  A call of a plugin never makes its caller return or jump: whatever \<open>return\<close> and \<open>goto\<close>
  steps it runs, it tells the caller to go on or to stop, and what it did to the context is a legal
  pipeline step.
\<close>
theorem plugin_call_type:
  "fst (exec_tag depth env d t c w) \<noteq> Inr (Inr Return)
   \<and> fst (exec_tag depth env d t c w) \<noteq> Inr (Inr (Goto u))
   \<and> evolves c (fst (snd (exec_tag depth env d t c w)))"
  using pipeline.call_action [of depth env d t c w] pipeline.call_evolves [of c depth env d t w]
  by (auto simp: final_action_def split: sum.splits)

end
