(* ===== verification/Spec2Isabelle.thy ===== *)
theory Spec2Isabelle
  imports Operation_Witnesses Network_Witnesses Console_Witnesses Accept_Laws Cache_Keys Refresh_Laws Step_Laws
begin

text \<open>
  FerrumDNS is a DNS forwarder: listeners (UDP, TCP, TLS, DoH) decode a query, run it through a
  pipeline of configured plugins and send back what the pipeline left. This development models
  its logic and proves what its clients, its operator and its upstreams can rely on.

  \<^bold>\<open>The parts and how they interact.\<close>
  A configuration is loaded with its includes (\<^verbatim>\<open>src/config.rs\<close>), checked and built into a
  runtime: a registry of plugins, the caches and the default entry (\<^verbatim>\<open>src/runtime.rs\<close>). A listener
  (\<^verbatim>\<open>src/server.rs\<close>) makes a context of each message (\<^verbatim>\<open>src/context.rs\<close>) and calls \<open>handle\<close>, which
  runs the entry's plugin under a timeout; plugins call each other by tag through the registry
  (\<^verbatim>\<open>src/plugin/mod.rs\<close>, \<^verbatim>\<open>sequence.rs\<close>, \<^verbatim>\<open>fallback.rs\<close>), ask the caches (\<^verbatim>\<open>cache.rs\<close>) or upstreams
  (\<^verbatim>\<open>forward.rs\<close>, \<^verbatim>\<open>src/upstream.rs\<close>), or change the context. After the pipeline \<open>handle\<close> rebinds the
  response to the client's message. A lazy cache hit starts a background task that runs the
  request again. SIGHUP replaces the runtime (\<^verbatim>\<open>src/main.rs\<close>), and an HTTP API (\<^verbatim>\<open>src/api.rs\<close>) shows,
  queries and flushes it.

  \<^bold>\<open>Theories and sources.\<close>
  \<^item> \<open>Prelude\<close>, \<open>Net\<close>, \<open>Numbers\<close>, \<open>Address_Text\<close>, \<open>Files\<close>: machine integers, results, the string
    functions and addresses of Rust's standard library, numbers and addresses as text, rule files; the
    error type of \<^verbatim>\<open>src/error.rs\<close>. \<open>Dns\<close>: messages and the record \<open>lib\<close> of foreign operations.
  \<^item> \<open>Dnsutil\<close> is \<^verbatim>\<open>src/dnsutil.rs\<close>, \<open>Query_Context\<close> is \<^verbatim>\<open>src/context.rs\<close>, \<open>Matcher\<close> is
    \<^verbatim>\<open>src/matcher.rs\<close> with \<^verbatim>\<open>plugin/sets.rs\<close>, \<open>Metrics\<close> is \<^verbatim>\<open>src/metrics.rs\<close>.
  \<^item> \<open>Actions\<close>, \<open>Ecs\<close>, \<open>Hosts\<close>, \<open>Forward\<close> are the plugins of these names; \<open>Shard\<close> and \<open>Cache\<close> are
    \<^verbatim>\<open>plugin/cache.rs\<close>; \<open>Sequence\<close> is the configuration side of \<^verbatim>\<open>plugin/sequence.rs\<close> and
    \<^verbatim>\<open>plugin/fallback.rs\<close>, and \<open>Pipeline\<close> their execution.
  \<^item> \<open>Config\<close> is \<^verbatim>\<open>src/config.rs\<close>; \<open>Graph\<close> and \<open>Runtime\<close> are \<^verbatim>\<open>src/runtime.rs\<close>; \<open>Server\<close> is the
    request path of \<^verbatim>\<open>src/server.rs\<close>, \<open>Listeners\<close> its choice of listeners and \<open>Live::serve\<close>,
    \<open>Session\<close> a TCP or TLS session over time, \<open>Accept\<close> the accept loops, and \<open>Sockets\<close> its certificates,
    keys and UDP sockets; \<open>Commands\<close> is \<^verbatim>\<open>src/main.rs\<close>; \<open>Operation\<close> is \<open>Live\<close> with everything that
    shares it, as one step relation; \<open>Api\<close> and \<open>Console\<close> are \<^verbatim>\<open>src/api.rs\<close>, the
    handlers and the router.
  \<^item> \<open>Endpoint\<close>, \<open>Upstream\<close> and \<open>Exchange\<close> are \<^verbatim>\<open>src/upstream.rs\<close>: the text of an address, pools and
    exchanges, and the upstream as a whole. \<open>Network\<close> joins it to the \<open>forward\<close> plugin.

  Functions keep their Rust names where HOL allows it; a struct is a record, an enum a datatype, a
  hash map an association list with distinct keys (every theorem holds for each of its orders).

  \<^bold>\<open>State, time and concurrency.\<close>
  A request changes its context and the shared \<open>world\<close> (caches, metrics, background jobs, clock). A
  step that waits takes the instant by which it must be done and ends cancelled when the deadline
  passes first, as \<open>tokio::time::timeout\<close> does. A session takes the arrival times of its input and
  what becomes of each write; an accept loop is a step relation labelled with the connections it gets.
  What other tasks do meanwhile is an arbitrary function of the environment (\<open>en_other\<close>, \<open>nt_other\<close>);
  a theorem that needs more names the invariant they keep (\<open>calm\<close>, \<open>tame\<close>, \<open>trusted\<close>, \<open>others_keep\<close>),
  which is proved of the program's own steps. The steps of many requests on one cache are also a step
  relation (\<open>cache_step\<close>), and so are those of the service (\<open>live_step\<close>); there a request is one step,
  with \<open>en_other\<close> for what overlaps it. A plugin step on a cache (\<open>cache_exec\<close>) is one step of a request,
  though the code takes two locks in it; \<open>cache_step\<close> has its two halves as steps of their own as well.
  The two branches of a standby fallback run on the world one after the other, from the same instant, with
  \<open>en_other\<close> for what comes in between. A panic is the error \<open>Panicked\<close> or the stop \<open>Crash\<close>, so that
  it can be ruled out.

  \<^bold>\<open>What is proved.\<close>
  \<^item> Clients (\<open>Server_Laws\<close>, \<open>Wire_Laws\<close>): a reply is bound to its question, shows the alias of every
    rewrite and has no subnet once the pipeline put one on the query or took one off, which every step
    marks (\<open>subnet_marked\<close>); a timeout is answered with SERVFAIL; datagrams keep their limits.
  \<^item> Connections (\<open>Session_Laws\<close>, \<open>Accept\<close>, \<open>Accept_Laws\<close>): what a session sends are the replies to its
    requests in their order, cut off at worst in the last one; it ends in bounded time whatever the
    peer does; stalled TLS handshakes never starve a listener. The locale \<open>handshake_loop\<close> is the
    contract of both accept loops. With a prompt peer a session is the simpler \<open>serve_framed\<close>
    (\<open>session_prompt\<close>).
  \<^item> Cache (\<open>Shard\<close>, \<open>Cache\<close>, \<open>Cache_Laws\<close>, \<open>Cache_Keys\<close>, \<open>Store_Laws\<close>, \<open>Refresh_Laws\<close>): a shard refines a
    bounded recency list, keys separate what answers depend on, the client's subnet among it, as the text of an address names
    the address (\<open>Address_Text\<close>); hits are as fresh as promised in each section of the reply, a
    key has at most one refresh, and what is written answers what was looked up. The locale
    \<open>entry_store\<close> is the contract between one shard and the sharded cache.
  \<^item> Pipeline (\<open>Pipeline_Laws\<close>, \<open>Plugin_Laws\<close>, \<open>Match_Laws\<close>, \<open>Step_Laws\<close>): every run, for every registry,
    changes the context by legal steps only; sets, hosts, subnets, races and fallbacks do what
    their configuration says.
  \<^item> Provenance (\<open>Provenance\<close>, \<open>Provenance_Laws\<close>): the relation \<open>sourced\<close> says which records may answer a
    question, and every pipeline answers with, and leaves in its caches, only such records. The locale
    \<open>fair_caller\<close> is the contract of a nested call. It takes a registry in which no redirect can run behind
    a response (\<open>guarded\<close>): a check that follows the steps of each sequence and knows which of them make a
    response and which take it out of the sequence, as \<open>has_resp\<close> with \<open>accept\<close> does. The pipelines of
    \<^verbatim>\<open>tests/cache_regressions.rs\<close> pass it (\<open>regression_pipelines_guarded\<close>); \<open>late_redirect_mixes\<close> shows what
    happens otherwise.
  \<^item> The service as a whole (\<open>Operation\<close>, \<open>Build_Laws\<close>, \<open>Operation_Laws\<close>): in every state that requests,
    refreshes, flushes and reloads can reach, in any order, the runtime and its caches fit the
    configuration, the next request is taken to its end, and, with guarded configurations, each record of
    a reply is sourced. The locale
    \<open>world_invariant\<close> carries an invariant of the pipeline through every kind of request, and is
    interpreted for the state of the caches and for what they hold; \<open>tame_caller\<close> says that calls keep the
    caches and their jobs.
  \<^item> Configuration and service (\<open>Graph_Laws\<close>, \<open>Runtime_Laws\<close>, \<open>Config_Laws\<close>, \<open>Service_Laws\<close>): loading
    cleans, cycles are refused, the graph check is exact, what is checked starts, and reloads keep the
    service.
  \<^item> API (\<open>Service_Laws\<close>, \<open>Console_Laws\<close>): only trusted posts change anything, every request is answered
    with hardened headers, a flush is exact, and the secrets of the configuration stay inside.
  \<^item> Upstreams (\<open>Endpoint_Laws\<close>, \<open>Exchange_Laws\<close>, \<open>Upstream_Laws\<close>): replies match, exchanges end in
    time, forged datagrams are skipped among the four an exchange looks at, addresses survive normalisation, pools stay bounded and
    destinations settle. The locale \<open>shared_state\<close> carries a relation through a whole exchange. With
    these exchanges in place of the parameter of the pipeline (\<open>Network\<close>, \<open>Answer_Laws\<close>), a request to a
    \<open>forward\<close> entry is answered in time with what an upstream said to this question.

  The theories \<open>Witnesses\<close>, \<open>Upstream_Witnesses\<close>, \<open>Service_Witnesses\<close>, \<open>Network_Witnesses\<close>,
  \<open>Console_Witnesses\<close> and \<open>Operation_Witnesses\<close>, and the ends of the others, apply each property with
  hypotheses at concrete values.

  \<^bold>\<open>Bounds and fuel.\<close>
  Calls between plugins run with fuel \<open>call_depth\<close> = 64; \<open>visit_plugin\<close> refuses deeper graphs, and
  \<open>build_depth_any\<close> shows that a built runtime never runs out. Includes are cut at 64 files as in the
  code. \<open>show_nat\<close> has one digit of fuel more than the number, which is enough for any radix. All
  other functions recurse on data or a measure. The cache theorems with a clock assume that no
  deadline before the horizon \<open>T\<close> overflows an \<open>Instant\<close>; a huge \<open>lazy_cache_ttl\<close> can break that.

  \<^bold>\<open>Not modelled.\<close>
  The calls of the operating system, \<^verbatim>\<open>rustls\<close> (with the verifier that skips a server's certificate),
  the HTTP server and client, YAML, JSON, the DNS wire format, base64, regular expressions and
  \<open>ipnet\<close> are parameters, or steps the environment takes. Argument parsing, log lines and the embedded
  files of the console are left to the source. \<open>BoundSequence\<close> and \<open>BoundFallback\<close> are the same calls
  as the slots of the runtime. The sessions and the accept loop of a listener are modelled apart: a
  session gets its input and its peer, not the connection it came from. The simple session
  \<open>serve_framed\<close> keeps one registry; \<open>serve_session\<close> takes the live one for each request, as the code
  does.
\<close>

end
